theory Spec2Isabelle
  imports Complex_Main "HOL-Library.Log_Nat"
begin

section \<open>Python strings\<close>

text \<open>
  A Python \<open>str\<close> is a sequence of Unicode code points and \<open>len\<close> counts code points,
  so a string is a list of natural numbers. ASCII literals of the source are written
  \<open>asc ''...''\<close>; literals in Devanagari are written as their code points.
\<close>

type_synonym ustr = "nat list"

definition asc :: "string \<Rightarrow> ustr" where
  "asc s = map of_char s"

text \<open>
  \<open>str.isspace\<close>, \<open>str.strip()\<close> and the class \<open>\s\<close> of \<open>re\<close> (str patterns) all use
  the same table of CPython, which is finite: these 29 code points.
\<close>

definition is_space :: "nat \<Rightarrow> bool" where
  "is_space c \<longleftrightarrow>
     (9 \<le> c \<and> c \<le> 13) \<or> (28 \<le> c \<and> c \<le> 32) \<or> c = 133 \<or> c = 160 \<or> c = 5760 \<or>
     (8192 \<le> c \<and> c \<le> 8202) \<or> c = 8232 \<or> c = 8233 \<or> c = 8239 \<or> c = 8287 \<or> c = 12288"

text \<open>The character classes \<open>[,.!?]\<close>, \<open>[.!?]\<close>, \<open>[a-z]\<close> and the Devanagari block \<open>U+0900\<close> to \<open>U+097F\<close>.\<close>

definition is_punct :: "nat \<Rightarrow> bool" where
  "is_punct c \<longleftrightarrow> c = 44 \<or> c = 46 \<or> c = 33 \<or> c = 63"

definition is_term :: "nat \<Rightarrow> bool" where
  "is_term c \<longleftrightarrow> c = 46 \<or> c = 33 \<or> c = 63"

definition is_ascii_lower :: "nat \<Rightarrow> bool" where
  "is_ascii_lower c \<longleftrightarrow> 97 \<le> c \<and> c \<le> 122"

definition is_devanagari :: "nat \<Rightarrow> bool" where
  "is_devanagari c \<longleftrightarrow> 2304 \<le> c \<and> c \<le> 2431"

text \<open>
  The tables of the Unicode database that the source reaches through \<open>str.upper\<close>,
  \<open>str.lower\<close>, \<open>str.isdigit\<close> and the classes \<open>\d\<close> and \<open>\w\<close> are not part of the
  repository. Their ASCII part is written out below; the rest is a parameter.
\<close>

record unicode_tables =
  ext_upper :: "nat \<Rightarrow> ustr"
  ext_alnum :: "nat \<Rightarrow> bool"
  ext_decimal :: "nat \<Rightarrow> bool"
  ext_digit :: "nat \<Rightarrow> bool"
  str_lower :: "ustr \<Rightarrow> ustr"

definition upper_char :: "unicode_tables \<Rightarrow> nat \<Rightarrow> ustr" where
  "upper_char ut c =
     (if c < 128 then (if is_ascii_lower c then [c - 32] else [c]) else ext_upper ut c)"

definition is_ascii_alnum :: "nat \<Rightarrow> bool" where
  "is_ascii_alnum c \<longleftrightarrow> (48 \<le> c \<and> c \<le> 57) \<or> (65 \<le> c \<and> c \<le> 90) \<or> (97 \<le> c \<and> c \<le> 122)"

definition is_word :: "unicode_tables \<Rightarrow> nat \<Rightarrow> bool" where
  "is_word ut c \<longleftrightarrow> (if c < 128 then is_ascii_alnum c \<or> c = 95 else ext_alnum ut c)"

definition is_decimal :: "unicode_tables \<Rightarrow> nat \<Rightarrow> bool" where
  "is_decimal ut c \<longleftrightarrow> (if c < 128 then 48 \<le> c \<and> c \<le> 57 else ext_decimal ut c)"

definition is_digit :: "unicode_tables \<Rightarrow> nat \<Rightarrow> bool" where
  "is_digit ut c \<longleftrightarrow> (if c < 128 then 48 \<le> c \<and> c \<le> 57 else ext_digit ut c)"

text \<open>\<open>s.strip(chars)\<close> and \<open>s.strip()\<close>.\<close>

definition strip_chars :: "(nat \<Rightarrow> bool) \<Rightarrow> ustr \<Rightarrow> ustr" where
  "strip_chars P s = rev (dropWhile P (rev (dropWhile P s)))"

definition py_strip :: "ustr \<Rightarrow> ustr" where
  "py_strip s = strip_chars is_space s"

text \<open>\<open>s.startswith(p)\<close> and \<open>sub in s\<close>.\<close>

definition startswith :: "ustr \<Rightarrow> ustr \<Rightarrow> bool" where
  "startswith s p \<longleftrightarrow> take (length p) s = p"

fun contains :: "ustr \<Rightarrow> ustr \<Rightarrow> bool" where
  "contains sub [] = (sub = [])"
| "contains sub (c # cs) = (startswith (c # cs) sub \<or> contains sub cs)"

text \<open>
  \<open>s.replace(old, new)\<close>: the occurrences of \<open>old\<close> are found from the left and do not
  overlap. An empty \<open>old\<close> matches before every character and at the end.
\<close>

function py_replace :: "ustr \<Rightarrow> ustr \<Rightarrow> ustr \<Rightarrow> ustr" where
  "py_replace old new s =
     (if old = [] then new @ concat (map (\<lambda>c. c # new) s)
      else if s = [] then []
      else if startswith s old then new @ py_replace old new (drop (length old) s)
      else hd s # py_replace old new (tl s))"
  by pat_completeness auto
termination
  by (relation "measure (\<lambda>(old, new, s). length s)") auto

declare py_replace.simps [simp del]

lemma py_replace_Nil: "old \<noteq> [] \<Longrightarrow> py_replace old new [] = []"
  by (simp add: py_replace.simps)

lemma py_replace_Cons:
  "old \<noteq> [] \<Longrightarrow>
   py_replace old new (c # cs) =
     (if startswith (c # cs) old then new @ py_replace old new (drop (length old) (c # cs))
      else c # py_replace old new cs)"
  by (subst py_replace.simps) simp

text \<open>\<open>s.split('\n')\<close> and \<open>sep.join(xs)\<close>.\<close>

fun split_on :: "nat \<Rightarrow> ustr \<Rightarrow> ustr list" where
  "split_on d [] = [[]]"
| "split_on d (c # cs) =
     (if c = d then [] # split_on d cs
      else (case split_on d cs of l # ls \<Rightarrow> (c # l) # ls | [] \<Rightarrow> [[c]]))"

fun join :: "ustr \<Rightarrow> ustr list \<Rightarrow> ustr" where
  "join sep [] = []"
| "join sep [x] = x"
| "join sep (x # y # ys) = x @ sep @ join sep (y # ys)"

text \<open>\<open>str(n)\<close> for a natural number, and the format \<open>{n:0wd}\<close>.\<close>

fun str_nat :: "nat \<Rightarrow> ustr" where
  "str_nat n = (if n < 10 then [48 + n] else str_nat (n div 10) @ [48 + n mod 10])"

declare str_nat.simps [simp del]

lemma str_nat_digit: "n < 10 \<Longrightarrow> str_nat n = [48 + n]"
  by (simp add: str_nat.simps)

lemma str_nat_more: "10 \<le> n \<Longrightarrow> str_nat n = str_nat (n div 10) @ [48 + n mod 10]"
  by (subst str_nat.simps) simp

lemma replicate_small:
  "replicate 1 x = [x]" "replicate 2 x = [x, x]" "replicate 3 x = [x, x, x]"
  by (simp_all add: numeral_2_eq_2 numeral_3_eq_3)

definition zero_pad :: "nat \<Rightarrow> nat \<Rightarrow> ustr" where
  "zero_pad w n = replicate (w - length (str_nat n)) 48 @ str_nat n"

section \<open>Python floats\<close>

text \<open>
  A Python float is an IEEE 754 double. A finite double is modelled by its exact rational
  value. An arithmetic operation returns the exact result rounded to the nearest double,
  ties going to the even significand; a result beyond the largest double is an infinity.
\<close>

datatype pyfloat = Finite rat | PosInf | NegInf | NaN

text \<open>The nearest integer, ties to even.\<close>

definition round_half_even :: "rat \<Rightarrow> int" where
  "round_half_even x =
     (let f = \<lfloor>x\<rfloor>; r = x - of_int f
      in if r < 1 / 2 then f else if 1 / 2 < r then f + 1 else if even f then f else f + 1)"

text \<open>For a positive \<open>a\<close>, \<open>binade a\<close> is the exponent \<open>e\<close> with \<open>2^e \<le> a < 2^(e+1)\<close>.\<close>

definition binade :: "rat \<Rightarrow> int" where
  "binade a = (if 1 \<le> a then bitlen \<lfloor>a\<rfloor> - 1 else - bitlen (\<lceil>1 / a\<rceil> - 1))"

definition pow2 :: "int \<Rightarrow> rat" where
  "pow2 k = (if 0 \<le> k then 2 ^ nat k else 1 / 2 ^ nat (- k))"

text \<open>
  The double nearest to \<open>x\<close>. A double has 53 significant bits, so the doubles of the
  binade \<open>e\<close> are \<open>2^(e-52)\<close> apart; below \<open>2^-1022\<close> they stay \<open>2^-1074\<close> apart (the
  subnormal numbers), and \<open>2^1024\<close> is out of range.
\<close>

definition round_double :: "rat \<Rightarrow> pyfloat" where
  "round_double x =
     (if x = 0 then Finite 0
      else
        (let ulp = pow2 (max (binade \<bar>x\<bar>) (- 1022) - 52);
             y = of_int (round_half_even (x / ulp)) * ulp
         in if 2 ^ 1024 \<le> y then PosInf
            else if y \<le> - (2 ^ 1024) then NegInf
            else Finite y))"

text \<open>The value of the double nearest to \<open>x\<close>, for \<open>x\<close> within the range of the doubles.\<close>

definition double :: "rat \<Rightarrow> rat" where
  "double x = (case round_double x of Finite y \<Rightarrow> y | _ \<Rightarrow> x)"

text \<open>\<open>x + y\<close> and \<open>x < y\<close> of two floats.\<close>

fun fadd :: "pyfloat \<Rightarrow> pyfloat \<Rightarrow> pyfloat" where
  "fadd (Finite a) (Finite b) = round_double (a + b)"
| "fadd NaN y = NaN"
| "fadd x NaN = NaN"
| "fadd PosInf NegInf = NaN"
| "fadd NegInf PosInf = NaN"
| "fadd PosInf y = PosInf"
| "fadd x PosInf = PosInf"
| "fadd NegInf y = NegInf"
| "fadd x NegInf = NegInf"

fun flt :: "pyfloat \<Rightarrow> pyfloat \<Rightarrow> bool" where
  "flt (Finite a) (Finite b) \<longleftrightarrow> a < b"
| "flt NegInf (Finite b) \<longleftrightarrow> True"
| "flt NegInf PosInf \<longleftrightarrow> True"
| "flt (Finite a) PosInf \<longleftrightarrow> True"
| "flt x y \<longleftrightarrow> False"

text \<open>
  \<open>x / n\<close> of a float and a positive \<open>int\<close>: the integer is converted to a float, which is
  exact below \<open>2^53\<close>, and the quotient is rounded.
\<close>

definition fdiv_count :: "pyfloat \<Rightarrow> nat \<Rightarrow> pyfloat" where
  "fdiv_count x n = (case x of Finite a \<Rightarrow> round_double (a / of_nat n) | _ \<Rightarrow> x)"

text \<open>Evaluation of the floor, the ceiling and the bit length at numerals.\<close>

lemma floor_rat_numeral: "\<lfloor>(numeral a :: rat) / numeral b\<rfloor> = numeral a div numeral b"
  using floor_divide_of_int_eq [of "numeral a" "numeral b", where ?'a = rat] by simp

lemma floor_rat_one: "\<lfloor>(1 :: rat) / numeral b\<rfloor> = 1 div numeral b"
  using floor_divide_of_int_eq [of 1 "numeral b", where ?'a = rat] by simp

lemma floor_rat_neg_numeral:
  "\<lfloor>- ((numeral a :: rat) / numeral b)\<rfloor> = (- numeral a) div numeral b"
  using floor_divide_of_int_eq [of "- numeral a" "numeral b", where ?'a = rat] by simp

lemma floor_rat_neg_one: "\<lfloor>- ((1 :: rat) / numeral b)\<rfloor> = (- 1) div numeral b"
  using floor_divide_of_int_eq [of "- 1" "numeral b", where ?'a = rat] by simp

lemma ceiling_rat_numeral:
  "\<lceil>(numeral a :: rat) / numeral b\<rceil> = - ((- numeral a) div numeral b)"
  unfolding ceiling_def by (simp add: floor_rat_neg_numeral)

lemma bitlen_numeral_step: "bitlen (numeral n) = bitlen (numeral n div 2) + 1"
  by (subst compute_bitlen) simp

lemma bitlen_one: "bitlen 1 = 1"
  by (subst compute_bitlen) simp

text \<open>The rounding is unfolded at numerals only.\<close>

lemmas round_double_eval =
  round_double_def [of 0] round_double_def [of 1] round_double_def [of "- 1"]
  round_double_def [of "numeral a"] round_double_def [of "- numeral a"]
  round_double_def [of "numeral a / numeral b"] round_double_def [of "- (numeral a / numeral b)"]
  round_double_def [of "1 / numeral b"] round_double_def [of "- (1 / numeral b)"]
  for a b

lemmas double_eval =
  double_def [of 0] double_def [of 1] double_def [of "- 1"]
  double_def [of "numeral a"] double_def [of "- numeral a"]
  double_def [of "numeral a / numeral b"] double_def [of "- (numeral a / numeral b)"]
  double_def [of "1 / numeral b"] double_def [of "- (1 / numeral b)"]
  for a b

lemmas float_eval =
  round_double_eval double_eval fdiv_count_def binade_def pow2_def round_half_even_def Let_def
  floor_rat_numeral floor_rat_one floor_rat_neg_numeral floor_rat_neg_one ceiling_rat_numeral
  bitlen_numeral_step bitlen_one

section \<open>The regular expressions of the source\<close>

text \<open>
  Each \<open>re.sub\<close> of the source scans the text from the left, replaces the leftmost match,
  and goes on after it. A greedy \<open>\s*\<close> or \<open>\s+\<close> followed by a character that is not
  whitespace can only succeed on the whole run of whitespace, so every attempt is decided by
  \<open>dropWhile is_space\<close>.
\<close>

lemma dropWhile_Cons_shorter: "dropWhile P xs = y # ys \<Longrightarrow> length ys < length xs"
  using length_dropWhile_le [of P xs] by simp

lemma dropWhile_Cons_shorter2:
  "dropWhile P xs = y # ys \<Longrightarrow> length (dropWhile Q ys) < length xs"
  using length_dropWhile_le [of P xs] length_dropWhile_le [of Q ys] by simp

text \<open>\<open>re.sub(r'\s+', ' ', text)\<close>\<close>

function sub_ws_runs :: "ustr \<Rightarrow> ustr" where
  "sub_ws_runs [] = []"
| "sub_ws_runs (c # cs) =
     (if is_space c then 32 # sub_ws_runs (dropWhile is_space cs) else c # sub_ws_runs cs)"
  by pat_completeness auto
termination
  by (relation "measure length") (auto simp: less_Suc_eq_le length_dropWhile_le)

text \<open>\<open>re.sub(r'\s*([,.!?])\s*', r'\1 ', text)\<close>\<close>

function sub_punct_spacing :: "ustr \<Rightarrow> ustr" where
  "sub_punct_spacing [] = []"
| "sub_punct_spacing (c # cs) =
     (case dropWhile is_space (c # cs) of
        [] \<Rightarrow> c # sub_punct_spacing cs
      | p # rest \<Rightarrow>
          if is_punct p then p # 32 # sub_punct_spacing (dropWhile is_space rest)
          else c # sub_punct_spacing cs)"
  by pat_completeness auto
termination
  by (relation "measure length")
     (auto simp del: dropWhile.simps dest: dropWhile_Cons_shorter2 [where Q = is_space])

text \<open>\<open>re.sub(r'\s+([,.!?])', r'\1', text)\<close>\<close>

function sub_space_before_punct :: "ustr \<Rightarrow> ustr" where
  "sub_space_before_punct [] = []"
| "sub_space_before_punct (c # cs) =
     (if is_space c then
        (case dropWhile is_space cs of
           [] \<Rightarrow> c # sub_space_before_punct cs
         | p # rest \<Rightarrow>
             if is_punct p then p # sub_space_before_punct rest
             else c # sub_space_before_punct cs)
      else c # sub_space_before_punct cs)"
  by pat_completeness auto
termination
  by (relation "measure length")
     (auto dest: dropWhile_Cons_shorter dropWhile_Cons_shorter2 simp: less_Suc_eq)

text \<open>
  \<open>re.sub(r'([.!?]\s+)([a-z])', lambda m: m.group(1) + m.group(2).upper(), text)\<close>
\<close>

function sub_upper_after_term :: "ustr \<Rightarrow> ustr" where
  "sub_upper_after_term [] = []"
| "sub_upper_after_term (c # cs) =
     (if is_term c \<and> takeWhile is_space cs \<noteq> [] then
        (case dropWhile is_space cs of
           [] \<Rightarrow> c # sub_upper_after_term cs
         | l # rest \<Rightarrow>
             if is_ascii_lower l
             then c # takeWhile is_space cs @ (l - 32) # sub_upper_after_term rest
             else c # sub_upper_after_term cs)
      else c # sub_upper_after_term cs)"
  by pat_completeness auto
termination
  by (relation "measure length")
     (auto dest: dropWhile_Cons_shorter dropWhile_Cons_shorter2 simp: less_Suc_eq)

text \<open>\<open>re.sub(r'([.!?])\s*([.!?])+', r'\1', text)\<close>\<close>

function sub_repeated_term :: "ustr \<Rightarrow> ustr" where
  "sub_repeated_term [] = []"
| "sub_repeated_term (c # cs) =
     (if is_term c then
        (case dropWhile is_space cs of
           [] \<Rightarrow> c # sub_repeated_term cs
         | p # rest \<Rightarrow>
             if is_term p then c # sub_repeated_term (dropWhile is_term rest)
             else c # sub_repeated_term cs)
      else c # sub_repeated_term cs)"
  by pat_completeness auto
termination
  by (relation "measure length")
     (auto dest: dropWhile_Cons_shorter dropWhile_Cons_shorter2 simp: less_Suc_eq)

text \<open>
  \<open>re.split(r'([.!?]\s*)', text)\<close>: the pieces between the matches alternate with the
  matched separators (the pattern is one capturing group). The first argument is the piece
  read so far.
\<close>

function split_term :: "ustr \<Rightarrow> ustr \<Rightarrow> ustr list" where
  "split_term piece [] = [piece]"
| "split_term piece (c # cs) =
     (if is_term c
      then piece # (c # takeWhile is_space cs) # split_term [] (dropWhile is_space cs)
      else split_term (piece @ [c]) cs)"
  by pat_completeness auto
termination
  by (relation "measure (\<lambda>(piece, s). length s)")
     (auto simp: less_Suc_eq_le length_dropWhile_le)

text \<open>\<open>re.match(r'[.!?]\s*', sentence)\<close> succeeds exactly when the first character is in the class.\<close>

definition match_term :: "ustr \<Rightarrow> bool" where
  "match_term s = (case s of [] \<Rightarrow> False | c # cs \<Rightarrow> is_term c)"

text \<open>\<open>re.search(r'[\u0900-\u097F]', text)\<close> and \<open>len(re.findall(r'[\u0900-\u097F]', text))\<close>\<close>

definition search_devanagari :: "ustr \<Rightarrow> bool" where
  "search_devanagari s = list_ex is_devanagari s"

definition count_devanagari :: "ustr \<Rightarrow> nat" where
  "count_devanagari s = length (filter is_devanagari s)"

text \<open>
  \<open>re.match(r'^[\s\d\W]+$', text)\<close>: the class holds the line feed, so the greedy \<open>+\<close>
  stops only at a character outside the class, where \<open>$\<close> cannot match; the match succeeds
  exactly on a non-empty text made of characters of the class.
\<close>

definition match_no_words :: "unicode_tables \<Rightarrow> ustr \<Rightarrow> bool" where
  "match_no_words ut s \<longleftrightarrow>
     s \<noteq> [] \<and> list_all (\<lambda>c. is_space c \<or> is_decimal ut c \<or> \<not> is_word ut c) s"

text \<open>\<open>re.search(r'[\u0900-\u097F\w]', text)\<close>\<close>

definition search_devanagari_or_word :: "unicode_tables \<Rightarrow> ustr \<Rightarrow> bool" where
  "search_devanagari_or_word ut s = list_ex (\<lambda>c. is_devanagari c \<or> is_word ut c) s"

section \<open>Exceptions and the transcription engine\<close>

text \<open>
  Every \<open>raise\<close> of the source and every failure of a collaborator is a value. Each
  exception carries the text that \<open>str(e)\<close> returns.
\<close>

datatype exn =
    FileNotFoundError ustr
  | ValueError ustr
  | KeyError ustr
  | TimeoutExpired ustr
  | Exception ustr

fun str_exn :: "exn \<Rightarrow> ustr" where
  "str_exn (FileNotFoundError m) = m"
| "str_exn (ValueError m) = m"
| "str_exn (KeyError m) = m"
| "str_exn (TimeoutExpired m) = m"
| "str_exn (Exception m) = m"

text \<open>
  The result of the engine is a dictionary; \<open>None\<close> stands for a missing key. Times and
  log-probabilities are finite Python floats, each given by its exact value.
\<close>

record segment =
  seg_text :: "ustr option"
  seg_start :: "rat option"
  seg_end :: "rat option"
  avg_logprob :: "rat option"

record whisper_result =
  res_segments :: "segment list option"
  res_language :: "ustr option"
  res_text :: "ustr option"

text \<open>The keyword arguments of \<open>model.transcribe\<close>; \<open>None\<close> stands for an argument not passed.\<close>

record transcribe_options =
  opt_language :: "ustr option"
  opt_task :: ustr
  opt_verbose :: bool
  opt_condition_on_previous_text :: bool
  opt_word_timestamps :: bool
  opt_temperature :: "rat option"
  opt_compression_ratio_threshold :: "rat option"
  opt_logprob_threshold :: "rat option"
  opt_no_speech_threshold :: "rat option"
  opt_duration :: "nat option"

text \<open>\<open>self.model.transcribe(audio_path, **options)\<close>: opaque, and it may raise.\<close>

type_synonym engine = "ustr \<Rightarrow> transcribe_options \<Rightarrow> exn + whisper_result"

section \<open>LocalWhisperTools\<close>

definition HINDI_INDICATORS :: "ustr list" where
  "HINDI_INDICATORS =
    [[2361, 2376], [2361, 2376, 2306], [2341, 2366], [2341, 2368], [2325, 2352, 2344, 2366],
     [2325, 2352], [2324, 2352], [2325, 2366], [2325, 2368], [2325, 2375], [2350, 2375, 2306],
     [2360, 2375], [2325, 2379], [2346, 2352],
     [2351, 2361], [2357, 2361], [2361, 2350], [2340, 2369, 2350], [2310, 2346],
     [2350, 2376, 2306], [2351, 2375], [2357, 2379], [2325, 2381, 2351, 2366],
     [2325, 2376, 2360, 2375], [2325, 2361, 2366, 2305], [2325, 2348],
     [2325, 2381, 2351, 2379, 2306],
     [2309, 2330, 2381, 2331, 2366], [2348, 2369, 2352, 2366], [2348, 2337, 2364, 2366],
     [2331, 2379, 2335, 2366], [2344, 2351, 2366], [2346, 2369, 2352, 2366, 2344, 2366],
     [2360, 2361, 2368], [2327, 2354, 2340]]"

definition romanization_map :: "(ustr \<times> ustr) list" where
  "romanization_map =
    [([2361, 2376], asc ''hai''), ([2361, 2376, 2306], asc ''hain''),
     ([2341, 2366], asc ''tha''), ([2341, 2368], asc ''thi''),
     ([2325, 2352, 2344, 2366], asc ''karna''), ([2325, 2352], asc ''kar''),
     ([2324, 2352], asc ''aur''),
     ([2325, 2366], asc ''ka''), ([2325, 2368], asc ''ki''), ([2325, 2375], asc ''ke''),
     ([2350, 2375, 2306], asc ''mein''),
     ([2360, 2375], asc ''se''), ([2325, 2379], asc ''ko''), ([2346, 2352], asc ''par''),
     ([2351, 2361], asc ''yah''), ([2357, 2361], asc ''vah''), ([2361, 2350], asc ''hum''),
     ([2340, 2369, 2350], asc ''tum''), ([2310, 2346], asc ''aap''),
     ([2350, 2376, 2306], asc ''main''),
     ([2325, 2381, 2351, 2366], asc ''kya''), ([2325, 2376, 2360, 2375], asc ''kaise''),
     ([2325, 2361, 2366, 2305], asc ''kahan''),
     ([2309, 2330, 2381, 2331, 2366], asc ''acha''), ([2348, 2369, 2352, 2366], asc ''bura'')]"

definition romanize_hindi_word :: "ustr \<Rightarrow> ustr" where
  "romanize_hindi_word hindi_word =
     (case map_of romanization_map hindi_word of Some r \<Rightarrow> r | None \<Rightarrow> hindi_word)"

text \<open>The options of the quick call of \<open>detect_language_type\<close>.\<close>

definition quick_options :: transcribe_options where
  "quick_options =
     \<lparr>opt_language = None, opt_task = asc ''transcribe'', opt_verbose = False,
      opt_condition_on_previous_text = False, opt_word_timestamps = False,
      opt_temperature = None, opt_compression_ratio_threshold = None,
      opt_logprob_threshold = None, opt_no_speech_threshold = None,
      opt_duration = Some 30\<rparr>"

text \<open>
  \<open>hindi_word_matches\<close>: the number of indicator words that occur in the sample, as
  written or romanized. \<open>indicator_matches\<close> is the condition of the generator,
  \<open>any(variant in text_sample for variant in [word, self._romanize_hindi_word(word)])\<close>.
\<close>

definition indicator_matches :: "ustr \<Rightarrow> ustr \<Rightarrow> bool" where
  "indicator_matches text_sample word =
     list_ex (\<lambda>variant. contains variant text_sample) [word, romanize_hindi_word word]"

definition hindi_word_matches :: "ustr \<Rightarrow> nat" where
  "hindi_word_matches text_sample =
     length (filter (indicator_matches text_sample) HINDI_INDICATORS)"

text \<open>
  The decision logic of \<open>detect_language_type\<close> (lines 189 to 208), on the language tag
  and the lower-cased sample text. The float product \<open>len(text_sample) * 0.3\<close> is modelled
  exactly.
\<close>

definition decide_language_type :: "ustr \<Rightarrow> ustr \<Rightarrow> ustr" where
  "decide_language_type detected_lang text_sample =
     (let hindi_script_count = count_devanagari text_sample
      in if detected_lang = asc ''hi'' \<or> hindi_script_count > 10 then
           (if (of_nat hindi_script_count :: rat) > of_nat (length text_sample) * (3 / 10)
            then asc ''hindi''
            else asc ''hinglish'')
         else if hindi_word_matches text_sample > 3 \<or>
                 list_ex (\<lambda>word. contains word text_sample)
                   [asc ''hai'', asc ''kar'', asc ''kya'', asc ''kaise'', asc ''acha'', asc ''bura'']
         then asc ''hinglish''
         else asc ''english'')"

text \<open>
  \<open>detect_language_type\<close>: one quick call of the engine; whatever the call raises is
  swallowed and the answer is then \<open>'hinglish'\<close>.
\<close>

definition detect_language_type :: "unicode_tables \<Rightarrow> engine \<Rightarrow> ustr \<Rightarrow> ustr" where
  "detect_language_type ut eng audio_path =
     (case eng audio_path quick_options of
        Inl e \<Rightarrow> asc ''hinglish''
      | Inr quick_result \<Rightarrow>
          (let detected_lang = (case res_language quick_result of None \<Rightarrow> asc ''en'' | Some l \<Rightarrow> l);
               text_sample = str_lower ut (case res_text quick_result of None \<Rightarrow> [] | Some t \<Rightarrow> t)
           in decide_language_type detected_lang text_sample))"

definition corrections :: "(ustr \<times> ustr) list" where
  "corrections =
    [([2324, 2352], asc ''aur''),
     ([2361, 2376, 32, 2344, 2366], asc ''hai na''),
     ([2325, 2381, 2351, 2366], asc ''kya''),
     ([2325, 2376, 2360, 2375], asc ''kaise''),
     ([2309, 2330, 2381, 2331, 2366], asc ''accha''),
     ([2348, 2361, 2369, 2340], asc ''bahut''),
     ([2341, 2379, 2337, 2364, 2366], asc ''thoda''),
     (asc ''theek'', asc ''thik''),
     (asc ''paani'', asc ''pani''),
     (asc ''ghar'', asc ''ghar''),
     (asc ''kaun'', asc ''kaun''),
     (asc ''kyun'', asc ''kyun''),
     (asc ''hai na'', asc ''hai na''),
     (asc ''kar na'', asc ''karna''),
     (asc ''ja na'', asc ''jana''),
     (asc ''aa na'', asc ''aana'')]"

text \<open>The body of the loop over the sentences in \<open>_fix_hindi_hinglish_errors\<close>.\<close>

definition capitalize_sentence :: "unicode_tables \<Rightarrow> ustr \<Rightarrow> ustr" where
  "capitalize_sentence ut sentence =
     (if py_strip sentence \<noteq> [] \<and> \<not> match_term sentence then
        (let sentence' = py_strip sentence
         in if sentence' \<noteq> [] then upper_char ut (hd sentence') @ tl sentence' else sentence')
      else sentence)"

text \<open>\<open>for wrong, correct in corrections.items(): text = text.replace(wrong, correct)\<close>\<close>

fun apply_corrections :: "(ustr \<times> ustr) list \<Rightarrow> ustr \<Rightarrow> ustr" where
  "apply_corrections [] t = t"
| "apply_corrections ((wrong, correct) # rest) t =
     apply_corrections rest (py_replace wrong correct t)"

definition fix_hindi_hinglish_errors :: "unicode_tables \<Rightarrow> ustr \<Rightarrow> ustr" where
  "fix_hindi_hinglish_errors ut text0 =
     (let text1 = apply_corrections corrections text0;
          text2 = sub_ws_runs text1;
          text3 = sub_repeated_term text2;
          sentences = split_term [] text3;
          processed_sentences = map (capitalize_sentence ut) sentences
      in py_strip (concat processed_sentences))"

definition is_strip_char :: "nat \<Rightarrow> bool" where
  "is_strip_char c \<longleftrightarrow> c = 32 \<or> c = 46 \<or> c = 44 \<or> c = 33 \<or> c = 63"

definition clean_subtitle_text :: "ustr \<Rightarrow> ustr" where
  "clean_subtitle_text text0 =
     (let text1 = sub_ws_runs text0;
          text2 = sub_punct_spacing text1;
          text3 = sub_space_before_punct text2;
          text4 = strip_chars is_strip_char text3
      in sub_upper_after_term text4)"

text \<open>
  \<open>x % m\<close> and \<open>x // m\<close> of floats, for \<open>0 \<le> x\<close> and \<open>0 < m\<close>. The remainder is that of
  C's \<open>fmod\<close>, which is exact. The quotient is computed by CPython from the remainder:
  \<open>div = (x - mod) / m\<close>, then \<open>floor(div)\<close>, plus one when \<open>div - floor(div) > 0.5\<close>.
\<close>

definition fmod :: "rat \<Rightarrow> rat \<Rightarrow> rat" where
  "fmod x m = x - m * of_int \<lfloor>x / m\<rfloor>"

definition float_floordiv :: "rat \<Rightarrow> rat \<Rightarrow> rat" where
  "float_floordiv x m =
     (let md = fmod x m;
          dv = double (double (x - md) / m);
          floordiv = of_int \<lfloor>dv\<rfloor>
      in if 1 / 2 < double (dv - floordiv) then double (floordiv + 1) else floordiv)"

lemmas float_floordiv_eval =
  float_floordiv_def [of 0 "numeral m"] float_floordiv_def [of 1 "numeral m"]
  float_floordiv_def [of "numeral a" "numeral m"]
  float_floordiv_def [of "numeral a / numeral b" "numeral m"]
  float_floordiv_def [of "1 / numeral b" "numeral m"]
  for a b m

text \<open>
  \<open>_format_timestamp\<close>; \<open>int\<close> truncates, and every float it is applied to is at least 0.
\<close>

definition format_timestamp :: "rat \<Rightarrow> ustr" where
  "format_timestamp seconds0 =
     (let seconds = (if seconds0 < 0 then 0 else seconds0);
          hours = nat \<lfloor>float_floordiv seconds 3600\<rfloor>;
          minutes = nat \<lfloor>float_floordiv (fmod seconds 3600) 60\<rfloor>;
          secs = nat \<lfloor>fmod seconds 60\<rfloor>;
          millisecs = nat \<lfloor>double (fmod seconds 1 * 1000)\<rfloor>
      in zero_pad 2 hours @ asc '':'' @ zero_pad 2 minutes @ asc '':'' @ zero_pad 2 secs @
         asc '','' @ zero_pad 3 millisecs)"

text \<open>
  The loop of \<open>_convert_to_srt\<close>: the lines appended to \<open>srt_lines\<close> from the segments that
  are left, with \<open>segment_counter\<close> as the first argument.
\<close>

fun srt_lines :: "unicode_tables \<Rightarrow> nat \<Rightarrow> segment list \<Rightarrow> ustr list" where
  "srt_lines ut segment_counter [] = []"
| "srt_lines ut segment_counter (seg # segs) =
     (let start_time = format_timestamp (case seg_start seg of None \<Rightarrow> 0 | Some t \<Rightarrow> t);
          end_time = format_timestamp (case seg_end seg of None \<Rightarrow> 0 | Some t \<Rightarrow> t);
          text0 = py_strip (case seg_text seg of None \<Rightarrow> [] | Some t \<Rightarrow> t)
      in if text0 = [] then srt_lines ut segment_counter segs
         else
           (let text1 = clean_subtitle_text text0
            in if length text1 < 1 \<or> (length text1 < 3 \<and> \<not> search_devanagari text1)
               then srt_lines ut segment_counter segs
               else if match_no_words ut text1 \<and> \<not> search_devanagari_or_word ut text1
               then srt_lines ut segment_counter segs
               else [str_nat segment_counter, start_time @ asc '' --> '' @ end_time, text1, []]
                    @ srt_lines ut (segment_counter + 1) segs))"

definition convert_to_srt :: "unicode_tables \<Rightarrow> whisper_result \<Rightarrow> ustr" where
  "convert_to_srt ut result =
     (case res_segments result of
        None \<Rightarrow> []
      | Some segs \<Rightarrow> join [10] (srt_lines ut 1 segs))"

text \<open>The loop of \<open>_post_process_hindi_hinglish\<close>, and the function.\<close>

fun processed_segments :: "unicode_tables \<Rightarrow> ustr option \<Rightarrow> segment list \<Rightarrow> segment list" where
  "processed_segments ut language [] = []"
| "processed_segments ut language (seg # segs) =
     (let text0 = py_strip (case seg_text seg of None \<Rightarrow> [] | Some t \<Rightarrow> t)
      in if text0 = [] then processed_segments ut language segs
         else
           (let text1 = fix_hindi_hinglish_errors ut text0
            in if language = Some (asc ''hi'') \<and>
                  (case avg_logprob seg of None \<Rightarrow> 0 | Some l \<Rightarrow> l) < - (3 / 2)
               then processed_segments ut language segs
               else seg\<lparr>seg_text := Some text1\<rparr> # processed_segments ut language segs))"

definition post_process_hindi_hinglish ::
  "unicode_tables \<Rightarrow> whisper_result \<Rightarrow> ustr option \<Rightarrow> whisper_result" where
  "post_process_hindi_hinglish ut result language =
     (case res_segments result of
        None \<Rightarrow> result
      | Some segs \<Rightarrow> result\<lparr>res_segments := Some (processed_segments ut language segs)\<rparr>)"

text \<open>
  The file system: the text that \<open>open(path).read()\<close> returns for each path that exists.
\<close>

type_synonym fs = "ustr \<rightharpoonup> ustr"

definition path_exists :: "fs \<Rightarrow> ustr \<Rightarrow> bool" where
  "path_exists files path \<longleftrightarrow> files path \<noteq> None"

text \<open>Python's truth value of an optional string: \<open>None\<close> and \<open>''\<close> are false.\<close>

definition truthy :: "ustr option \<Rightarrow> bool" where
  "truthy s \<longleftrightarrow> s \<noteq> None \<and> s \<noteq> Some []"

text \<open>\<open>LANGUAGE_CONFIGS[detected_type]['code']\<close> and \<open>language_mapping\<close>.\<close>

definition LANGUAGE_CONFIGS_code :: "(ustr \<times> ustr) list" where
  "LANGUAGE_CONFIGS_code =
     [(asc ''hindi'', asc ''hi''), (asc ''hinglish'', asc ''hi''), (asc ''english'', asc ''en'')]"

definition language_mapping :: "(ustr \<times> ustr) list" where
  "language_mapping =
     [(asc ''hindi'', asc ''hi''), (asc ''hinglish'', asc ''hi''), (asc ''english'', asc ''en'')]"

text \<open>
  Lines 246 to 259 of \<open>transcribe_audio_local\<close>: the language code that the passes use,
  with the calls of the engine made on the way.
\<close>

definition resolve_language ::
  "unicode_tables \<Rightarrow> engine \<Rightarrow> ustr \<Rightarrow> ustr option \<Rightarrow> bool
     \<Rightarrow> transcribe_options list \<times> (exn + ustr option)" where
  "resolve_language ut eng audio_path language auto_detect_language =
     (if auto_detect_language \<and> \<not> truthy language then
        (let detected_type = detect_language_type ut eng audio_path
         in ([quick_options],
             (case map_of LANGUAGE_CONFIGS_code detected_type of
                None \<Rightarrow> Inl (KeyError detected_type)
              | Some code \<Rightarrow> Inr (Some code))))
      else if truthy language then
        (let l = the language
         in ([], Inr (Some (case map_of language_mapping (str_lower ut l) of
                              None \<Rightarrow> l | Some code \<Rightarrow> code))))
      else ([], Inr language))"

text \<open>\<open>transcribe_options\<close> as built on lines 262 to 275.\<close>

definition primary_options :: "ustr option \<Rightarrow> ustr \<Rightarrow> transcribe_options" where
  "primary_options language task =
     \<lparr>opt_language = (if truthy language then language else None),
      opt_task = task, opt_verbose = False,
      opt_condition_on_previous_text = True, opt_word_timestamps = True,
      opt_temperature = Some 0, opt_compression_ratio_threshold = Some (12 / 5),
      opt_logprob_threshold = Some (- 1), opt_no_speech_threshold = Some (3 / 5),
      opt_duration = None\<rparr>"

text \<open>
  \<open>sum(segment.get('avg_logprob', -1.0) for segment in result.get('segments', []))
     / max(len(result.get('segments', [])), 1)\<close>:
  \<open>sum\<close> starts from 0 and adds the floats one by one from the left, each addition
  rounded, as CPython does up to version 3.11.
\<close>

definition mean_logprob :: "whisper_result \<Rightarrow> pyfloat" where
  "mean_logprob result =
     (let segs = (case res_segments result of None \<Rightarrow> [] | Some ss \<Rightarrow> ss);
          total = foldl fadd (Finite 0)
                    (map (\<lambda>seg. Finite (case avg_logprob seg of None \<Rightarrow> - 1 | Some l \<Rightarrow> l)) segs)
      in fdiv_count total (max (length segs) 1))"

text \<open>\<open>transcribe_options_alt\<close> as built on lines 294 to 296.\<close>

definition alt_options :: "transcribe_options \<Rightarrow> transcribe_options" where
  "alt_options transcribe_options =
     transcribe_options\<lparr>opt_language := None, opt_temperature := Some (1 / 5)\<rparr>"

text \<open>
  Lines 284 to 305: the primary pass and the retry. The first component lists the options
  of every call of the engine, in order; the second is the exception of the call that
  raised, or the result that is kept. The literal \<open>-0.8\<close> is the double nearest to
  \<open>-4/5\<close>.
\<close>

definition transcribe_passes ::
  "engine \<Rightarrow> ustr \<Rightarrow> ustr option \<Rightarrow> ustr
     \<Rightarrow> transcribe_options list \<times> (exn + whisper_result)" where
  "transcribe_passes eng audio_path language task =
     (let transcribe_options = primary_options language task
      in case eng audio_path transcribe_options of
           Inl e \<Rightarrow> ([transcribe_options], Inl e)
         | Inr result \<Rightarrow>
             (let avg = mean_logprob result
              in if flt avg (round_double (- (4 / 5))) \<and> language = Some (asc ''hi'') then
                   (let transcribe_options_alt = alt_options transcribe_options
                    in case eng audio_path transcribe_options_alt of
                         Inl e \<Rightarrow> ([transcribe_options, transcribe_options_alt], Inl e)
                       | Inr result_alt \<Rightarrow>
                           ([transcribe_options, transcribe_options_alt],
                            Inr (if flt avg (mean_logprob result_alt) then result_alt
                                 else result)))
                 else ([transcribe_options], Inr result)))"

text \<open>\<open>not result or 'segments' not in result\<close>\<close>

definition lacks_segments :: "whisper_result \<Rightarrow> bool" where
  "lacks_segments result \<longleftrightarrow>
     (res_segments result = None \<and> res_language result = None \<and> res_text result = None)
     \<or> res_segments result = None"

text \<open>Lines 315 to 328: from the result that is kept to the SRT text.\<close>

definition result_to_srt :: "unicode_tables \<Rightarrow> whisper_result \<Rightarrow> ustr option \<Rightarrow> exn + ustr" where
  "result_to_srt ut result language =
     (if lacks_segments result
      then Inl (ValueError (asc ''Invalid transcription result - no segments found''))
      else
        (let processed_result = post_process_hindi_hinglish ut result language;
             srt_content = convert_to_srt ut processed_result
         in if py_strip srt_content = []
            then Inl (ValueError (asc ''Generated SRT content is empty''))
            else Inr srt_content))"

text \<open>The body of the \<open>try\<close> of \<open>transcribe_audio_local\<close>.\<close>

definition transcribe_body ::
  "unicode_tables \<Rightarrow> fs \<Rightarrow> engine \<Rightarrow> ustr \<Rightarrow> ustr option \<Rightarrow> ustr \<Rightarrow> bool
     \<Rightarrow> transcribe_options list \<times> (exn + ustr)" where
  "transcribe_body ut files eng audio_path language0 task auto_detect_language =
     (if \<not> path_exists files audio_path
      then ([], Inl (FileNotFoundError (asc ''Audio file not found: '' @ audio_path)))
      else
        (case resolve_language ut eng audio_path language0 auto_detect_language of
           (calls0, Inl e) \<Rightarrow> (calls0, Inl e)
         | (calls0, Inr language) \<Rightarrow>
             (case transcribe_passes eng audio_path language task of
                (calls1, Inl e) \<Rightarrow> (calls0 @ calls1, Inl e)
              | (calls1, Inr result) \<Rightarrow> (calls0 @ calls1, result_to_srt ut result language))))"

text \<open>
  \<open>transcribe_audio_local\<close>: the \<open>except Exception\<close> turns every exception of the body
  into the returned message.
\<close>

definition transcribe_audio_local ::
  "unicode_tables \<Rightarrow> fs \<Rightarrow> engine \<Rightarrow> ustr \<Rightarrow> ustr option \<Rightarrow> ustr \<Rightarrow> bool
     \<Rightarrow> transcribe_options list \<times> ustr" where
  "transcribe_audio_local ut files eng audio_path language task auto_detect_language =
     (case transcribe_body ut files eng audio_path language task auto_detect_language of
        (calls, Inl e) \<Rightarrow> (calls, asc ''Error transcribing audio: '' @ str_exn e)
      | (calls, Inr srt_content) \<Rightarrow> (calls, srt_content))"

section \<open>VideoProcessor\<close>

text \<open>
  The collaborators of the pipeline. \<open>run_ffmpeg cmd cwd files\<close> stands for
  \<open>subprocess.run(cmd, cwd=cwd, timeout=...)\<close>: it raises (\<open>TimeoutExpired\<close> or another
  exception) or returns the exit status with the captured error output, and it writes
  files. \<open>ffmpeg_available\<close> is the outcome of the version probe of \<open>_check_ffmpeg\<close>.
  \<open>open_for_write path\<close> is the exception, if any, of creating the file \<open>path\<close>.
  \<open>ass_document\<close> is the text that \<open>create_styled_ass_file\<close> assembles from the font
  settings and the SRT text (lines 613 to 648); \<open>clock\<close> is \<open>int(time.time())\<close>.
\<close>

record font_settings =
  font_family :: ustr
  font_size :: int
  font_color :: ustr
  font_outline_color :: ustr
  font_bold :: bool
  font_italic :: bool
  font_shadow :: bool

definition FontSettings :: font_settings where
  "FontSettings =
     \<lparr>font_family = asc ''Arial'', font_size = 24, font_color = asc ''white'',
      font_outline_color = asc ''black'', font_bold = False, font_italic = False,
      font_shadow = True\<rparr>"

record world =
  tables :: unicode_tables
  ffmpeg_available :: bool
  moviepy_available :: bool
  run_ffmpeg :: "ustr list \<Rightarrow> ustr option \<Rightarrow> fs \<Rightarrow> (exn + int \<times> ustr) \<times> (ustr \<times> ustr) list"
  moviepy_write_audio :: "ustr \<Rightarrow> ustr \<Rightarrow> fs \<Rightarrow> exn option \<times> (ustr \<times> ustr) list"
  open_for_write :: "ustr \<Rightarrow> exn option"
  mkdir :: "ustr \<Rightarrow> fs \<Rightarrow> exn option"
  load_model :: "ustr \<Rightarrow> exn + engine"
  ass_document :: "font_settings \<Rightarrow> ustr \<Rightarrow> ustr"
  clock :: nat

definition apply_writes :: "fs \<Rightarrow> (ustr \<times> ustr) list \<Rightarrow> fs" where
  "apply_writes files writes = foldl (\<lambda>f (path, content). f(path \<mapsto> content)) files writes"

text \<open>\<open>os.remove(path)\<close> inside \<open>try: ... except: pass\<close>, or guarded by \<open>os.path.exists\<close>.\<close>

definition remove_file :: "fs \<Rightarrow> ustr \<Rightarrow> fs" where
  "remove_file files path = files(path := None)"

text \<open>\<open>os.path.dirname\<close> and \<open>os.path.join\<close> (POSIX).\<close>

definition rfind :: "nat \<Rightarrow> ustr \<Rightarrow> nat option" where
  "rfind c s = (if c \<in> set s then Some (length s - 1 - length (takeWhile (\<lambda>x. x \<noteq> c) (rev s))) else None)"

definition dirname :: "ustr \<Rightarrow> ustr" where
  "dirname path =
     (let head = (case rfind 47 path of None \<Rightarrow> [] | Some i \<Rightarrow> take (i + 1) path)
      in if head \<noteq> [] \<and> \<not> list_all (\<lambda>c. c = 47) head
         then rev (dropWhile (\<lambda>c. c = 47) (rev head))
         else head)"

definition path_join :: "ustr \<Rightarrow> ustr \<Rightarrow> ustr" where
  "path_join a b =
     (if startswith b [47] then b
      else if a = [] \<or> last a = 47 then a @ b
      else a @ [47] @ b)"

text \<open>
  \<open>pathlib\<close> (POSIX). \<open>Path(path)\<close> keeps a root, which is \<open>//\<close> when the path starts with
  exactly two slashes and \<open>/\<close> when it starts with any other number of them, and the
  components between the slashes that are neither empty nor \<open>.\<close>; \<open>str\<close> writes them back,
  and writes \<open>.\<close> when there is nothing to write.
\<close>

definition path_root :: "ustr \<Rightarrow> ustr" where
  "path_root path =
     (let n = length (takeWhile (\<lambda>c. c = 47) path)
      in if n = 0 then [] else if n = 2 then [47, 47] else [47])"

definition path_parts :: "ustr \<Rightarrow> ustr list" where
  "path_parts path = filter (\<lambda>x. x \<noteq> [] \<and> x \<noteq> [46]) (split_on 47 path)"

definition path_format :: "ustr \<Rightarrow> ustr list \<Rightarrow> ustr" where
  "path_format rt parts = (if rt = [] \<and> parts = [] then [46] else rt @ join [47] parts)"

text \<open>\<open>str(Path(path))\<close>, \<open>str(Path(a) / b)\<close> and \<open>Path(path).stem\<close>\<close>

definition path_str :: "ustr \<Rightarrow> ustr" where
  "path_str path = path_format (path_root path) (path_parts path)"

definition pathlib_join :: "ustr \<Rightarrow> ustr \<Rightarrow> ustr" where
  "pathlib_join a b =
     (if path_root b \<noteq> [] then path_str b
      else path_format (path_root a) (path_parts a @ path_parts b))"

definition path_stem :: "ustr \<Rightarrow> ustr" where
  "path_stem path =
     (let name = (if path_parts path = [] then [] else last (path_parts path))
      in case rfind 46 name of
           None \<Rightarrow> name
         | Some i \<Rightarrow> if 0 < i \<and> i < length name - 1 then take i name else name)"

definition extract_audio :: "world \<Rightarrow> fs \<Rightarrow> ustr \<Rightarrow> ustr \<Rightarrow> bool \<times> fs" where
  "extract_audio w files video_path audio_path =
     (let cmd = [asc ''ffmpeg'', asc ''-i'', video_path, asc ''-vn'', asc ''-acodec'',
                 asc ''pcm_s16le'', asc ''-ar'', asc ''16000'', asc ''-ac'', asc ''1'',
                 asc ''-y'', audio_path];
          (done1, files1) =
            (if ffmpeg_available w then
               (case run_ffmpeg w cmd None files of
                  (Inr (returncode, stderr), writes) \<Rightarrow> (returncode = 0, apply_writes files writes)
                | (Inl e, writes) \<Rightarrow> (False, apply_writes files writes))
             else (False, files))
      in if done1 then (True, files1)
         else if moviepy_available w then
           (case moviepy_write_audio w video_path audio_path files1 of
              (None, writes) \<Rightarrow> (True, apply_writes files1 writes)
            | (Some e, writes) \<Rightarrow> (False, apply_writes files1 writes))
         else (False, files1))"

text \<open>\<open>s.isdigit()\<close>\<close>

definition isdigit :: "unicode_tables \<Rightarrow> ustr \<Rightarrow> bool" where
  "isdigit ut s \<longleftrightarrow> s \<noteq> [] \<and> list_all (is_digit ut) s"

text \<open>The checks of \<open>validate_srt_file\<close> on the text read from the file.\<close>

definition validate_srt_content :: "unicode_tables \<Rightarrow> ustr \<Rightarrow> bool \<times> ustr" where
  "validate_srt_content ut raw =
     (let content = py_strip raw
      in if content = [] then (False, asc ''SRT file is empty'')
         else
           (let lines = split_on 10 content
            in if length lines < 3 then (False, asc ''SRT file too short'')
               else if \<not> isdigit ut (py_strip (hd lines))
               then (False, asc ''SRT file doesn't start with sequence number'')
               else if \<not> list_ex (contains (asc ''-->'')) (take 10 lines)
               then (False, asc ''No timestamp found in SRT file'')
               else (True, asc ''SRT file is valid'')))"

definition validate_srt_file :: "unicode_tables \<Rightarrow> fs \<Rightarrow> ustr \<Rightarrow> bool \<times> ustr" where
  "validate_srt_file ut files srt_path =
     (case files srt_path of
        None \<Rightarrow> (False, asc ''SRT file does not exist'')
      | Some raw \<Rightarrow> validate_srt_content ut raw)"

definition normalize_path :: "ustr \<Rightarrow> ustr" where
  "normalize_path path = py_replace [58] [92, 58] (py_replace [92] [47] path)"

definition create_styled_ass_file ::
  "world \<Rightarrow> fs \<Rightarrow> ustr \<Rightarrow> ustr \<Rightarrow> font_settings \<Rightarrow> bool \<times> fs" where
  "create_styled_ass_file w files srt_path ass_path fnt =
     (case files srt_path of
        None \<Rightarrow> (False, files)
      | Some srt_content \<Rightarrow>
          (case open_for_write w ass_path of
             Some e \<Rightarrow> (False, files)
           | None \<Rightarrow> (True, files(ass_path \<mapsto> ass_document w fnt srt_content))))"

text \<open>The command line of a burn-in attempt with the video filter \<open>vf\<close>.\<close>

definition burn_cmd :: "ustr \<Rightarrow> ustr \<Rightarrow> ustr \<Rightarrow> ustr list" where
  "burn_cmd video_path vf output_path =
     [asc ''ffmpeg'', asc ''-i'', video_path, asc ''-vf'', vf, asc ''-c:a'', asc ''copy'',
      asc ''-c:v'', asc ''libx264'', asc ''-preset'', asc ''fast'', asc ''-y'', output_path]"

text \<open>
  The four methods of \<open>burn_subtitles_to_video\<close>, in the order of the source. Each returns
  \<open>True\<close> when the function returns \<open>True\<close> there, and \<open>False\<close> when control reaches the
  next method. In the third, \<open>shutil.copy2\<close> raises when the source is missing, when it
  is the destination itself, or when the destination cannot be created.
\<close>

definition burn_method1 ::
  "world \<Rightarrow> fs \<Rightarrow> ustr \<Rightarrow> ustr \<Rightarrow> ustr \<Rightarrow> font_settings option \<Rightarrow> bool \<times> fs" where
  "burn_method1 w files video_path srt_path output_path fnt =
     (let ass_path = py_replace (asc ''.srt'') (asc ''.ass'') srt_path
      in case create_styled_ass_file w files srt_path ass_path
                (case fnt of None \<Rightarrow> FontSettings | Some f \<Rightarrow> f) of
           (False, files1) \<Rightarrow> (False, files1)
         | (True, files1) \<Rightarrow>
             (let normalized_ass = normalize_path ass_path;
                  cmd = burn_cmd video_path (asc ''ass='' @ normalized_ass) output_path
              in case run_ffmpeg w cmd None files1 of
                   (Inl e, writes) \<Rightarrow> (False, apply_writes files1 writes)
                 | (Inr (returncode, stderr), writes) \<Rightarrow>
                     if returncode = 0
                     then (True, remove_file (apply_writes files1 writes) ass_path)
                     else (False, apply_writes files1 writes)))"

definition burn_method2 :: "world \<Rightarrow> fs \<Rightarrow> ustr \<Rightarrow> ustr \<Rightarrow> ustr \<Rightarrow> bool \<times> fs" where
  "burn_method2 w files video_path srt_path output_path =
     (let normalized_srt = normalize_path srt_path;
          cmd = burn_cmd video_path (asc ''subtitles='' @ normalized_srt) output_path
      in case run_ffmpeg w cmd None files of
           (Inl e, writes) \<Rightarrow> (False, apply_writes files writes)
         | (Inr (returncode, stderr), writes) \<Rightarrow> (returncode = 0, apply_writes files writes))"

definition burn_method3 :: "world \<Rightarrow> fs \<Rightarrow> ustr \<Rightarrow> ustr \<Rightarrow> ustr \<Rightarrow> bool \<times> fs" where
  "burn_method3 w files video_path srt_path output_path =
     (let video_dir = dirname video_path;
          temp_srt = path_join video_dir (asc ''temp_subtitles.srt'')
      in case (if srt_path = temp_srt then None else files srt_path) of
           None \<Rightarrow> (False, files)
         | Some srt_content \<Rightarrow>
             (case open_for_write w temp_srt of
                Some e \<Rightarrow> (False, files)
              | None \<Rightarrow>
                  (let files1 = files(temp_srt \<mapsto> srt_content);
                       cmd = burn_cmd video_path (asc ''subtitles=temp_subtitles.srt'') output_path
                   in case run_ffmpeg w cmd (Some video_dir) files1 of
                        (Inl e, writes) \<Rightarrow> (False, apply_writes files1 writes)
                      | (Inr (returncode, stderr), writes) \<Rightarrow>
                          (returncode = 0, remove_file (apply_writes files1 writes) temp_srt))))"

definition burn_method4 :: "world \<Rightarrow> fs \<Rightarrow> ustr \<Rightarrow> ustr \<Rightarrow> ustr \<Rightarrow> bool \<times> fs" where
  "burn_method4 w files video_path srt_path output_path =
     (let cmd = burn_cmd video_path (asc ''ass='' @ srt_path) output_path
      in case run_ffmpeg w cmd None files of
           (Inl e, writes) \<Rightarrow> (False, apply_writes files writes)
         | (Inr (returncode, stderr), writes) \<Rightarrow> (returncode = 0, apply_writes files writes))"

definition burn_subtitles_to_video ::
  "world \<Rightarrow> fs \<Rightarrow> ustr \<Rightarrow> ustr \<Rightarrow> ustr \<Rightarrow> font_settings option \<Rightarrow> bool \<times> fs" where
  "burn_subtitles_to_video w files video_path srt_path output_path fnt =
     (if \<not> ffmpeg_available w then (False, files)
      else if \<not> fst (validate_srt_file (tables w) files srt_path) then (False, files)
      else
        (case burn_method1 w files video_path srt_path output_path fnt of
           (True, files1) \<Rightarrow> (True, files1)
         | (False, files1) \<Rightarrow>
        (case burn_method2 w files1 video_path srt_path output_path of
           (True, files2) \<Rightarrow> (True, files2)
         | (False, files2) \<Rightarrow>
        (case burn_method3 w files2 video_path srt_path output_path of
           (True, files3) \<Rightarrow> (True, files3)
         | (False, files3) \<Rightarrow>
        burn_method4 w files3 video_path srt_path output_path))))"

definition create_video_with_subtitles ::
  "world \<Rightarrow> fs \<Rightarrow> ustr \<Rightarrow> ustr \<Rightarrow> ustr \<Rightarrow> font_settings option
     \<Rightarrow> (ustr option \<times> ustr) \<times> fs" where
  "create_video_with_subtitles w files video_path srt_path output_dir fnt =
     (let video_name = path_stem video_path;
          output_filename = video_name @ asc ''_with_subtitles_'' @ str_nat (clock w) @ asc ''.mp4'';
          output_path = pathlib_join output_dir output_filename;
          (success, files1) = burn_subtitles_to_video w files video_path srt_path output_path fnt
      in if success \<and> path_exists files1 output_path
         then ((Some output_path, asc ''Video with subtitles created successfully''), files1)
         else ((None, asc ''Failed to create video with subtitles - check FFmpeg installation and file permissions''),
               files1))"

section \<open>The pipeline\<close>

text \<open>
  \<open>process_video_with_captions\<close> returns the triple (SRT path, video path, message), or
  raises what \<open>mkdir\<close> raises: the directory is created before the \<open>try\<close>. The calls of
  \<open>progress_callback\<close> only report and are left out of the functions of \<open>script.py\<close>.
\<close>

definition process_video_with_captions ::
  "world \<Rightarrow> fs \<Rightarrow> ustr \<Rightarrow> ustr \<Rightarrow> ustr \<Rightarrow> font_settings option \<Rightarrow> bool \<Rightarrow> ustr option \<Rightarrow> bool
     \<Rightarrow> (exn + ustr option \<times> ustr option \<times> ustr) \<times> fs" where
  "process_video_with_captions w files video_path output_dir model_name fnt create_video
       language auto_detect_language =
     (case mkdir w output_dir files of
        Some e \<Rightarrow> (Inl e, files)
      | None \<Rightarrow>
          if \<not> path_exists files video_path
          then (Inr (None, None, asc ''Video file not found: '' @ video_path), files)
          else
            (case load_model w model_name of
               Inl e \<Rightarrow> (Inr (None, None, asc ''Error during processing: '' @ str_exn e), files)
             | Inr eng \<Rightarrow>
                 (let font_settings = (case fnt of None \<Rightarrow> FontSettings | Some f \<Rightarrow> f);
                      audio_path = pathlib_join output_dir (asc ''extracted_audio.wav'')
                  in case extract_audio w files video_path audio_path of
                       (False, files1) \<Rightarrow>
                         (Inr (None, None, asc ''Failed to extract audio from video''), files1)
                     | (True, files1) \<Rightarrow>
                         (let srt_content =
                                snd (transcribe_audio_local (tables w) files1 eng audio_path
                                       language (asc ''transcribe'') auto_detect_language)
                          in if startswith srt_content (asc ''Error'')
                             then (Inr (None, None, srt_content), files1)
                             else
                               (let srt_path = pathlib_join output_dir (asc ''captions.srt'')
                                in case open_for_write w srt_path of
                                     Some e \<Rightarrow>
                                       (Inr (None, None,
                                             asc ''Error during processing: '' @ str_exn e), files1)
                                   | None \<Rightarrow>
                                       (let files2 = files1(srt_path \<mapsto> srt_content)
                                        in if create_video then
                                             (case create_video_with_subtitles w files2 video_path
                                                     srt_path (path_str output_dir)
                                                     (Some font_settings) of
                                                ((video_with_subs_path, video_message), files3) \<Rightarrow>
                                                  (Inr (Some srt_path, video_with_subs_path,
                                                        asc ''Success''), files3))
                                           else (Inr (Some srt_path, None, asc ''Success''),
                                                 files2)))))))"

section \<open>The server\<close>

text \<open>
  An entry of \<open>processing_jobs\<close>. The field \<open>j_k\<close> is the key \<open>k\<close> of the dictionary.
  The five keys that every update writes are always there; for the others \<open>None\<close> stands
  for a missing key or the value \<open>None\<close>, which every reader treats alike.
\<close>

record job =
  j_progress :: int
  j_current_step :: ustr
  j_message :: ustr
  j_completed :: bool
  j_error :: "ustr option"
  j_srt_content :: "ustr option"
  j_srt_path :: "ustr option"
  j_video_with_subs_path :: "ustr option"
  j_output_dir :: "ustr option"

type_synonym jobs = "ustr \<rightharpoonup> job"

record tracker =
  t_job_id :: ustr
  t_progress :: int
  t_current_step :: ustr
  t_message :: ustr
  t_completed :: bool
  t_error :: "ustr option"

definition ProgressTracker :: "ustr \<Rightarrow> tracker" where
  "ProgressTracker job_id =
     \<lparr>t_job_id = job_id, t_progress = 0, t_current_step = [], t_message = [],
      t_completed = False, t_error = None\<rparr>"

text \<open>\<open>ProgressTracker.update\<close>\<close>

definition update :: "tracker \<Rightarrow> jobs \<Rightarrow> ustr \<Rightarrow> ustr \<Rightarrow> int option \<Rightarrow> tracker \<times> jobs" where
  "update self processing_jobs step msg prog =
     (let self1 = self\<lparr>t_current_step := step, t_message := msg,
                       t_progress := (case prog of None \<Rightarrow> t_progress self | Some p \<Rightarrow> p)\<rparr>
      in (self1,
          processing_jobs(t_job_id self1 \<mapsto>
            (case processing_jobs (t_job_id self1) of
               None \<Rightarrow>
                 \<lparr>j_progress = t_progress self1, j_current_step = t_current_step self1,
                  j_message = t_message self1, j_completed = t_completed self1,
                  j_error = t_error self1, j_srt_content = None, j_srt_path = None,
                  j_video_with_subs_path = None, j_output_dir = None\<rparr>
             | Some j \<Rightarrow>
                 j\<lparr>j_progress := t_progress self1, j_current_step := t_current_step self1,
                   j_message := t_message self1, j_completed := t_completed self1,
                   j_error := t_error self1\<rparr>))))"

text \<open>
  The \<open>progress_callback\<close> of \<open>process_video_background\<close>: the step and the percentage are
  read off the pictographs and words of the message.
\<close>

definition progress_callback :: "tracker \<times> jobs \<Rightarrow> ustr \<Rightarrow> tracker \<times> jobs" where
  "progress_callback st msg =
     (let (step, prog) =
            (if contains [127925] msg then (asc ''Extracting Audio'', Some 25)
             else if contains [128269] msg \<or> contains [127760] msg
             then (asc ''Language Detection'', Some 35)
             else if contains [127908] msg then
               (if contains (asc ''Starting transcription'') msg
                then (asc ''Transcribing Audio'', Some 45)
                else if contains (asc ''completed'') msg
                then (asc ''Transcription Complete'', Some 75)
                else (asc ''Processing'', None))
             else if contains [128293] msg then (asc ''Burning Subtitles'', Some 85)
             else if contains [9989] msg then (asc ''Complete'', Some 100)
             else (asc ''Processing'', None))
      in update (fst st) (snd st) step msg prog)"

text \<open>The \<open>except\<close> branch of \<open>process_video_background\<close>.\<close>

definition background_failed :: "tracker \<Rightarrow> jobs \<Rightarrow> ustr \<Rightarrow> exn \<Rightarrow> exn + jobs" where
  "background_failed tr processing_jobs job_id e =
     (let tr1 = tr\<lparr>t_error := Some (str_exn e)\<rparr>
      in case processing_jobs job_id of
           None \<Rightarrow> Inl (KeyError job_id)
         | Some j \<Rightarrow>
             (let jobs1 = processing_jobs(job_id \<mapsto> j\<lparr>j_error := Some (str_exn e), j_completed := True\<rparr>)
              in Inr (snd (update tr1 jobs1 (asc ''Error'')
                             (asc ''Processing failed: '' @ str_exn e) None))))"

text \<open>
  \<open>process_video_background\<close>: \<open>msgs\<close> are the messages that the run of the pipeline
  passes to \<open>progress_callback\<close>, in order. The result is the table of jobs when the thread
  ends, or the exception that ends it.
\<close>

definition process_video_background ::
  "world \<Rightarrow> fs \<Rightarrow> ustr list \<Rightarrow> jobs \<Rightarrow> ustr \<Rightarrow> ustr \<Rightarrow> ustr \<Rightarrow> ustr \<Rightarrow> ustr \<Rightarrow> bool
     \<Rightarrow> font_settings option \<Rightarrow> exn + jobs" where
  "process_video_background w files msgs processing_jobs job_id video_path output_dir
       model_name language create_video fnt =
     (let (tr0, jobs0) = update (ProgressTracker job_id) processing_jobs (asc ''Initializing'')
                           (asc ''Starting video processing'') (Some 0);
          (tr1, jobs1) = foldl progress_callback (tr0, jobs0) msgs
      in case process_video_with_captions w files video_path output_dir model_name fnt
                create_video (if language \<noteq> asc ''auto'' then Some language else None)
                (language = asc ''auto'') of
           (Inl e, files1) \<Rightarrow> background_failed tr1 jobs1 job_id e
         | (Inr (path, video_path_with_subs, msg), files1) \<Rightarrow>
             if truthy path then
               (case files1 (the path) of
                  None \<Rightarrow> background_failed tr1 jobs1 job_id
                            (FileNotFoundError (asc ''No such file or directory: '' @ the path))
                | Some content \<Rightarrow>
                    (let tr2 = tr1\<lparr>t_completed := True, t_progress := 100\<rparr>
                     in case jobs1 job_id of
                          None \<Rightarrow> background_failed tr2 jobs1 job_id (KeyError job_id)
                        | Some j \<Rightarrow>
                            (let jobs2 = jobs1(job_id \<mapsto>
                                   j\<lparr>j_completed := True, j_srt_content := Some content,
                                     j_srt_path := path,
                                     j_video_with_subs_path := video_path_with_subs,
                                     j_output_dir := Some output_dir, j_message := msg\<rparr>)
                             in Inr (snd (update tr2 jobs2 (asc ''Completed'')
                                      (asc ''Video processing completed successfully!'')
                                      (Some 100))))))
             else background_failed tr1 jobs1 job_id
                    (Exception (if msg \<noteq> [] then msg else asc ''Processing failed'')))"

text \<open>The JSON bodies that \<open>get_job_status\<close> returns.\<close>

datatype response =
    JobNotFound
  | Complete (srtContent: ustr) (srtPath: "ustr option") (outputDir: "ustr option")
      (r_message: ustr) (videoCreated: bool) (videoWithSubtitles: "ustr option")
  | Progress (r_type: ustr) (r_progress: int) (r_current_step: ustr) (p_message: ustr)
      (r_completed: bool) (r_error: "ustr option")

definition get_job_status :: "jobs \<Rightarrow> ustr \<Rightarrow> response" where
  "get_job_status processing_jobs job_id =
     (case processing_jobs job_id of
        None \<Rightarrow> JobNotFound
      | Some job_data \<Rightarrow>
          if j_completed job_data \<and> \<not> truthy (j_error job_data) then
            Complete (case j_srt_content job_data of None \<Rightarrow> [] | Some c \<Rightarrow> c)
              (j_srt_path job_data) (j_output_dir job_data) (j_message job_data)
              (j_video_with_subs_path job_data \<noteq> None) (j_video_with_subs_path job_data)
          else
            Progress (if \<not> truthy (j_error job_data) then asc ''progress'' else asc ''error'')
              (j_progress job_data) (j_current_step job_data) (j_message job_data)
              (j_completed job_data) (j_error job_data))"

section \<open>Sample inputs\<close>

text \<open>
  Concrete collaborators on which the model is run. \<open>ascii_tables\<close> knows no upper case,
  digit or letter beyond ASCII and lowers the ASCII capitals. \<open>sample_engine\<close> hears one
  English sentence. In \<open>sample_world\<close> the transcoder extracts audio and fails every
  burn-in; in \<open>no_tools_world\<close> there is no transcoder and no MoviePy.
\<close>

definition ascii_tables :: unicode_tables where
  "ascii_tables =
     \<lparr>ext_upper = (\<lambda>c. [c]), ext_alnum = (\<lambda>c. False), ext_decimal = (\<lambda>c. False),
      ext_digit = (\<lambda>c. False),
      str_lower = map (\<lambda>c. if 65 \<le> c \<and> c \<le> 90 then c + 32 else c)\<rparr>"

definition sample_engine :: engine where
  "sample_engine audio_path options =
     Inr \<lparr>res_segments = Some [\<lparr>seg_text = Some (asc '' hello world.  how are you''),
                                seg_start = Some 0, seg_end = Some (5 / 2),
                                avg_logprob = Some (- (1 / 4))\<rparr>],
          res_language = Some (asc ''en''), res_text = Some (asc ''hello world'')\<rparr>"

definition sample_world :: world where
  "sample_world =
     \<lparr>tables = ascii_tables, ffmpeg_available = True, moviepy_available = False,
      run_ffmpeg = (\<lambda>cmd cwd files.
         if asc ''-vf'' \<in> set cmd then (Inr (1, asc ''filter failed''), [])
         else (Inr (0, []), [(last cmd, asc ''RIFF'')])),
      moviepy_write_audio = (\<lambda>video audio files. (Some (Exception (asc ''unavailable'')), [])),
      open_for_write = (\<lambda>path. None),
      mkdir = (\<lambda>path files. None),
      load_model = (\<lambda>name. Inr sample_engine),
      ass_document = (\<lambda>fnt srt. asc ''[Script Info]''),
      clock = 1700000000\<rparr>"

definition no_tools_world :: world where
  "no_tools_world = sample_world\<lparr>ffmpeg_available := False\<rparr>"

section \<open>The language classifier\<close>

lemma distinct_HINDI_INDICATORS: "distinct HINDI_INDICATORS"
  by (simp add: HINDI_INDICATORS_def)

lemma hindi_word_matches_card:
  "hindi_word_matches sample
     = card {w \<in> set HINDI_INDICATORS.
               contains w sample \<or> contains (romanize_hindi_word w) sample}"
proof -
  let ?P = "\<lambda>w. contains w sample \<or> contains (romanize_hindi_word w) sample"
  have "hindi_word_matches sample = length (filter ?P HINDI_INDICATORS)"
    by (simp add: hindi_word_matches_def indicator_matches_def [abs_def])
  also have "\<dots> = card (set (filter ?P HINDI_INDICATORS))"
    by (rule distinct_card [symmetric]) (simp add: distinct_HINDI_INDICATORS)
  finally show ?thesis by simp
qed

lemma devanagari_fraction:
  "((of_nat (length sample) :: rat) * (3 / 10) < of_nat (count_devanagari sample))
     \<longleftrightarrow> 3 * length sample < 10 * count_devanagari sample"
proof -
  have "((of_nat (length sample) :: rat) * (3 / 10) < of_nat (count_devanagari sample))
      \<longleftrightarrow> (of_nat (3 * length sample) :: rat) < of_nat (10 * count_devanagari sample)"
    by (simp add: field_simps)
  also have "\<dots> \<longleftrightarrow> 3 * length sample < 10 * count_devanagari sample"
    by (rule of_nat_less_iff)
  finally show ?thesis .
qed

lemma decide_language_type_cases:
  "decide_language_type tag sample =
     (if tag = asc ''hi'' \<or> 10 < count_devanagari sample
      then (if 3 * length sample < 10 * count_devanagari sample
            then asc ''hindi'' else asc ''hinglish'')
      else if 3 < hindi_word_matches sample
              \<or> contains (asc ''hai'') sample \<or> contains (asc ''kar'') sample
              \<or> contains (asc ''kya'') sample \<or> contains (asc ''kaise'') sample
              \<or> contains (asc ''acha'') sample \<or> contains (asc ''bura'') sample
      then asc ''hinglish'' else asc ''english'')"
  unfolding decide_language_type_def Let_def devanagari_fraction
  by simp

text \<open>
  C2. On the language tag of the engine and the sample text (lower-cased), with the rules
  tried in this order: the answer is \<open>hindi\<close> when the tag is \<open>hi\<close> or more than 10
  characters are Devanagari, and the Devanagari characters are more than 30 percent of the
  sample; \<open>hinglish\<close> when the first condition holds and the second does not; otherwise
  \<open>hinglish\<close> when more than 3 indicator words occur, as written or romanized, or one of
  the six tokens occurs; \<open>english\<close> in every other case. The count of indicator words is
  the number of distinct words of the lexicon that occur.
\<close>

theorem detect_language_type_rules:
  "((tag = asc ''hi'' \<or> 10 < count_devanagari sample)
      \<and> 3 * length sample < 10 * count_devanagari sample
      \<longrightarrow> decide_language_type tag sample = asc ''hindi'')
   \<and> ((tag = asc ''hi'' \<or> 10 < count_devanagari sample)
      \<and> \<not> 3 * length sample < 10 * count_devanagari sample
      \<longrightarrow> decide_language_type tag sample = asc ''hinglish'')
   \<and> (\<not> (tag = asc ''hi'' \<or> 10 < count_devanagari sample)
      \<and> (3 < hindi_word_matches sample
          \<or> contains (asc ''hai'') sample \<or> contains (asc ''kar'') sample
          \<or> contains (asc ''kya'') sample \<or> contains (asc ''kaise'') sample
          \<or> contains (asc ''acha'') sample \<or> contains (asc ''bura'') sample)
      \<longrightarrow> decide_language_type tag sample = asc ''hinglish'')
   \<and> (\<not> (tag = asc ''hi'' \<or> 10 < count_devanagari sample)
      \<and> \<not> (3 < hindi_word_matches sample
          \<or> contains (asc ''hai'') sample \<or> contains (asc ''kar'') sample
          \<or> contains (asc ''kya'') sample \<or> contains (asc ''kaise'') sample
          \<or> contains (asc ''acha'') sample \<or> contains (asc ''bura'') sample)
      \<longrightarrow> decide_language_type tag sample = asc ''english'')
   \<and> hindi_word_matches sample
       = card {w \<in> set HINDI_INDICATORS.
                 contains w sample \<or> contains (romanize_hindi_word w) sample}
   \<and> (eng audio_path quick_options = Inr r
      \<longrightarrow> detect_language_type ut eng audio_path
          = decide_language_type (case res_language r of None \<Rightarrow> asc ''en'' | Some l \<Rightarrow> l)
              (str_lower ut (case res_text r of None \<Rightarrow> [] | Some t \<Rightarrow> t)))"
proof -
  have "hindi_word_matches sample
       = card {w \<in> set HINDI_INDICATORS.
                 contains w sample \<or> contains (romanize_hindi_word w) sample}"
    by (rule hindi_word_matches_card)
  moreover have "eng audio_path quick_options = Inr r
      \<longrightarrow> detect_language_type ut eng audio_path
          = decide_language_type (case res_language r of None \<Rightarrow> asc ''en'' | Some l \<Rightarrow> l)
              (str_lower ut (case res_text r of None \<Rightarrow> [] | Some t \<Rightarrow> t))"
    by (simp add: detect_language_type_def)
  ultimately show ?thesis
    by (simp add: decide_language_type_cases)
qed

text \<open>
  The three samples of the specification: tagged Hindi with 4 Devanagari characters out of
  10; tagged English with 1 Devanagari character out of 20 and 5 indicator words; tagged
  English with no indicator.
\<close>

definition tagged_engine :: "ustr \<Rightarrow> ustr \<Rightarrow> engine" where
  "tagged_engine tag txt audio_path options =
     Inr \<lparr>res_segments = None, res_language = Some tag, res_text = Some txt\<rparr>"

theorem detect_language_type_rules_witness:
  "detect_language_type ascii_tables
     (tagged_engine (asc ''hi'') ([2361, 2376, 2325, 2352] @ asc '' IS OK'')) (asc ''a.wav'')
     = asc ''hindi''
   \<and> detect_language_type ascii_tables
     (tagged_engine (asc ''en'') (asc ''Ye hai aur kya kar '' @ [2309])) (asc ''a.wav'')
     = asc ''hinglish''
   \<and> detect_language_type ascii_tables
     (tagged_engine (asc ''en'') (asc ''Hello world'')) (asc ''a.wav'')
     = asc ''english''"
proof -
  let ?s1 = "[2361, 2376, 2325, 2352] @ asc '' is ok''"
  let ?s2 = "asc ''ye hai aur kya kar '' @ [2309]"
  let ?s3 = "asc ''hello world''"
  have l1: "str_lower ascii_tables ([2361, 2376, 2325, 2352] @ asc '' IS OK'') = ?s1"
    and l2: "str_lower ascii_tables (asc ''Ye hai aur kya kar '' @ [2309]) = ?s2"
    and l3: "str_lower ascii_tables (asc ''Hello world'') = ?s3"
    by (simp_all add: ascii_tables_def asc_def)
  have h1: "(asc ''hi'' = asc ''hi'' \<or> 10 < count_devanagari ?s1)
      \<and> 3 * length ?s1 < 10 * count_devanagari ?s1"
    by (simp add: count_devanagari_def is_devanagari_def asc_def)
  have n2: "\<not> (asc ''en'' = asc ''hi'' \<or> 10 < count_devanagari ?s2)"
    by (simp add: count_devanagari_def is_devanagari_def asc_def)
  have m2: "3 < hindi_word_matches ?s2"
    by (simp add: hindi_word_matches_def HINDI_INDICATORS_def indicator_matches_def
        romanize_hindi_word_def romanization_map_def asc_def startswith_def)
  have n3: "\<not> (asc ''en'' = asc ''hi'' \<or> 10 < count_devanagari ?s3)"
    by (simp add: count_devanagari_def is_devanagari_def asc_def)
  have m3: "\<not> 3 < hindi_word_matches ?s3"
    by (simp add: hindi_word_matches_def HINDI_INDICATORS_def indicator_matches_def
        romanize_hindi_word_def romanization_map_def asc_def startswith_def)
  have t3: "\<not> (contains (asc ''hai'') ?s3 \<or> contains (asc ''kar'') ?s3
          \<or> contains (asc ''kya'') ?s3 \<or> contains (asc ''kaise'') ?s3
          \<or> contains (asc ''acha'') ?s3 \<or> contains (asc ''bura'') ?s3)"
    by (simp add: asc_def startswith_def)
  have e1: "decide_language_type (asc ''hi'') ?s1 = asc ''hindi''"
    using detect_language_type_rules [where tag = "asc ''hi''" and sample = ?s1] h1 by blast
  have e2: "decide_language_type (asc ''en'') ?s2 = asc ''hinglish''"
    using detect_language_type_rules [where tag = "asc ''en''" and sample = ?s2] n2 m2 by blast
  have e3: "decide_language_type (asc ''en'') ?s3 = asc ''english''"
    using detect_language_type_rules [where tag = "asc ''en''" and sample = ?s3] n3 m3 t3
    by blast
  show ?thesis
    using e1 e2 e3 l1 l2 l3
    by (simp add: detect_language_type_def tagged_engine_def)
qed

section \<open>The confidence-gated retry\<close>

lemma transcribe_passes_low_hindi:
  assumes "eng audio_path (primary_options (Some (asc ''hi'')) task) = Inr r1"
    and "flt (mean_logprob r1) (round_double (- (4 / 5)))"
  shows "transcribe_passes eng audio_path (Some (asc ''hi'')) task =
           ([primary_options (Some (asc ''hi'')) task,
             alt_options (primary_options (Some (asc ''hi'')) task)],
            (case eng audio_path (alt_options (primary_options (Some (asc ''hi'')) task)) of
               Inl e \<Rightarrow> Inl e
             | Inr r2 \<Rightarrow> Inr (if flt (mean_logprob r1) (mean_logprob r2) then r2 else r1)))"
  using assms by (simp add: transcribe_passes_def Let_def split: sum.splits)

lemma transcribe_passes_no_retry:
  assumes "eng audio_path (primary_options language task) = Inr r"
    and "\<not> (language = Some (asc ''hi'') \<and> flt (mean_logprob r) (round_double (- (4 / 5))))"
  shows "transcribe_passes eng audio_path language task = ([primary_options language task], Inr r)"
  using assms by (auto simp: transcribe_passes_def Let_def)

lemma transcribe_passes_at_most_two:
  "length (fst (transcribe_passes eng audio_path language task)) \<le> 2"
  by (simp add: transcribe_passes_def Let_def split: sum.splits)

lemma transcribe_body_calls:
  assumes "path_exists files audio_path"
    and "resolve_language ut eng audio_path language0 auto_detect = (calls0, Inr language)"
  shows "fst (transcribe_body ut files eng audio_path language0 task auto_detect)
           = calls0 @ fst (transcribe_passes eng audio_path language task)"
  using assms by (simp add: transcribe_body_def split: prod.splits sum.splits)

text \<open>
  C1. With the resolved language \<open>hi\<close> and a primary result whose mean log-probability is
  below \<open>-0.8\<close>, the engine is called exactly once more, with the options of the primary
  pass except that the language is removed and the temperature is \<open>0.2\<close>; the result of
  the second pass is kept exactly when its mean is strictly greater. When the mean is not
  below \<open>-0.8\<close> or the language is not \<open>hi\<close>, the primary pass is the only one. No run
  makes more than two passes, and \<open>transcribe_audio_local\<close> calls the engine for nothing
  else after the language is resolved.
\<close>

theorem confidence_gated_retry:
  "(eng audio_path (primary_options (Some (asc ''hi'')) task) = Inr r1
      \<and> flt (mean_logprob r1) (round_double (- (4 / 5)))
      \<longrightarrow> fst (transcribe_passes eng audio_path (Some (asc ''hi'')) task)
            = [primary_options (Some (asc ''hi'')) task,
               alt_options (primary_options (Some (asc ''hi'')) task)]
          \<and> alt_options (primary_options (Some (asc ''hi'')) task)
            = (primary_options (Some (asc ''hi'')) task)
                \<lparr>opt_language := None, opt_temperature := Some (2 / 10)\<rparr>
          \<and> (eng audio_path (alt_options (primary_options (Some (asc ''hi'')) task)) = Inr r2
              \<longrightarrow> snd (transcribe_passes eng audio_path (Some (asc ''hi'')) task)
                    = Inr (if flt (mean_logprob r1) (mean_logprob r2) then r2 else r1)))
   \<and> (eng audio_path (primary_options language task) = Inr r
      \<and> \<not> (language = Some (asc ''hi'')
               \<and> flt (mean_logprob r) (round_double (- (4 / 5))))
      \<longrightarrow> transcribe_passes eng audio_path language task
            = ([primary_options language task], Inr r))
   \<and> length (fst (transcribe_passes eng audio_path language task)) \<le> 2
   \<and> (path_exists files audio_path
      \<and> resolve_language ut eng audio_path language0 auto_detect = (calls0, Inr language)
      \<longrightarrow> fst (transcribe_audio_local ut files eng audio_path language0 task auto_detect)
            = calls0 @ fst (transcribe_passes eng audio_path language task))"
proof -
  have "fst (transcribe_audio_local ut files eng audio_path language0 task auto_detect)
      = fst (transcribe_body ut files eng audio_path language0 task auto_detect)"
    by (simp add: transcribe_audio_local_def split: prod.splits sum.splits)
  then show ?thesis
    using transcribe_passes_at_most_two [of eng audio_path language task]
    by (auto simp: transcribe_passes_low_hindi transcribe_passes_no_retry transcribe_body_calls
        alt_options_def)
qed

text \<open>
  The example of the specification: the primary pass has mean \<open>-0.9\<close> (from \<open>-1.1\<close> and
  \<open>-0.7\<close>), the pass without the language has mean \<open>-0.5\<close>; the engine is called twice
  and the second result is kept. At the threshold the rounding decides: the floats
  \<open>-1.0, -0.64, -0.72, -1.03, -0.61\<close> add up to \<open>-4.000000000000001\<close>, their mean
  \<open>-0.8000000000000002\<close> is below \<open>-0.8\<close>, and the second pass runs.
\<close>

definition low_result :: whisper_result where
  "low_result =
     \<lparr>res_segments = Some [\<lparr>seg_text = Some (asc ''namaste''), seg_start = Some 0,
                             seg_end = Some 1, avg_logprob = Some (double (- (11 / 10)))\<rparr>,
                           \<lparr>seg_text = Some (asc ''ji''), seg_start = Some 1,
                             seg_end = Some 2, avg_logprob = Some (double (- (7 / 10)))\<rparr>],
      res_language = Some (asc ''hi''), res_text = Some (asc ''namaste ji'')\<rparr>"

definition retry_result :: whisper_result where
  "retry_result =
     \<lparr>res_segments = Some [\<lparr>seg_text = Some (asc ''namaste ji''), seg_start = Some 0,
                             seg_end = Some 2, avg_logprob = Some (- (1 / 2))\<rparr>],
      res_language = Some (asc ''hi''), res_text = Some (asc ''namaste ji'')\<rparr>"

definition threshold_result :: whisper_result where
  "threshold_result =
     \<lparr>res_segments =
        Some (map (\<lambda>l. \<lparr>seg_text = Some (asc ''namaste''), seg_start = Some 0,
                         seg_end = Some 1, avg_logprob = Some (double l)\<rparr>)
                [- 1, - (64 / 100), - (72 / 100), - (103 / 100), - (61 / 100)]),
      res_language = Some (asc ''hi''), res_text = Some (asc ''namaste'')\<rparr>"

definition retry_engine :: "whisper_result \<Rightarrow> engine" where
  "retry_engine primary audio_path options =
     (if opt_language options = None then Inr retry_result else Inr primary)"

theorem confidence_gated_retry_witness:
  "mean_logprob low_result = round_double (- (9 / 10))
   \<and> mean_logprob retry_result = round_double (- (1 / 2))
   \<and> transcribe_passes (retry_engine low_result) (asc ''a.wav'') (Some (asc ''hi''))
       (asc ''transcribe'')
     = ([primary_options (Some (asc ''hi'')) (asc ''transcribe''),
         (primary_options (Some (asc ''hi'')) (asc ''transcribe''))
           \<lparr>opt_language := None, opt_temperature := Some (2 / 10)\<rparr>],
        Inr retry_result)
   \<and> mean_logprob threshold_result = Finite (- (7205759403792795 / 9007199254740992))
   \<and> round_double (- (4 / 5)) = Finite (- (7205759403792794 / 9007199254740992))
   \<and> transcribe_passes (retry_engine threshold_result) (asc ''a.wav'') (Some (asc ''hi''))
       (asc ''transcribe'')
     = ([primary_options (Some (asc ''hi'')) (asc ''transcribe''),
         (primary_options (Some (asc ''hi'')) (asc ''transcribe''))
           \<lparr>opt_language := None, opt_temperature := Some (2 / 10)\<rparr>],
        Inr retry_result)"
proof -
  let ?primary = "primary_options (Some (asc ''hi'')) (asc ''transcribe'')"
  have m1: "mean_logprob low_result = Finite (- (8106479329266893 / 9007199254740992))"
    by (simp add: mean_logprob_def low_result_def float_eval)
  have m2: "mean_logprob retry_result = Finite (- (1 / 2))"
    by (simp add: mean_logprob_def retry_result_def float_eval)
  have m3: "mean_logprob threshold_result = Finite (- (7205759403792795 / 9007199254740992))"
    by (simp add: mean_logprob_def threshold_result_def float_eval)
  have l1: "round_double (- (9 / 10)) = Finite (- (8106479329266893 / 9007199254740992))"
    and l2: "round_double (- (1 / 2)) = Finite (- (1 / 2))"
    and l3: "round_double (- (4 / 5)) = Finite (- (7205759403792794 / 9007199254740992))"
    by (simp_all add: float_eval)
  have p: "retry_engine r (asc ''a.wav'') ?primary = Inr r" for r
    by (simp add: retry_engine_def primary_options_def truthy_def asc_def)
  have a: "retry_engine r (asc ''a.wav'') (alt_options ?primary) = Inr retry_result" for r
    by (simp add: retry_engine_def alt_options_def)
  from confidence_gated_retry [where eng = "retry_engine low_result"
      and audio_path = "asc ''a.wav''" and task = "asc ''transcribe''"
      and ?r1.0 = low_result and ?r2.0 = retry_result] p a m1 m2 l3
  have low: "fst (transcribe_passes (retry_engine low_result) (asc ''a.wav'')
          (Some (asc ''hi'')) (asc ''transcribe''))
        = [?primary, ?primary\<lparr>opt_language := None, opt_temperature := Some (2 / 10)\<rparr>]
      \<and> snd (transcribe_passes (retry_engine low_result) (asc ''a.wav'')
          (Some (asc ''hi'')) (asc ''transcribe''))
        = Inr retry_result"
    by simp
  from confidence_gated_retry [where eng = "retry_engine threshold_result"
      and audio_path = "asc ''a.wav''" and task = "asc ''transcribe''"
      and ?r1.0 = threshold_result and ?r2.0 = retry_result] p a m3 m2 l3
  have thr: "fst (transcribe_passes (retry_engine threshold_result) (asc ''a.wav'')
          (Some (asc ''hi'')) (asc ''transcribe''))
        = [?primary, ?primary\<lparr>opt_language := None, opt_temperature := Some (2 / 10)\<rparr>]
      \<and> snd (transcribe_passes (retry_engine threshold_result) (asc ''a.wav'')
          (Some (asc ''hi'')) (asc ''transcribe''))
        = Inr retry_result"
    by simp
  from low thr m1 m2 m3 l1 l2 l3 show ?thesis
    by (simp add: prod_eq_iff)
qed

section \<open>Temporary files of the burn-in\<close>

definition sample_srt :: ustr where
  "sample_srt = asc ''1'' @ [10] @ asc ''00:00:00,000 --> 00:00:02,500'' @ [10] @ asc ''Hello'' @ [10]"

definition sample_files :: fs where
  "sample_files = [asc ''up/v.mp4'' \<mapsto> asc ''video'', asc ''out/captions.srt'' \<mapsto> sample_srt]"

definition timeout_world :: world where
  "timeout_world =
     sample_world\<lparr>run_ffmpeg := (\<lambda>cmd cwd files.
        (Inl (TimeoutExpired (asc ''Command timed out after 600 seconds'')), []))\<rparr>"

lemma sample_srt_valid: "validate_srt_content ascii_tables sample_srt = (True, asc ''SRT file is valid'')"
  by (simp add: validate_srt_content_def sample_srt_def py_strip_def strip_chars_def is_space_def
      isdigit_def is_digit_def startswith_def asc_def)

lemma ass_path_sample: "py_replace (asc ''.srt'') (asc ''.ass'') (asc ''out/captions.srt'') = asc ''out/captions.ass''"
  by (simp add: py_replace_Nil py_replace_Cons asc_def startswith_def)

lemma temp_path_sample:
  "path_join (dirname (asc ''up/v.mp4'')) (asc ''temp_subtitles.srt'') = asc ''up/temp_subtitles.srt''"
  by (simp add: path_join_def dirname_def rfind_def startswith_def asc_def)

text \<open>
  C9. Every burn-in method should remove the temporary file it created, whatever the
  outcome. The first method removes the styled \<open>.ass\<close> file only after a zero exit status,
  and the third removes \<open>temp_subtitles.srt\<close> only when \<open>subprocess.run\<close> returns. With a
  valid SRT file and a transcoder that exits with status 1 on every burn-in, the function
  returns \<open>False\<close> and the \<open>.ass\<close> file is still there; with a transcoder that times out
  every time, both files are still there.
\<close>

theorem burn_in_leaves_temporary_files:
  "(case burn_subtitles_to_video sample_world sample_files (asc ''up/v.mp4'')
           (asc ''out/captions.srt'') (asc ''out/v_sub.mp4'') None of
      (success, files') \<Rightarrow>
        (success, path_exists files' (asc ''out/captions.ass''),
         path_exists files' (asc ''up/temp_subtitles.srt'')))
     = (False, True, False)
   \<and> (case burn_subtitles_to_video timeout_world sample_files (asc ''up/v.mp4'')
           (asc ''out/captions.srt'') (asc ''out/v_sub.mp4'') None of
      (success, files') \<Rightarrow>
        (success, path_exists files' (asc ''out/captions.ass''),
         path_exists files' (asc ''up/temp_subtitles.srt'')))
     = (False, True, True)"
  by (simp add: burn_subtitles_to_video_def burn_method1_def burn_method2_def burn_method3_def
      burn_method4_def create_styled_ass_file_def validate_srt_file_def validate_srt_content_def
      py_strip_def strip_chars_def is_space_def isdigit_def is_digit_def startswith_def
      py_replace_Nil py_replace_Cons path_join_def dirname_def rfind_def
      timeout_world_def sample_world_def ascii_tables_def apply_writes_def remove_file_def
      path_exists_def burn_cmd_def sample_files_def sample_srt_def asc_def)

section \<open>Burn-in failure does not fail the job\<close>

lemma apply_writes_Nil: "apply_writes files [] = files"
  by (simp add: apply_writes_def)

lemma apply_writes_Cons:
  "apply_writes files ((p, c) # writes) = apply_writes (files(p \<mapsto> c)) writes"
  by (simp add: apply_writes_def)

lemma apply_writes_dom: "dom files \<subseteq> dom (apply_writes files writes)"
proof (induction writes arbitrary: files)
  case Nil
  show ?case by (simp add: apply_writes_Nil)
next
  case (Cons wr writes)
  obtain p c where wr: "wr = (p, c)" by (cases wr)
  have "dom files \<subseteq> dom (files(p \<mapsto> c))" by auto
  also have "\<dots> \<subseteq> dom (apply_writes (files(p \<mapsto> c)) writes)"
    by (rule Cons.IH)
  finally show ?case unfolding wr apply_writes_Cons .
qed

lemma burn_method1_dom:
  assumes "burn_method1 w files video_path srt_path output_path fnt = (False, files')"
  shows "dom files \<subseteq> dom files'"
proof -
  let ?ass = "py_replace (asc ''.srt'') (asc ''.ass'') srt_path"
  let ?fnt = "case fnt of None \<Rightarrow> FontSettings | Some f \<Rightarrow> f"
  obtain b f1 where c: "create_styled_ass_file w files srt_path ?ass ?fnt = (b, f1)"
    by (cases "create_styled_ass_file w files srt_path ?ass ?fnt")
  have d1: "dom files \<subseteq> dom f1"
    using c by (auto simp: create_styled_ass_file_def split: option.splits)
  show ?thesis
  proof (cases b)
    case False
    with assms c have "files' = f1" by (simp add: burn_method1_def)
    with d1 show ?thesis by simp
  next
    case True
    let ?cmd = "burn_cmd video_path (asc ''ass='' @ normalize_path ?ass) output_path"
    obtain r writes where r: "run_ffmpeg w ?cmd None f1 = (r, writes)"
      by (cases "run_ffmpeg w ?cmd None f1")
    from assms c True r have "files' = apply_writes f1 writes"
      by (auto simp: burn_method1_def Let_def split: sum.splits if_splits)
    with d1 apply_writes_dom [of f1 writes] show ?thesis by auto
  qed
qed

lemma burn_method2_dom:
  assumes "burn_method2 w files video_path srt_path output_path = (ok, files')"
  shows "dom files \<subseteq> dom files'"
  using assms apply_writes_dom [of files]
  by (auto simp: burn_method2_def Let_def split: sum.splits prod.splits)

lemma burn_method4_dom:
  assumes "burn_method4 w files video_path srt_path output_path = (ok, files')"
  shows "dom files \<subseteq> dom files'"
  using assms apply_writes_dom [of files]
  by (auto simp: burn_method4_def Let_def split: sum.splits prod.splits)

lemma burn_method3_keeps_srt:
  assumes "burn_method3 w files video_path srt_path output_path = (ok, files')"
    and "srt_path \<in> dom files"
  shows "srt_path \<in> dom files'"
proof -
  let ?temp = "path_join (dirname video_path) (asc ''temp_subtitles.srt'')"
  show ?thesis
  proof (cases "srt_path = ?temp \<or> open_for_write w ?temp \<noteq> None")
    case True
    with assms have "files' = files"
      by (auto simp: burn_method3_def Let_def split: option.splits)
    with assms(2) show ?thesis by simp
  next
    case False
    from assms(2) obtain srt_content where s: "files srt_path = Some srt_content" by auto
    let ?f1 = "files(?temp \<mapsto> srt_content)"
    let ?cmd = "burn_cmd video_path (asc ''subtitles=temp_subtitles.srt'') output_path"
    obtain r writes where r: "run_ffmpeg w ?cmd (Some (dirname video_path)) ?f1 = (r, writes)"
      by (cases "run_ffmpeg w ?cmd (Some (dirname video_path)) ?f1")
    have "srt_path \<in> dom ?f1" using assms(2) by auto
    then have k: "srt_path \<in> dom (apply_writes ?f1 writes)"
      using apply_writes_dom [of ?f1 writes] by blast
    from assms(1) False s r
    have "files' = apply_writes ?f1 writes \<or> files' = remove_file (apply_writes ?f1 writes) ?temp"
      by (auto simp: burn_method3_def Let_def split: sum.splits)
    with k False show ?thesis
      by (auto simp: remove_file_def)
  qed
qed

lemma failed_burn_keeps_srt:
  assumes "burn_subtitles_to_video w files video_path srt_path output_path fnt = (False, files')"
    and "srt_path \<in> dom files"
  shows "srt_path \<in> dom files'"
proof (cases "ffmpeg_available w \<and> fst (validate_srt_file (tables w) files srt_path)")
  case False
  with assms show ?thesis
    by (auto simp: burn_subtitles_to_video_def split: if_splits)
next
  case True
  obtain b1 f1 where m1: "burn_method1 w files video_path srt_path output_path fnt = (b1, f1)"
    by (cases "burn_method1 w files video_path srt_path output_path fnt")
  obtain b2 f2 where m2: "burn_method2 w f1 video_path srt_path output_path = (b2, f2)"
    by (cases "burn_method2 w f1 video_path srt_path output_path")
  obtain b3 f3 where m3: "burn_method3 w f2 video_path srt_path output_path = (b3, f3)"
    by (cases "burn_method3 w f2 video_path srt_path output_path")
  from assms(1) True m1 have b1: "\<not> b1"
    by (auto simp: burn_subtitles_to_video_def)
  with assms(1) True m1 m2 have b2: "\<not> b2"
    by (auto simp: burn_subtitles_to_video_def)
  with assms(1) True m1 m2 m3 b1 have b3: "\<not> b3"
    by (auto simp: burn_subtitles_to_video_def)
  with assms(1) True m1 m2 m3 b1 b2
  have m4: "burn_method4 w f3 video_path srt_path output_path = (False, files')"
    by (auto simp: burn_subtitles_to_video_def)
  have "srt_path \<in> dom f1"
    using burn_method1_dom [of w files video_path srt_path output_path fnt f1] m1 b1 assms(2)
    by auto
  then have "srt_path \<in> dom f2"
    using burn_method2_dom [OF m2] by auto
  then have "srt_path \<in> dom f3"
    using burn_method3_keeps_srt [OF m3] by simp
  then show ?thesis
    using burn_method4_dom [OF m4] by auto
qed

text \<open>
  When every invocation of the transcoder with a video filter fails (a non-zero status, a
  timeout or another exception), \<open>burn_subtitles_to_video\<close> returns \<open>False\<close>.
\<close>

definition every_burn_attempt_fails :: "world \<Rightarrow> bool" where
  "every_burn_attempt_fails w \<longleftrightarrow>
     (\<forall>cmd cwd files err writes.
        asc ''-vf'' \<in> set cmd \<longrightarrow> run_ffmpeg w cmd cwd files \<noteq> (Inr (0, err), writes))"

lemma burn_fails_when_every_attempt_fails:
  assumes "every_burn_attempt_fails w"
  shows "fst (burn_subtitles_to_video w files video_path srt_path output_path fnt) = False"
proof -
  have vf: "asc ''-vf'' \<in> set (burn_cmd video_path vf output_path)" for vf
    by (simp add: burn_cmd_def)
  have no: "run_ffmpeg w (burn_cmd video_path vf output_path) cwd fs \<noteq> (Inr (0, err), writes)"
    for vf cwd fs err writes
    using assms vf unfolding every_burn_attempt_fails_def by blast
  have 1: "burn_method1 w fs video_path srt_path output_path fnt \<noteq> (True, fs')" for fs fs'
    using no by (auto simp: burn_method1_def Let_def split: prod.splits sum.splits bool.splits)
  have 2: "burn_method2 w fs video_path srt_path output_path \<noteq> (True, fs')" for fs fs'
    using no by (auto simp: burn_method2_def Let_def split: prod.splits sum.splits)
  have 3: "burn_method3 w fs video_path srt_path output_path \<noteq> (True, fs')" for fs fs'
    using no
    by (auto simp: burn_method3_def Let_def split: prod.splits sum.splits option.splits)
  have 4: "burn_method4 w fs video_path srt_path output_path \<noteq> (True, fs')" for fs fs'
    using no by (auto simp: burn_method4_def Let_def split: prod.splits sum.splits)
  show ?thesis
  proof (rule ccontr)
    assume "fst (burn_subtitles_to_video w files video_path srt_path output_path fnt) \<noteq> False"
    then obtain fs' where
      "burn_subtitles_to_video w files video_path srt_path output_path fnt = (True, fs')"
      by (cases "burn_subtitles_to_video w files video_path srt_path output_path fnt") auto
    then show False
      using 1 2 3 4
      by (auto simp: burn_subtitles_to_video_def split: prod.splits bool.splits if_splits)
  qed
qed

lemma progress_callback_tracker:
  "t_job_id (fst (progress_callback st msg)) = t_job_id (fst st)"
  "t_completed (fst (progress_callback st msg)) = t_completed (fst st)"
  "t_error (fst (progress_callback st msg)) = t_error (fst st)"
  by (simp_all add: progress_callback_def update_def split_beta Let_def)

lemma progress_callback_present:
  "t_job_id (fst st) \<in> dom (snd (progress_callback st msg))"
  by (simp add: progress_callback_def update_def split_beta Let_def)

lemma callbacks_tracker:
  "t_job_id (fst (foldl progress_callback st msgs)) = t_job_id (fst st)
   \<and> t_completed (fst (foldl progress_callback st msgs)) = t_completed (fst st)
   \<and> t_error (fst (foldl progress_callback st msgs)) = t_error (fst st)
   \<and> (t_job_id (fst st) \<in> dom (snd st)
        \<longrightarrow> t_job_id (fst st) \<in> dom (snd (foldl progress_callback st msgs)))"
proof (induction msgs arbitrary: st)
  case Nil
  show ?case by simp
next
  case (Cons msg msgs)
  show ?case
    using Cons.IH [of "progress_callback st msg"] progress_callback_present [of st msg]
    by (simp add: progress_callback_tracker)
qed

lemma join_nonempty: "x \<noteq> [] \<Longrightarrow> join sep (x # xs) \<noteq> []"
  by (cases xs) auto

lemma path_format_nonempty:
  assumes "\<forall>x \<in> set parts. x \<noteq> []"
  shows "path_format rt parts \<noteq> []"
proof (cases parts)
  case Nil
  then show ?thesis by (simp add: path_format_def)
next
  case (Cons x xs)
  with assms have "join [47] parts \<noteq> []"
    by (simp add: join_nonempty)
  then show ?thesis by (simp add: path_format_def)
qed

lemma pathlib_join_nonempty: "pathlib_join a b \<noteq> []"
proof -
  have parts: "\<forall>x \<in> set (path_parts p). x \<noteq> []" for p
    by (simp add: path_parts_def)
  then have "\<forall>x \<in> set (path_parts a @ path_parts b). x \<noteq> []"
    by auto
  then have "path_format rt (path_parts a @ path_parts b) \<noteq> []" for rt
    by (rule path_format_nonempty)
  moreover have "path_format rt (path_parts b) \<noteq> []" for rt
    using parts by (rule path_format_nonempty)
  ultimately show ?thesis
    by (simp add: pathlib_join_def path_str_def)
qed

text \<open>The state of the tracker and of the table when the pipeline returns.\<close>

lemma background_before_result:
  assumes "update (ProgressTracker job_id) jobs (asc ''Initializing'')
             (asc ''Starting video processing'') (Some 0) = (tr0, jobs0)"
    and "foldl progress_callback (tr0, jobs0) msgs = (tr1, jobs1)"
  shows "t_job_id tr1 = job_id \<and> \<not> t_completed tr1 \<and> t_error tr1 = None
         \<and> job_id \<in> dom jobs1"
proof -
  from assms(1) have 0: "t_job_id tr0 = job_id" "\<not> t_completed tr0" "t_error tr0 = None"
     "job_id \<in> dom jobs0"
    by (auto simp: update_def ProgressTracker_def Let_def)
  from callbacks_tracker [of "(tr0, jobs0)" msgs] assms(2) 0 show ?thesis
    by simp
qed

text \<open>
  C3. Extraction and transcription succeed, the SRT file is written, and the burn-in
  returns \<open>False\<close> (as it does when every attempt fails): the pipeline returns the SRT path,
  no video path and the message \<open>Success\<close>; the background run ends without an
  exception, and the poll that follows answers with type \<open>complete\<close>,
  \<open>videoCreated = false\<close> and no video reference.
\<close>

theorem burn_failure_keeps_job_successful:
  fixes w :: world and files files1 :: fs and language output_dir video_path :: ustr
  defines "audio_path \<equiv> pathlib_join output_dir (asc ''extracted_audio.wav'')"
    and "srt_path \<equiv> pathlib_join output_dir (asc ''captions.srt'')"
    and "output_path \<equiv> pathlib_join (path_str output_dir)
           (path_stem video_path @ asc ''_with_subtitles_'' @ str_nat (clock w) @ asc ''.mp4'')"
    and "lang \<equiv> (if language \<noteq> asc ''auto'' then Some language else None)"
  assumes dir: "mkdir w output_dir files = None"
    and video: "path_exists files video_path"
    and model: "load_model w model_name = Inr eng"
    and audio: "extract_audio w files video_path audio_path = (True, files1)"
    and srt: "srt = snd (transcribe_audio_local (tables w) files1 eng audio_path lang
                          (asc ''transcribe'') (language = asc ''auto''))"
    and ok: "\<not> startswith srt (asc ''Error'')"
    and writable: "open_for_write w srt_path = None"
    and burn: "fst (burn_subtitles_to_video w (files1(srt_path \<mapsto> srt)) video_path srt_path
                 output_path (Some (case fnt of None \<Rightarrow> FontSettings | Some f \<Rightarrow> f))) = False"
  shows "fst (process_video_with_captions w files video_path output_dir model_name fnt True
                lang (language = asc ''auto''))
           = Inr (Some srt_path, None, asc ''Success'')
         \<and> (\<exists>js content.
               process_video_background w files msgs jobs job_id video_path output_dir
                 model_name language True fnt = Inr js
               \<and> get_job_status js job_id
                   = Complete content (Some srt_path) (Some output_dir)
                       (asc ''Video processing completed successfully!'') False None)"
proof -
  let ?fnt = "Some (case fnt of None \<Rightarrow> FontSettings | Some f \<Rightarrow> f)"
  obtain files3 where b: "burn_subtitles_to_video w (files1(srt_path \<mapsto> srt)) video_path
      srt_path output_path ?fnt = (False, files3)"
    using burn
    by (cases "burn_subtitles_to_video w (files1(srt_path \<mapsto> srt)) video_path srt_path
          output_path ?fnt") auto
  have pipeline: "process_video_with_captions w files video_path output_dir model_name fnt True
      lang (language = asc ''auto'') = (Inr (Some srt_path, None, asc ''Success''), files3)"
    using dir video model audio srt [symmetric] ok writable b
    by (simp add: process_video_with_captions_def create_video_with_subtitles_def Let_def
        audio_path_def srt_path_def output_path_def)
  have "srt_path \<in> dom files3"
    using failed_burn_keeps_srt [OF b] by simp
  then obtain content where content: "files3 srt_path = Some content"
    by auto
  have nonempty: "truthy (Some srt_path)"
    by (simp add: truthy_def srt_path_def pathlib_join_nonempty)
  obtain tr0 jobs0 where u: "update (ProgressTracker job_id) jobs (asc ''Initializing'')
      (asc ''Starting video processing'') (Some 0) = (tr0, jobs0)"
    by (cases "update (ProgressTracker job_id) jobs (asc ''Initializing'')
          (asc ''Starting video processing'') (Some 0)")
  obtain tr1 jobs1 where f: "foldl progress_callback (tr0, jobs0) msgs = (tr1, jobs1)"
    by (cases "foldl progress_callback (tr0, jobs0) msgs")
  from background_before_result [OF u f]
  have tr1: "t_job_id tr1 = job_id" "t_error tr1 = None" and "job_id \<in> dom jobs1"
    by simp_all
  then obtain j where j: "jobs1 job_id = Some j"
    by auto
  let ?tr2 = "tr1\<lparr>t_completed := True, t_progress := 100\<rparr>"
  let ?jobs2 = "jobs1(job_id \<mapsto>
      j\<lparr>j_completed := True, j_srt_content := Some content, j_srt_path := Some srt_path,
        j_video_with_subs_path := None, j_output_dir := Some output_dir,
        j_message := asc ''Success''\<rparr>)"
  let ?js = "snd (update ?tr2 ?jobs2 (asc ''Completed'')
      (asc ''Video processing completed successfully!'') (Some 100))"
  have run: "process_video_background w files msgs jobs job_id video_path output_dir
      model_name language True fnt = Inr ?js"
    using pipeline u f content nonempty j
    by (simp add: process_video_background_def lang_def)
  have poll: "get_job_status ?js job_id
      = Complete content (Some srt_path) (Some output_dir)
          (asc ''Video processing completed successfully!'') False None"
    using tr1 by (simp add: get_job_status_def update_def Let_def truthy_def)
  from pipeline run poll show ?thesis
    by auto
qed

definition sample_transcript :: ustr where
  "sample_transcript =
     asc ''1'' @ [10] @ asc ''00:00:00,000 --> 00:00:02,500'' @ [10]
       @ asc ''Hello world. How are you'' @ [10]"

lemma sample_engine_transcript:
  "path_exists files (asc ''out/extracted_audio.wav'') \<Longrightarrow>
   snd (transcribe_audio_local ascii_tables files sample_engine (asc ''out/extracted_audio.wav'')
          (Some (asc ''english'')) (asc ''transcribe'') False) = sample_transcript"
  by (simp add: transcribe_audio_local_def transcribe_body_def resolve_language_def truthy_def
      language_mapping_def transcribe_passes_def primary_options_def sample_engine_def
      mean_logprob_def result_to_srt_def lacks_segments_def post_process_hindi_hinglish_def
      convert_to_srt_def clean_subtitle_text_def search_devanagari_def match_no_words_def
      search_devanagari_or_word_def is_devanagari_def is_word_def is_decimal_def is_ascii_alnum_def
      is_punct_def is_strip_char_def
      fix_hindi_hinglish_errors_def corrections_def py_replace_Nil py_replace_Cons startswith_def
      capitalize_sentence_def match_term_def py_strip_def strip_chars_def is_space_def is_term_def
      upper_char_def is_ascii_lower_def ascii_tables_def
      format_timestamp_def float_floordiv_eval fmod_def zero_pad_def str_nat_digit str_nat_more
      replicate_small float_eval sample_transcript_def asc_def)

lemma sample_world_burn_fails: "every_burn_attempt_fails sample_world"
  by (simp add: every_burn_attempt_fails_def sample_world_def)

text \<open>
  In \<open>sample_world\<close> the audio is extracted, the engine hears one sentence, and each of
  the four burn-in attempts exits with status 1.
\<close>

theorem burn_failure_keeps_job_successful_witness:
  "fst (process_video_with_captions sample_world [asc ''up/v.mp4'' \<mapsto> asc ''video'']
          (asc ''up/v.mp4'') (asc ''out'') (asc ''base'') None True (Some (asc ''english''))
          False)
     = Inr (Some (asc ''out/captions.srt''), None, asc ''Success'')
   \<and> (\<exists>js content.
         process_video_background sample_world [asc ''up/v.mp4'' \<mapsto> asc ''video''] []
           Map.empty (asc ''j1'') (asc ''up/v.mp4'') (asc ''out'') (asc ''base'')
           (asc ''english'') True None = Inr js
         \<and> get_job_status js (asc ''j1'')
             = Complete content (Some (asc ''out/captions.srt'')) (Some (asc ''out''))
                 (asc ''Video processing completed successfully!'') False None)"
proof -
  let ?files = "[asc ''up/v.mp4'' \<mapsto> asc ''video'']"
  let ?files1 = "?files(asc ''out/extracted_audio.wav'' \<mapsto> asc ''RIFF'')"
  have p1: "pathlib_join (asc ''out'') (asc ''extracted_audio.wav'')
      = asc ''out/extracted_audio.wav''"
    and p2: "pathlib_join (asc ''out'') (asc ''captions.srt'') = asc ''out/captions.srt''"
    by (simp_all add: pathlib_join_def path_root_def path_parts_def path_format_def asc_def)
  have l: "(if asc ''english'' \<noteq> asc ''auto'' then Some (asc ''english'') else None)
      = Some (asc ''english'')" and a: "(asc ''english'' = asc ''auto'') = False"
    by (simp_all add: asc_def)
  have dir: "mkdir sample_world (asc ''out'') ?files = None"
    and model: "load_model sample_world (asc ''base'') = Inr sample_engine"
    and writable: "open_for_write sample_world (asc ''out/captions.srt'') = None"
    and tables: "tables sample_world = ascii_tables"
    by (simp_all add: sample_world_def)
  have video: "path_exists ?files (asc ''up/v.mp4'')"
    by (simp add: path_exists_def)
  have audio: "extract_audio sample_world ?files (asc ''up/v.mp4'')
      (asc ''out/extracted_audio.wav'') = (True, ?files1)"
    by (simp add: extract_audio_def sample_world_def apply_writes_def asc_def)
  have srt: "sample_transcript = snd (transcribe_audio_local ascii_tables ?files1 sample_engine
      (asc ''out/extracted_audio.wav'') (Some (asc ''english'')) (asc ''transcribe'') False)"
    by (rule sample_engine_transcript [symmetric]) (simp add: path_exists_def)
  have ok: "\<not> startswith sample_transcript (asc ''Error'')"
    by (simp add: sample_transcript_def startswith_def asc_def)
  note inst = burn_failure_keeps_job_successful [where w = sample_world and files = "?files"
      and video_path = "asc ''up/v.mp4''" and output_dir = "asc ''out''"
      and model_name = "asc ''base''" and eng = sample_engine and ?files1.0 = "?files1"
      and language = "asc ''english''" and srt = sample_transcript and fnt = None
      and msgs = "[]" and jobs = Map.empty and job_id = "asc ''j1''"]
  show ?thesis
    using inst dir model writable video audio srt ok
      burn_fails_when_every_attempt_fails [OF sample_world_burn_fails]
    unfolding p1 p2 l a tables
    by simp
qed

section \<open>The serializer\<close>

text \<open>
  The loop of \<open>_convert_to_srt\<close> read segment by segment: the text it cleans (lines 426
  and 433), the line of timestamps it writes (line 444), and the condition under which it
  reaches line 443 and appends an entry, that is, none of the three \<open>continue\<close> is taken.
\<close>

definition cleaned_text :: "segment \<Rightarrow> ustr" where
  "cleaned_text seg =
     clean_subtitle_text (py_strip (case seg_text seg of None \<Rightarrow> [] | Some t \<Rightarrow> t))"

definition time_line :: "segment \<Rightarrow> ustr" where
  "time_line seg =
     format_timestamp (case seg_start seg of None \<Rightarrow> 0 | Some t \<Rightarrow> t) @ asc '' --> ''
       @ format_timestamp (case seg_end seg of None \<Rightarrow> 0 | Some t \<Rightarrow> t)"

definition emitted :: "unicode_tables \<Rightarrow> segment \<Rightarrow> bool" where
  "emitted ut seg \<longleftrightarrow>
     cleaned_text seg \<noteq> []
     \<and> (3 \<le> length (cleaned_text seg) \<or> search_devanagari (cleaned_text seg))
     \<and> \<not> (match_no_words ut (cleaned_text seg)
            \<and> \<not> search_devanagari_or_word ut (cleaned_text seg))"

definition srt_entry :: "nat \<Rightarrow> segment \<Rightarrow> ustr list" where
  "srt_entry i seg = [str_nat i, time_line seg, cleaned_text seg, []]"

lemma clean_subtitle_text_Nil: "clean_subtitle_text [] = []"
  by (simp add: clean_subtitle_text_def strip_chars_def)

lemma srt_lines_step:
  "srt_lines ut n (seg # segs)
     = (if emitted ut seg then srt_entry n seg @ srt_lines ut (n + 1) segs
        else srt_lines ut n segs)"
proof (cases "py_strip (case seg_text seg of None \<Rightarrow> [] | Some t \<Rightarrow> t) = []")
  case True
  then have "\<not> emitted ut seg"
    by (simp add: emitted_def cleaned_text_def clean_subtitle_text_Nil)
  with True show ?thesis
    by simp
next
  case False
  then show ?thesis
    by (auto simp: Let_def emitted_def cleaned_text_def time_line_def srt_entry_def not_less
        Suc_le_eq)
qed

lemma srt_lines_enumerate:
  "srt_lines ut n segs
     = concat (map (\<lambda>(i, seg). srt_entry i seg) (enumerate n (filter (emitted ut) segs)))"
proof (induction segs arbitrary: n)
  case Nil
  show ?case by simp
next
  case (Cons seg segs)
  show ?case
    unfolding srt_lines_step
    using Cons.IH [of "n + 1"] Cons.IH [of n]
    by simp
qed

section \<open>Facts about the strings\<close>

lemma strip_chars_keeps_prefix:
  assumes "p \<noteq> []" and "\<not> P (hd p)" and "\<not> P (last p)"
  shows "\<exists>q'. strip_chars P (p @ q) = p @ q'"
proof -
  have front: "dropWhile P (p @ q) = p @ q"
    using assms(1,2) by (cases p) auto
  have "\<exists>x. dropWhile P (rev q @ rev p) = x @ rev p"
  proof (cases "\<forall>c \<in> set (rev q). P c")
    case True
    then have "dropWhile P (rev q @ rev p) = dropWhile P (rev p)"
      by (intro dropWhile_append2) auto
    also have "\<dots> = rev p"
      using assms(1,3) by (cases "rev p") (auto simp: last_rev hd_rev)
    finally show ?thesis by simp
  next
    case False
    then have "dropWhile P (rev q @ rev p) = dropWhile P (rev q) @ rev p"
      by (auto simp: dropWhile_append1)
    then show ?thesis by blast
  qed
  then obtain x where "dropWhile P (rev q @ rev p) = x @ rev p" ..
  then have "strip_chars P (p @ q) = p @ rev x"
    by (simp add: strip_chars_def front)
  then show ?thesis ..
qed

lemma strip_chars_nonempty:
  assumes "s \<noteq> []" and "\<not> P (hd s)"
  shows "strip_chars P s \<noteq> [] \<and> hd (strip_chars P s) = hd s"
proof -
  have "\<exists>q'. strip_chars P ([hd s] @ tl s) = [hd s] @ q'"
    by (rule strip_chars_keeps_prefix) (simp_all add: assms(2))
  with assms(1) show ?thesis by auto
qed

lemma strip_chars_subset: "set (strip_chars P s) \<subseteq> set s"
proof -
  have "set (dropWhile P (rev (dropWhile P s))) \<subseteq> set (rev (dropWhile P s))"
    by (rule set_dropWhileD [THEN subsetI])
  also have "\<dots> \<subseteq> set s"
    using set_dropWhileD [of _ P s] by auto
  finally show ?thesis by (simp add: strip_chars_def)
qed

lemma strip_chars_hd:
  assumes "strip_chars P s \<noteq> []"
  shows "\<not> P (hd (strip_chars P s))"
proof -
  let ?y = "dropWhile P s"
  have y: "?y = rev (dropWhile P (rev ?y)) @ rev (takeWhile P (rev ?y))"
    by (metis rev_append rev_rev_ident takeWhile_dropWhile_id)
  from assms have ne: "rev (dropWhile P (rev ?y)) \<noteq> []"
    by (simp add: strip_chars_def)
  then have "hd (strip_chars P s) = hd ?y"
    using y by (metis hd_append2 strip_chars_def)
  moreover have "?y \<noteq> []"
  proof
    assume "?y = []"
    with ne show False by simp
  qed
  ultimately show ?thesis by (simp add: hd_dropWhile)
qed

lemma strip_chars_last:
  assumes "strip_chars P s \<noteq> []"
  shows "\<not> P (last (strip_chars P s))"
proof -
  from assms have "dropWhile P (rev (dropWhile P s)) \<noteq> []"
    by (simp add: strip_chars_def)
  then have "\<not> P (hd (dropWhile P (rev (dropWhile P s))))"
    by (rule hd_dropWhile)
  then show ?thesis
    using assms by (simp add: strip_chars_def last_rev)
qed

lemma split_on_nonempty: "split_on d s \<noteq> []"
  by (induction s) (auto split: list.splits)

lemma split_on_append:
  "d \<notin> set a \<Longrightarrow> split_on d (a @ d # r) = a # split_on d r"
  by (induction a) (auto split: list.splits simp: split_on_nonempty)

lemma startswith_contains: "startswith s sub \<Longrightarrow> contains sub s"
  by (cases s) (simp_all add: startswith_def)

lemma contains_prefix: "contains sub (sub @ b)"
  by (rule startswith_contains) (simp add: startswith_def)

lemma contains_infix: "contains sub (a @ sub @ b)"
  by (induction a) (simp_all add: contains_prefix)

lemma str_nat_digits: "set (str_nat n) \<subseteq> {48 ..< 58}"
proof (induction n rule: str_nat.induct)
  case (1 n)
  show ?case
  proof (cases "n < 10")
    case True
    then show ?thesis by (simp add: str_nat_digit)
  next
    case False
    have "n mod 10 < 10" by simp
    then have "48 + n mod 10 \<in> {48 ..< 58}" by simp
    with False 1 show ?thesis by (simp add: str_nat_more)
  qed
qed

lemma zero_pad_digits: "set (zero_pad k n) \<subseteq> {48 ..< 58}"
  using str_nat_digits [of n] by (auto simp: zero_pad_def)

lemma format_timestamp_chars: "set (format_timestamp x) \<subseteq> {48 ..< 58} \<union> {58, 44}"
  using zero_pad_digits
  by (fastforce simp: format_timestamp_def Let_def asc_def)

lemma time_line_no_newline: "10 \<notin> set (time_line seg)"
  using format_timestamp_chars
  by (fastforce simp: time_line_def asc_def)

lemma time_line_arrow: "contains (asc ''-->'') (time_line seg)"
proof -
  have "time_line seg
      = (format_timestamp (case seg_start seg of None \<Rightarrow> 0 | Some t \<Rightarrow> t) @ [32])
        @ asc ''-->''
        @ (32 # format_timestamp (case seg_end seg of None \<Rightarrow> 0 | Some t \<Rightarrow> t))"
    by (simp add: time_line_def asc_def)
  then show ?thesis
    by (simp only: contains_infix)
qed

section \<open>The shape of a cleaned text\<close>

text \<open>
  Three shapes of a text, each stronger than the one before. In \<open>single_spaced\<close> every
  whitespace character is a space and no two are adjacent. In \<open>spaced\<close>, moreover, a space
  is followed by a character that is neither whitespace nor one of \<open>,.!?\<close>, each of \<open>,.!?\<close>
  is followed by a space or another of them, and the text does not end with one of them.
  In \<open>tidy\<close> the text does not end with a space either.
\<close>

definition plain :: "nat \<Rightarrow> bool" where
  "plain c \<longleftrightarrow> \<not> is_space c \<and> \<not> is_punct c"

fun single_spaced :: "ustr \<Rightarrow> bool" where
  "single_spaced [] = True"
| "single_spaced [c] = (is_space c \<longrightarrow> c = 32)"
| "single_spaced (c # d # r) =
     ((is_space c \<longrightarrow> c = 32 \<and> \<not> is_space d) \<and> single_spaced (d # r))"

fun spaced :: "ustr \<Rightarrow> bool" where
  "spaced [] = True"
| "spaced [c] = (\<not> is_punct c \<and> (is_space c \<longrightarrow> c = 32))"
| "spaced (c # d # r) =
     ((is_space c \<longrightarrow> c = 32 \<and> plain d) \<and> (is_punct c \<longrightarrow> d = 32 \<or> is_punct d)
      \<and> spaced (d # r))"

fun tidy :: "ustr \<Rightarrow> bool" where
  "tidy [] = True"
| "tidy [c] = plain c"
| "tidy (c # d # r) =
     ((is_space c \<longrightarrow> c = 32 \<and> plain d) \<and> (is_punct c \<longrightarrow> d = 32 \<or> is_punct d)
      \<and> tidy (d # r))"

lemma space_32: "is_space 32"
  by (simp add: is_space_def)

lemma punct_not_space: "is_punct c \<Longrightarrow> \<not> is_space c"
  by (auto simp: is_punct_def is_space_def)

lemma not_punct_32: "\<not> is_punct 32"
  by (simp add: is_punct_def)

lemma term_punct: "is_term c \<Longrightarrow> is_punct c"
  by (auto simp: is_punct_def is_term_def)

lemma plain_simps: "plain c \<Longrightarrow> \<not> is_space c" "plain c \<Longrightarrow> \<not> is_punct c" "\<not> plain 32"
  by (auto simp: plain_def space_32)

lemma single_spaced_tl: "single_spaced (c # cs) \<Longrightarrow> single_spaced cs"
  by (cases cs) auto

lemma single_spaced_dropWhile: "single_spaced s \<Longrightarrow> single_spaced (dropWhile P s)"
  by (induction s) (auto dest: single_spaced_tl)

lemma spaced_tl: "spaced (c # cs) \<Longrightarrow> spaced cs"
  by (cases cs) auto

lemma spaced_dropWhile: "spaced s \<Longrightarrow> spaced (dropWhile P s)"
  by (induction s) (auto dest: spaced_tl)

lemma tidy_tl: "tidy (c # cs) \<Longrightarrow> tidy cs"
  by (cases cs) auto

lemma spaced_plain_Cons: "plain c \<Longrightarrow> spaced s \<Longrightarrow> spaced (c # s)"
  by (cases s) (auto simp: plain_def)

text \<open>The first substitution makes a text single-spaced.\<close>

lemma sub_ws_runs_plain: "\<not> is_space c \<Longrightarrow> sub_ws_runs (c # cs) = c # sub_ws_runs cs"
  by simp

lemma sub_ws_runs_hd:
  "s = [] \<or> \<not> is_space (hd s) \<Longrightarrow> sub_ws_runs s = [] \<or> \<not> is_space (hd (sub_ws_runs s))"
  by (cases s) auto

lemma single_spaced_sub_ws_runs: "single_spaced (sub_ws_runs s)"
proof (induction s rule: sub_ws_runs.induct)
  case 1
  show ?case by simp
next
  case (2 c cs)
  show ?case
  proof (cases "is_space c")
    case True
    let ?r = "dropWhile is_space cs"
    have "?r = [] \<or> \<not> is_space (hd ?r)"
      by (metis hd_dropWhile)
    then have h: "sub_ws_runs ?r = [] \<or> \<not> is_space (hd (sub_ws_runs ?r))"
      by (rule sub_ws_runs_hd)
    from True 2 have "single_spaced (sub_ws_runs ?r)" by simp
    with h have "single_spaced (32 # sub_ws_runs ?r)"
      by (cases "sub_ws_runs ?r") auto
    with True show ?thesis by simp
  next
    case False
    with 2 have "single_spaced (sub_ws_runs cs)" by simp
    with False have "single_spaced (c # sub_ws_runs cs)"
      by (cases "sub_ws_runs cs") auto
    with False show ?thesis by simp
  qed
qed

lemma tidy_sub_ws_runs: "tidy t \<Longrightarrow> sub_ws_runs t = t"
proof (induction t rule: tidy.induct)
  case 1
  show ?case by simp
next
  case (2 c)
  then show ?case by (simp add: plain_def)
next
  case (3 c d r)
  then have t: "sub_ws_runs (d # r) = d # r" by simp
  show ?case
  proof (cases "is_space c")
    case True
    with 3 have "c = 32" "\<not> is_space d" by (auto simp: plain_def)
    with True t show ?thesis by simp
  next
    case False
    with t show ?thesis by simp
  qed
qed

text \<open>
  The second and third substitutions, taken together. \<open>starts_punct s\<close> says that the text
  begins with one of \<open>,.!?\<close>.
\<close>

definition starts_punct :: "ustr \<Rightarrow> bool" where
  "starts_punct s = (case s of [] \<Rightarrow> False | p # rest \<Rightarrow> is_punct p)"

lemma starts_punct_simps [simp]:
  "starts_punct [] = False" "starts_punct (p # rest) = is_punct p"
  by (simp_all add: starts_punct_def)

lemma sub_punct_spacing_match:
  "dropWhile is_space (c # cs) = p # rest \<Longrightarrow> is_punct p \<Longrightarrow>
   sub_punct_spacing (c # cs) = p # 32 # sub_punct_spacing (dropWhile is_space rest)"
  by (simp del: dropWhile.simps)

lemma sub_punct_spacing_nomatch:
  "\<not> starts_punct (dropWhile is_space (c # cs)) \<Longrightarrow>
   sub_punct_spacing (c # cs) = c # sub_punct_spacing cs"
  by (cases "dropWhile is_space (c # cs)")
     (simp_all del: dropWhile.simps dropWhile_eq_Nil_conv)

lemma sub_punct_spacing_punct:
  "is_punct q \<Longrightarrow>
   sub_punct_spacing (q # r) = q # 32 # sub_punct_spacing (dropWhile is_space r)"
  by (rule sub_punct_spacing_match) (simp_all add: punct_not_space)

lemma sub_punct_spacing_plain:
  "plain d \<Longrightarrow> sub_punct_spacing (d # r) = d # sub_punct_spacing r"
  by (rule sub_punct_spacing_nomatch) (simp add: plain_def)

lemma sub_space_before_punct_other:
  "\<not> is_space c \<Longrightarrow> sub_space_before_punct (c # cs) = c # sub_space_before_punct cs"
  by simp

lemma sub_space_before_punct_match:
  "is_space c \<Longrightarrow> dropWhile is_space cs = p # rest \<Longrightarrow> is_punct p \<Longrightarrow>
   sub_space_before_punct (c # cs) = p # sub_space_before_punct rest"
  by simp

lemma sub_space_before_punct_nomatch:
  "is_space c \<Longrightarrow> \<not> starts_punct (dropWhile is_space cs) \<Longrightarrow>
   sub_space_before_punct (c # cs) = c # sub_space_before_punct cs"
  by (cases "dropWhile is_space cs") (simp_all del: dropWhile_eq_Nil_conv)

lemma spacing_keeps_no_punct_ahead:
  "\<not> starts_punct (dropWhile is_space cs) \<Longrightarrow>
   \<not> starts_punct (dropWhile is_space (sub_punct_spacing cs))"
proof (induction cs)
  case Nil
  show ?case by simp
next
  case (Cons e es)
  have b: "sub_punct_spacing (e # es) = e # sub_punct_spacing es"
    using Cons.prems by (rule sub_punct_spacing_nomatch)
  show ?case
  proof (cases "is_space e")
    case True
    with Cons show ?thesis by (simp add: b del: sub_punct_spacing.simps)
  next
    case False
    with Cons.prems show ?thesis by (simp add: b del: sub_punct_spacing.simps)
  qed
qed

lemma tidied_match:
  assumes "dropWhile is_space (c # cs) = p # rest" and "is_punct p"
  shows "sub_space_before_punct (sub_punct_spacing (c # cs)) =
           p # (if starts_punct (dropWhile is_space rest)
                then sub_space_before_punct (sub_punct_spacing (dropWhile is_space rest))
                else 32 # sub_space_before_punct (sub_punct_spacing (dropWhile is_space rest)))"
proof -
  let ?r = "dropWhile is_space rest"
  let ?X = "sub_punct_spacing ?r"
  have "sub_space_before_punct (sub_punct_spacing (c # cs))
      = sub_space_before_punct (p # 32 # ?X)"
    using assms by (simp only: sub_punct_spacing_match)
  also have "\<dots> = p # sub_space_before_punct (32 # ?X)"
    using assms(2) by (simp add: punct_not_space)
  also have "sub_space_before_punct (32 # ?X)
      = (if starts_punct ?r then sub_space_before_punct ?X else 32 # sub_space_before_punct ?X)"
  proof (cases ?r)
    case Nil
    then show ?thesis by (simp add: space_32 del: dropWhile_eq_Nil_conv)
  next
    case (Cons d r2)
    have nd: "\<not> is_space d"
      using Cons hd_dropWhile [of is_space rest] by auto
    show ?thesis
    proof (cases "is_punct d")
      case True
      have x: "?X = d # 32 # sub_punct_spacing (dropWhile is_space r2)"
        unfolding Cons using True by (rule sub_punct_spacing_punct)
      have "sub_space_before_punct (32 # ?X)
          = d # sub_space_before_punct (32 # sub_punct_spacing (dropWhile is_space r2))"
        unfolding x using True nd
        by (intro sub_space_before_punct_match) (simp_all add: space_32)
      moreover have "sub_space_before_punct ?X
          = d # sub_space_before_punct (32 # sub_punct_spacing (dropWhile is_space r2))"
        unfolding x using nd by (rule sub_space_before_punct_other)
      ultimately show ?thesis using True Cons
        by (simp del: sub_space_before_punct.simps sub_punct_spacing.simps)
    next
      case False
      with nd have "plain d" by (simp add: plain_def)
      then have x: "?X = d # sub_punct_spacing r2"
        unfolding Cons by (rule sub_punct_spacing_plain)
      have "sub_space_before_punct (32 # ?X) = 32 # sub_space_before_punct ?X"
        unfolding x using nd False
        by (intro sub_space_before_punct_nomatch) (simp_all add: space_32)
      then show ?thesis using False Cons
        by (simp del: sub_space_before_punct.simps sub_punct_spacing.simps)
    qed
  qed
  finally show ?thesis .
qed

lemma tidied_nomatch:
  assumes "\<not> starts_punct (dropWhile is_space (c # cs))"
  shows "sub_space_before_punct (sub_punct_spacing (c # cs))
           = c # sub_space_before_punct (sub_punct_spacing cs)"
proof -
  have b: "sub_punct_spacing (c # cs) = c # sub_punct_spacing cs"
    using assms by (rule sub_punct_spacing_nomatch)
  show ?thesis
  proof (cases "is_space c")
    case True
    with assms have "\<not> starts_punct (dropWhile is_space cs)" by simp
    then have "\<not> starts_punct (dropWhile is_space (sub_punct_spacing cs))"
      by (rule spacing_keeps_no_punct_ahead)
    with True show ?thesis
      unfolding b by (rule sub_space_before_punct_nomatch)
  next
    case False
    then show ?thesis
      unfolding b by (rule sub_space_before_punct_other)
  qed
qed

lemma tidied_punct_hd:
  assumes "is_punct q"
  shows "\<exists>Z. sub_space_before_punct (sub_punct_spacing (q # r)) = q # Z"
proof -
  have "dropWhile is_space (q # r) = q # r"
    using assms by (simp add: punct_not_space)
  from tidied_match [OF this assms] show ?thesis by blast
qed

lemma spaced_tidied:
  "single_spaced u \<Longrightarrow> spaced (sub_space_before_punct (sub_punct_spacing u))"
proof (induction "length u" arbitrary: u rule: less_induct)
  case less
  show ?case
  proof (cases u)
    case Nil
    then show ?thesis by simp
  next
    case (Cons c cs)
    show ?thesis
    proof (cases "starts_punct (dropWhile is_space (c # cs))")
      case True
      then obtain p rest where d: "dropWhile is_space (c # cs) = p # rest" and p: "is_punct p"
        by (cases "dropWhile is_space (c # cs)") auto
      let ?r = "dropWhile is_space rest"
      let ?T = "sub_space_before_punct (sub_punct_spacing ?r)"
      have len: "length ?r < length u"
        unfolding Cons using d by (rule dropWhile_Cons_shorter2)
      have "single_spaced (dropWhile is_space u)"
        using less.prems by (rule single_spaced_dropWhile)
      then have "single_spaced rest"
        unfolding Cons d by (rule single_spaced_tl)
      then have "single_spaced ?r"
        by (rule single_spaced_dropWhile)
      with len have T: "spaced ?T"
        by (rule less.hyps)
      have eq: "sub_space_before_punct (sub_punct_spacing u)
          = p # (if starts_punct ?r then ?T else 32 # ?T)"
        unfolding Cons using d p by (rule tidied_match)
      show ?thesis
      proof (cases ?r)
        case Nil
        with eq p show ?thesis
          by (simp add: space_32 punct_not_space not_punct_32 del: dropWhile_eq_Nil_conv)
      next
        case (Cons e r2)
        have ne: "\<not> is_space e"
          using Cons hd_dropWhile [of is_space rest] by auto
        show ?thesis
        proof (cases "is_punct e")
          case True
          then obtain Z where "sub_space_before_punct (sub_punct_spacing (e # r2)) = e # Z"
            using tidied_punct_hd by blast
          with T eq p True Cons show ?thesis
            by (simp add: punct_not_space)
        next
          case False
          with ne have pl: "plain e" by (simp add: plain_def)
          have "\<not> starts_punct (dropWhile is_space (e # r2))"
            using ne False by simp
          then have "sub_space_before_punct (sub_punct_spacing (e # r2))
              = e # sub_space_before_punct (sub_punct_spacing r2)"
            by (rule tidied_nomatch)
          with T eq p False Cons pl show ?thesis
            by (simp add: punct_not_space space_32 not_punct_32 del: sub_punct_spacing.simps
                sub_space_before_punct.simps)
        qed
      qed
    next
      case False
      then have eq: "sub_space_before_punct (sub_punct_spacing (c # cs))
          = c # sub_space_before_punct (sub_punct_spacing cs)"
        by (rule tidied_nomatch)
      have "single_spaced cs"
        using less.prems unfolding Cons by (rule single_spaced_tl)
      then have T: "spaced (sub_space_before_punct (sub_punct_spacing cs))"
        using less.hyps [of cs] Cons by simp
      show ?thesis
      proof (cases "is_space c")
        case ns: False
        with False have "plain c" by (simp add: plain_def)
        then show ?thesis
          unfolding Cons eq using T by (rule spaced_plain_Cons)
      next
        case sp: True
        with less.prems Cons have c: "c = 32"
          by (cases cs) auto
        show ?thesis
        proof (cases cs)
          case Nil
          with c show ?thesis
            unfolding Cons eq by (simp add: is_punct_def)
        next
          case (Cons d r)
          with less.prems sp \<open>u = c # cs\<close> have nd: "\<not> is_space d" by simp
          with False sp Cons have npd: "\<not> is_punct d" by simp
          with nd have "\<not> starts_punct (dropWhile is_space (d # r))" by simp
          then have "sub_space_before_punct (sub_punct_spacing (d # r))
              = d # sub_space_before_punct (sub_punct_spacing r)"
            by (rule tidied_nomatch)
          with T c nd npd Cons show ?thesis
            unfolding \<open>u = c # cs\<close> eq
            by (simp add: plain_def is_punct_def del: sub_punct_spacing.simps
                sub_space_before_punct.simps)
        qed
      qed
    qed
  qed
qed

lemma tidy_tidied: "tidy t \<Longrightarrow> sub_space_before_punct (sub_punct_spacing t) = t"
proof (induction "length t" arbitrary: t rule: less_induct)
  case less
  show ?case
  proof (cases t)
    case Nil
    then show ?thesis by simp
  next
    case (Cons c cs)
    have tl: "tidy cs"
      using less.prems unfolding Cons by (rule tidy_tl)
    then have ih: "sub_space_before_punct (sub_punct_spacing cs) = cs"
      using less.hyps [of cs] Cons by simp
    show ?thesis
    proof (cases "is_punct c")
      case True
      then have d: "dropWhile is_space (c # cs) = c # cs"
        by (simp add: punct_not_space)
      from less.prems True obtain e r where cs: "cs = e # r" and e: "e = 32 \<or> is_punct e"
        unfolding Cons by (cases cs) (auto simp: plain_def)
      show ?thesis
      proof (cases "is_punct e")
        case pe: True
        then have "dropWhile is_space cs = cs"
          unfolding cs by (simp add: punct_not_space)
        with tidied_match [OF d True] pe cs ih show ?thesis
          unfolding Cons by simp
      next
        case npe: False
        with e have e32: "e = 32" by simp
        from tl obtain f r2 where r: "r = f # r2" and f: "plain f"
          unfolding cs e32 by (cases r) (auto simp: plain_def space_32)
        have dr: "dropWhile is_space cs = r"
          unfolding cs e32 r using f by (simp add: space_32 plain_def)
        have "tidy r"
          using tl unfolding cs by (rule tidy_tl)
        then have "sub_space_before_punct (sub_punct_spacing r) = r"
          using less.hyps [of r] Cons cs by simp
        with tidied_match [OF d True] dr r f show ?thesis
          unfolding Cons cs e32 by (simp add: plain_def)
      qed
    next
      case False
      have "\<not> starts_punct (dropWhile is_space (c # cs))"
      proof (cases "is_space c")
        case True
        with less.prems obtain e r where "cs = e # r" and "plain e"
          unfolding Cons by (cases cs) (auto simp: plain_def)
        with True show ?thesis by (simp add: plain_def)
      next
        case ns: False
        with False show ?thesis by simp
      qed
      then have "sub_space_before_punct (sub_punct_spacing (c # cs))
          = c # sub_space_before_punct (sub_punct_spacing cs)"
        by (rule tidied_nomatch)
      with ih show ?thesis
        unfolding Cons by (simp only:)
    qed
  qed
qed

text \<open>Stripping spaces and \<open>,.!?\<close> from both ends.\<close>

lemma is_strip_char_iff: "is_strip_char c \<longleftrightarrow> c = 32 \<or> is_punct c"
  by (auto simp: is_strip_char_def is_punct_def)

lemma rstrip_Cons:
  "rev (dropWhile P (rev (c # r)))
     = (if rev (dropWhile P (rev r)) = [] then (if P c then [] else [c])
        else c # rev (dropWhile P (rev r)))"
proof (cases "\<forall>x \<in> set (rev r). P x")
  case True
  then have "dropWhile P (rev r @ [c]) = dropWhile P [c]"
    by (intro dropWhile_append2) auto
  with True show ?thesis by simp
next
  case False
  then have "dropWhile P (rev r @ [c]) = dropWhile P (rev r) @ [c]"
    by (auto simp: dropWhile_append1)
  with False show ?thesis by auto
qed

lemma rstrip_hd:
  assumes "rev (dropWhile P (rev r)) \<noteq> []"
  shows "r \<noteq> [] \<and> hd (rev (dropWhile P (rev r))) = hd r"
proof (cases r)
  case Nil
  with assms show ?thesis by simp
next
  case (Cons c cs)
  have "hd (rev (dropWhile P (rev (c # cs)))) = c"
    using assms unfolding Cons rstrip_Cons by (auto split: if_splits)
  then show ?thesis
    unfolding Cons by simp
qed

lemma tidy_rstrip: "spaced y \<Longrightarrow> tidy (rev (dropWhile is_strip_char (rev y)))"
proof (induction y)
  case Nil
  show ?case by simp
next
  case (Cons c r)
  let ?z = "rev (dropWhile is_strip_char (rev r))"
  have z: "tidy ?z"
    using Cons spaced_tl by blast
  have sp: "is_space c \<longrightarrow> c = 32"
    using Cons.prems by (cases r) auto
  show ?case
  proof (cases "?z = []")
    case True
    then have eq: "rev (dropWhile is_strip_char (rev (c # r)))
        = (if is_strip_char c then [] else [c])"
      by (simp only: rstrip_Cons simp_thms if_True)
    show ?thesis
    proof (cases "is_strip_char c")
      case strip: True
      then show ?thesis
        unfolding eq by simp
    next
      case False
      with sp have "plain c"
        by (auto simp: is_strip_char_iff plain_def)
      with False show ?thesis
        unfolding eq by simp
    qed
  next
    case False
    then have "r \<noteq> []" and h: "hd ?z = hd r"
      using rstrip_hd [of is_strip_char r] by auto
    then obtain d r2 where r: "r = d # r2" by (cases r) auto
    from False h r obtain z2 where zz: "?z = d # z2"
      by (cases ?z) auto
    from z zz have "tidy (d # z2)"
      by simp
    moreover from Cons.prems
    have "(is_space c \<longrightarrow> c = 32 \<and> plain d) \<and> (is_punct c \<longrightarrow> d = 32 \<or> is_punct d)"
      unfolding r by simp
    ultimately have "tidy (c # d # z2)"
      by simp
    with False zz show ?thesis
      by (simp only: rstrip_Cons if_False)
  qed
qed

definition neat :: "ustr \<Rightarrow> bool" where
  "neat t \<longleftrightarrow> tidy t \<and> (t \<noteq> [] \<longrightarrow> plain (hd t))"

lemma tidy_hd_space: "tidy (c # cs) \<Longrightarrow> is_space c \<longrightarrow> c = 32"
  by (cases cs) (auto simp: plain_def)

lemma tidy_last: "tidy t \<Longrightarrow> t \<noteq> [] \<Longrightarrow> plain (last t)"
  by (induction t rule: tidy.induct) auto

lemma neat_strip: "spaced v \<Longrightarrow> neat (strip_chars is_strip_char v)"
proof -
  assume "spaced v"
  then have "spaced (dropWhile is_strip_char v)"
    by (rule spaced_dropWhile)
  then have t: "tidy (strip_chars is_strip_char v)"
    unfolding strip_chars_def by (rule tidy_rstrip)
  have "plain (hd (strip_chars is_strip_char v))" if ne: "strip_chars is_strip_char v \<noteq> []"
  proof -
    from ne obtain c cs where s: "strip_chars is_strip_char v = c # cs"
      by (cases "strip_chars is_strip_char v") auto
    from strip_chars_hd [OF ne] s have "c \<noteq> 32" "\<not> is_punct c"
      by (simp_all add: is_strip_char_iff)
    moreover from t s have "is_space c \<longrightarrow> c = 32"
      using tidy_hd_space by simp
    ultimately show ?thesis by (simp add: s plain_def)
  qed
  with t show ?thesis by (simp add: neat_def)
qed

lemma strip_neat: "neat t \<Longrightarrow> strip_chars is_strip_char t = t"
proof (cases t)
  case Nil
  then show ?thesis by (simp add: strip_chars_def)
next
  case (Cons c cs)
  assume n: "neat t"
  then have "plain c"
    by (simp add: neat_def Cons)
  then have "\<not> is_strip_char c"
    by (auto simp: is_strip_char_iff plain_def space_32)
  then have front: "dropWhile is_strip_char t = t"
    by (simp add: Cons)
  from n have "tidy t"
    by (simp add: neat_def)
  then have "plain (last t)"
    by (rule tidy_last) (simp add: Cons)
  then have "\<not> is_strip_char (last t)"
    by (auto simp: is_strip_char_iff plain_def space_32)
  moreover have tne: "t \<noteq> []"
    by (simp add: Cons)
  then have "hd (rev t) = last t"
    by (simp add: hd_rev)
  ultimately have "\<not> is_strip_char (hd (rev t))"
    by simp
  with tne have "dropWhile is_strip_char (rev t) = rev t"
    by (cases "rev t") simp_all
  with front show ?thesis by (simp add: strip_chars_def)
qed

text \<open>
  The last substitution replaces a small letter by its capital and nothing else, so it
  keeps the shape of a text.
\<close>

definition similar :: "nat \<Rightarrow> nat \<Rightarrow> bool" where
  "similar a b \<longleftrightarrow>
     (is_space a \<longleftrightarrow> is_space b) \<and> (is_punct a \<longleftrightarrow> is_punct b) \<and> (a = 32 \<longleftrightarrow> b = 32)"

lemma similar_refl: "similar a a"
  by (simp add: similar_def)

lemma capital_simps:
  assumes "is_ascii_lower l"
  shows "\<not> is_space (l - 32)" "\<not> is_term (l - 32)" "\<not> is_ascii_lower (l - 32)"
    "\<not> is_punct (l - 32)" "\<not> is_space l" "\<not> is_punct l" "l \<noteq> 32" "l - 32 \<noteq> 32"
  using assms by (auto simp: is_ascii_lower_def is_space_def is_term_def is_punct_def)

lemma similar_capital: "is_ascii_lower l \<Longrightarrow> similar l (l - 32)"
  by (simp add: similar_def capital_simps)

lemma term_not_space: "is_term c \<Longrightarrow> \<not> is_space c"
  by (simp add: term_punct punct_not_space)

lemma upper_match:
  "is_term c \<Longrightarrow> takeWhile is_space cs \<noteq> [] \<Longrightarrow> dropWhile is_space cs = l # rest \<Longrightarrow>
   is_ascii_lower l \<Longrightarrow>
   sub_upper_after_term (c # cs) = c # takeWhile is_space cs @ (l - 32) # sub_upper_after_term rest"
  by simp

definition small_ahead :: "nat \<Rightarrow> ustr \<Rightarrow> bool" where
  "small_ahead c cs \<longleftrightarrow>
     is_term c \<and> takeWhile is_space cs \<noteq> []
     \<and> (case dropWhile is_space cs of [] \<Rightarrow> False | l # rest \<Rightarrow> is_ascii_lower l)"

lemma upper_nomatch:
  "\<not> small_ahead c cs \<Longrightarrow> sub_upper_after_term (c # cs) = c # sub_upper_after_term cs"
  by (cases "dropWhile is_space cs")
     (auto simp: small_ahead_def simp del: dropWhile_eq_Nil_conv takeWhile_eq_Nil_iff)

lemma small_aheadE:
  assumes "small_ahead c cs"
  obtains l rest where "is_term c" "takeWhile is_space cs \<noteq> []"
    "dropWhile is_space cs = l # rest" "is_ascii_lower l"
  using assms by (cases "dropWhile is_space cs") (auto simp: small_ahead_def)

lemma upper_Cons: "\<exists>r. sub_upper_after_term (c # cs) = c # r"
proof (cases "small_ahead c cs")
  case True
  then obtain l rest where "is_term c" "takeWhile is_space cs \<noteq> []"
    "dropWhile is_space cs = l # rest" "is_ascii_lower l"
    by (rule small_aheadE)
  then have "sub_upper_after_term (c # cs)
      = c # takeWhile is_space cs @ (l - 32) # sub_upper_after_term rest"
    by (rule upper_match)
  then show ?thesis
    by blast
next
  case False
  then have "sub_upper_after_term (c # cs) = c # sub_upper_after_term cs"
    by (rule upper_nomatch)
  then show ?thesis
    by blast
qed

lemma upper_Nil_iff: "sub_upper_after_term s = [] \<longleftrightarrow> s = []"
proof (cases s)
  case Nil
  then show ?thesis by simp
next
  case (Cons c cs)
  with upper_Cons [of c cs] show ?thesis by auto
qed

lemma upper_hd: "s \<noteq> [] \<Longrightarrow> hd (sub_upper_after_term s) = hd s"
proof (cases s)
  case Nil
  assume "s \<noteq> []"
  with Nil show ?thesis by simp
next
  case (Cons c cs)
  with upper_Cons [of c cs] show ?thesis by auto
qed

lemma upper_spaces:
  "\<forall>x \<in> set ws. is_space x \<Longrightarrow> sub_upper_after_term (ws @ r) = ws @ sub_upper_after_term r"
proof (induction ws)
  case Nil
  show ?case by simp
next
  case (Cons w ws)
  then have "\<not> is_term w"
    using term_not_space by auto
  then have "\<not> small_ahead w (ws @ r)"
    by (simp add: small_ahead_def)
  then have "sub_upper_after_term (w # ws @ r) = w # sub_upper_after_term (ws @ r)"
    by (rule upper_nomatch)
  with Cons show ?case by simp
qed

lemma upper_split:
  "sub_upper_after_term cs
     = takeWhile is_space cs @ sub_upper_after_term (dropWhile is_space cs)"
proof -
  have "\<forall>x \<in> set (takeWhile is_space cs). is_space x"
    by (auto dest: set_takeWhileD)
  from upper_spaces [OF this, of "dropWhile is_space cs"] show ?thesis
    by simp
qed

lemma upper_ahead:
  "takeWhile is_space (sub_upper_after_term cs) = takeWhile is_space cs
   \<and> dropWhile is_space (sub_upper_after_term cs) = sub_upper_after_term (dropWhile is_space cs)"
proof -
  let ?tw = "takeWhile is_space cs" and ?dw = "dropWhile is_space cs"
  have all: "\<forall>x \<in> set ?tw. is_space x"
    by (auto dest: set_takeWhileD)
  show ?thesis
  proof (cases ?dw)
    case Nil
    have eq: "sub_upper_after_term cs = ?tw"
      by (subst upper_split) (simp only: Nil sub_upper_after_term.simps(1) append_Nil2)
    have "takeWhile is_space ?tw = ?tw" and "dropWhile is_space ?tw = []"
      using all by simp_all
    then show ?thesis
      unfolding eq by (simp only: Nil sub_upper_after_term.simps(1) simp_thms)
  next
    case (Cons d r)
    then have nd: "\<not> is_space d"
      using hd_dropWhile [of is_space cs] by auto
    from upper_Cons [of d r] obtain r' where r': "sub_upper_after_term (d # r) = d # r'"
      by blast
    have eq: "sub_upper_after_term cs = ?tw @ d # r'"
      by (subst upper_split) (simp only: Cons r')
    have "takeWhile is_space (?tw @ d # r') = ?tw"
      using nd all by (simp add: takeWhile_tail)
    moreover have "dropWhile is_space (?tw @ d # r') = d # r'"
      using nd all by (simp add: dropWhile_append3)
    ultimately show ?thesis
      unfolding eq by (simp only: Cons r')
  qed
qed

lemma small_ahead_upper: "small_ahead c (sub_upper_after_term cs) \<longleftrightarrow> small_ahead c cs"
proof -
  have "(case sub_upper_after_term (dropWhile is_space cs) of
           [] \<Rightarrow> False | l # rest \<Rightarrow> is_ascii_lower l)
      = (case dropWhile is_space cs of [] \<Rightarrow> False | l # rest \<Rightarrow> is_ascii_lower l)"
  proof (cases "dropWhile is_space cs")
    case Nil
    then show ?thesis by (simp del: dropWhile_eq_Nil_conv)
  next
    case (Cons d r)
    with upper_Cons [of d r] show ?thesis
      by (auto simp del: sub_upper_after_term.simps)
  qed
  then show ?thesis
    by (simp only: small_ahead_def upper_ahead)
qed

lemma upper_idem:
  "sub_upper_after_term (sub_upper_after_term t) = sub_upper_after_term t"
proof (induction "length t" arbitrary: t rule: less_induct)
  case less
  show ?case
  proof (cases t)
    case Nil
    then show ?thesis by simp
  next
    case (Cons c cs)
    show ?thesis
    proof (cases "small_ahead c cs")
      case True
      then obtain l rest where c: "is_term c" and tw: "takeWhile is_space cs \<noteq> []"
        and dw: "dropWhile is_space cs = l # rest" and l: "is_ascii_lower l"
        by (rule small_aheadE)
      let ?tw = "takeWhile is_space cs"
      let ?R = "sub_upper_after_term rest"
      have all: "\<forall>x \<in> set ?tw. is_space x"
        by (auto dest: set_takeWhileD)
      have "length rest < length t"
        unfolding Cons using dw dropWhile_Cons_shorter [of is_space cs l rest] by simp
      then have ih: "sub_upper_after_term ?R = ?R"
        by (rule less.hyps)
      have e1: "sub_upper_after_term (c # cs) = c # ?tw @ (l - 32) # ?R"
        using c tw dw l by (rule upper_match)
      have "takeWhile is_space (?tw @ (l - 32) # ?R) = ?tw"
        and "dropWhile is_space (?tw @ (l - 32) # ?R) = (l - 32) # ?R"
        using all l by (simp_all add: takeWhile_tail dropWhile_append3 capital_simps)
      then have "\<not> small_ahead c (?tw @ (l - 32) # ?R)"
        using l by (simp add: small_ahead_def capital_simps)
      then have "sub_upper_after_term (c # ?tw @ (l - 32) # ?R)
          = c # sub_upper_after_term (?tw @ (l - 32) # ?R)"
        by (rule upper_nomatch)
      also have "sub_upper_after_term (?tw @ (l - 32) # ?R)
          = ?tw @ sub_upper_after_term ((l - 32) # ?R)"
        using all by (rule upper_spaces)
      also have "sub_upper_after_term ((l - 32) # ?R) = (l - 32) # sub_upper_after_term ?R"
        using l by (intro upper_nomatch) (simp add: small_ahead_def capital_simps)
      finally show ?thesis
        unfolding Cons e1 ih .
    next
      case False
      then have e1: "sub_upper_after_term (c # cs) = c # sub_upper_after_term cs"
        by (rule upper_nomatch)
      from False have "\<not> small_ahead c (sub_upper_after_term cs)"
        by (simp add: small_ahead_upper)
      then have "sub_upper_after_term (c # sub_upper_after_term cs)
          = c # sub_upper_after_term (sub_upper_after_term cs)"
        by (rule upper_nomatch)
      moreover have "sub_upper_after_term (sub_upper_after_term cs) = sub_upper_after_term cs"
        using less.hyps [of cs] Cons by simp
      ultimately show ?thesis
        unfolding Cons e1 by simp
    qed
  qed
qed

lemma upper_similar: "list_all2 similar t (sub_upper_after_term t)"
proof (induction "length t" arbitrary: t rule: less_induct)
  case less
  show ?case
  proof (cases t)
    case Nil
    then show ?thesis by simp
  next
    case (Cons c cs)
    show ?thesis
    proof (cases "small_ahead c cs")
      case True
      then obtain l rest where c: "is_term c" and tw: "takeWhile is_space cs \<noteq> []"
        and dw: "dropWhile is_space cs = l # rest" and l: "is_ascii_lower l"
        by (rule small_aheadE)
      let ?tw = "takeWhile is_space cs"
      have "length rest < length t"
        unfolding Cons using dw dropWhile_Cons_shorter [of is_space cs l rest] by simp
      then have ih: "list_all2 similar rest (sub_upper_after_term rest)"
        by (rule less.hyps)
      have cs: "cs = ?tw @ l # rest"
        using dw takeWhile_dropWhile_id [of is_space cs] by simp
      have "list_all2 similar ?tw ?tw"
        by (simp add: list_all2_refl similar_refl)
      with ih l have "list_all2 similar (c # ?tw @ l # rest)
          (c # ?tw @ (l - 32) # sub_upper_after_term rest)"
        by (simp add: list_all2_appendI similar_refl similar_capital)
      then have "list_all2 similar (c # cs) (c # ?tw @ (l - 32) # sub_upper_after_term rest)"
        using cs by simp
      moreover have "sub_upper_after_term (c # cs)
          = c # ?tw @ (l - 32) # sub_upper_after_term rest"
        using c tw dw l by (rule upper_match)
      ultimately show ?thesis
        unfolding Cons by (simp only:)
    next
      case False
      have "list_all2 similar cs (sub_upper_after_term cs)"
        using less.hyps [of cs] Cons by simp
      then show ?thesis
        unfolding Cons using False by (simp add: upper_nomatch similar_refl
            del: sub_upper_after_term.simps)
    qed
  qed
qed

lemma tidy_similar: "list_all2 similar t u \<Longrightarrow> tidy t \<Longrightarrow> tidy u"
proof (induction t arbitrary: u rule: tidy.induct)
  case 1
  then show ?case by simp
next
  case (2 c)
  then show ?case
    by (auto simp: list_all2_Cons1 similar_def plain_def)
next
  case (3 c d r)
  from "3.prems"(1) obtain b e u' where u: "u = b # e # u'" and cb: "similar c b"
    and de: "similar d e" and rest: "list_all2 similar (d # r) (e # u')"
    by (auto simp: list_all2_Cons1)
  from "3.prems"(2) have "tidy (d # r)"
    by simp
  with rest have "tidy (e # u')"
    by (rule "3.IH")
  with "3.prems"(2) cb de show ?case
    unfolding u by (auto simp: similar_def plain_def)
qed

lemma neat_upper: "neat t \<Longrightarrow> neat (sub_upper_after_term t)"
proof -
  assume n: "neat t"
  then have "tidy (sub_upper_after_term t)"
    using upper_similar tidy_similar by (auto simp: neat_def)
  moreover have "plain (hd (sub_upper_after_term t))" if "t \<noteq> []"
    using that n by (simp add: upper_hd neat_def)
  ultimately show ?thesis
    by (simp add: neat_def upper_Nil_iff)
qed

text \<open>The text that \<open>_clean_subtitle_text\<close> returns is neat, and it leaves a neat text as it is.\<close>

lemma neat_clean_subtitle_text: "neat (clean_subtitle_text s)"
proof -
  have "single_spaced (sub_ws_runs s)"
    by (rule single_spaced_sub_ws_runs)
  then have "spaced (sub_space_before_punct (sub_punct_spacing (sub_ws_runs s)))"
    by (rule spaced_tidied)
  then have "neat (strip_chars is_strip_char
      (sub_space_before_punct (sub_punct_spacing (sub_ws_runs s))))"
    by (rule neat_strip)
  then show ?thesis
    unfolding clean_subtitle_text_def Let_def by (rule neat_upper)
qed

lemma clean_subtitle_text_neat: "neat t \<Longrightarrow> clean_subtitle_text t = sub_upper_after_term t"
proof -
  assume n: "neat t"
  then have t: "tidy t"
    by (simp add: neat_def)
  from t have "sub_ws_runs t = t"
    by (rule tidy_sub_ws_runs)
  moreover from t have "sub_space_before_punct (sub_punct_spacing t) = t"
    by (rule tidy_tidied)
  moreover from n have "strip_chars is_strip_char t = t"
    by (rule strip_neat)
  ultimately show ?thesis
    by (simp add: clean_subtitle_text_def)
qed

section \<open>Normalizing twice\<close>

text \<open>
  C7, as stated: a text is normalized by \<open>_fix_hindi_hinglish_errors\<close> and then by
  \<open>_clean_subtitle_text\<close>, and normalizing twice should give what normalizing once gives.
  It does not: in \<open>x kar  na\<close> the two spaces keep the correction \<open>kar na\<close> from applying,
  the whitespace is collapsed afterwards, and the second pass finds \<open>kar na\<close> and joins it.
\<close>

theorem fix_hindi_hinglish_errors_not_idempotent:
  "fix_hindi_hinglish_errors ascii_tables (asc ''x kar  na'') = asc ''X kar na''
   \<and> fix_hindi_hinglish_errors ascii_tables (asc ''X kar na'') = asc ''X karna''
   \<and> fix_hindi_hinglish_errors ascii_tables
         (fix_hindi_hinglish_errors ascii_tables (asc ''x kar  na''))
       \<noteq> fix_hindi_hinglish_errors ascii_tables (asc ''x kar  na'')
   \<and> clean_subtitle_text (asc ''X kar na'') = asc ''X kar na''
   \<and> clean_subtitle_text (asc ''X karna'') = asc ''X karna''"
proof -
  have 1: "fix_hindi_hinglish_errors ascii_tables (asc ''x kar  na'') = asc ''X kar na''"
    by (simp add: fix_hindi_hinglish_errors_def corrections_def py_replace_Nil py_replace_Cons
        startswith_def capitalize_sentence_def match_term_def py_strip_def strip_chars_def
        is_space_def is_term_def upper_char_def is_ascii_lower_def ascii_tables_def Let_def
        asc_def)
  have 2: "fix_hindi_hinglish_errors ascii_tables (asc ''X kar na'') = asc ''X karna''"
    by (simp add: fix_hindi_hinglish_errors_def corrections_def py_replace_Nil py_replace_Cons
        startswith_def capitalize_sentence_def match_term_def py_strip_def strip_chars_def
        is_space_def is_term_def upper_char_def is_ascii_lower_def ascii_tables_def Let_def
        asc_def)
  have 3: "asc ''X karna'' \<noteq> asc ''X kar na''"
    by (simp add: asc_def)
  have 4: "clean_subtitle_text (asc ''X kar na'') = asc ''X kar na''"
    and 5: "clean_subtitle_text (asc ''X karna'') = asc ''X karna''"
    by (simp_all add: clean_subtitle_text_def strip_chars_def is_space_def is_punct_def
        is_term_def is_strip_char_def asc_def)
  from 1 2 3 4 5 show ?thesis
    by simp
qed

text \<open>
  C7, as amended: the second normalizer, \<open>_clean_subtitle_text\<close>, is idempotent. What it
  returns is neat, and on a neat text it does no more than capitalize the small letters that
  follow \<open>.\<close>, \<open>!\<close> or \<open>?\<close> and a space, which are capitals already.
\<close>

theorem clean_subtitle_text_idempotent:
  "clean_subtitle_text (clean_subtitle_text s) = clean_subtitle_text s"
proof -
  have "clean_subtitle_text (clean_subtitle_text s)
      = sub_upper_after_term (clean_subtitle_text s)"
    using neat_clean_subtitle_text by (rule clean_subtitle_text_neat)
  also have "\<dots> = clean_subtitle_text s"
    unfolding clean_subtitle_text_def Let_def by (rule upper_idem)
  finally show ?thesis .
qed

section \<open>Validating the serialized text\<close>

lemma srt_lines_first:
  "srt_lines ut n segs \<noteq> [] \<Longrightarrow>
   \<exists>seg R. emitted ut seg \<and> srt_lines ut n segs = srt_entry n seg @ R"
proof (induction segs)
  case Nil
  then show ?case by simp
next
  case (Cons seg segs)
  show ?case
  proof (cases "emitted ut seg")
    case True
    then have "srt_lines ut n (seg # segs) = srt_entry n seg @ srt_lines ut (n + 1) segs"
      by (simp only: srt_lines_step if_True)
    with True show ?thesis by blast
  next
    case False
    then have "srt_lines ut n (seg # segs) = srt_lines ut n segs"
      by (simp only: srt_lines_step if_False)
    with Cons show ?thesis by simp
  qed
qed

text \<open>A serialized text that is not empty begins with the entry 1 of an emitted segment.\<close>

lemma convert_to_srt_first:
  assumes "convert_to_srt ut result \<noteq> []"
  shows "\<exists>seg X. emitted ut seg
           \<and> convert_to_srt ut result
               = [49] @ [10] @ time_line seg @ [10] @ cleaned_text seg @ [10] @ X"
proof -
  from assms obtain segs where segs: "res_segments result = Some segs"
    by (cases "res_segments result") (auto simp: convert_to_srt_def)
  with assms have "srt_lines ut (Suc 0) segs \<noteq> []"
    by (auto simp: convert_to_srt_def)
  then obtain seg R where e: "emitted ut seg"
      and l: "srt_lines ut (Suc 0) segs = srt_entry (Suc 0) seg @ R"
    using srt_lines_first by blast
  have one: "str_nat (Suc 0) = [49]"
    by (simp add: str_nat_digit)
  have "convert_to_srt ut result
      = [49] @ [10] @ time_line seg @ [10] @ cleaned_text seg @ [10] @ join [10] ([] # R)"
    by (simp add: convert_to_srt_def segs l srt_entry_def one)
  with e show ?thesis by blast
qed

lemma emitted_text:
  assumes "emitted ut seg"
  shows "cleaned_text seg \<noteq> []" and "\<not> is_space (hd (cleaned_text seg))"
proof -
  show ne: "cleaned_text seg \<noteq> []"
    using assms by (simp add: emitted_def)
  have "neat (cleaned_text seg)"
    unfolding cleaned_text_def by (rule neat_clean_subtitle_text)
  with ne show "\<not> is_space (hd (cleaned_text seg))"
    by (simp add: neat_def plain_def)
qed

lemma not_space_49: "\<not> is_space 49"
  by (simp add: is_space_def)

lemma py_strip_one: "py_strip [49] = [49]"
  by (simp add: py_strip_def strip_chars_def not_space_49)

lemma validate_entry:
  assumes "t \<noteq> []" and "\<not> is_space (hd t)" and "10 \<notin> set l" and "contains (asc ''-->'') l"
  shows "validate_srt_content ut ([49] @ [10] @ l @ [10] @ t @ [10] @ x)
           = (True, asc ''SRT file is valid'')"
proof -
  let ?p = "[49, 10] @ l @ [10, hd t]"
  have whole: "[49] @ [10] @ l @ [10] @ t @ [10] @ x = ?p @ (tl t @ [10] @ x)"
    using assms(1) by (cases t) simp_all
  have "\<exists>q'. strip_chars is_space (?p @ (tl t @ [10] @ x)) = ?p @ q'"
    by (rule strip_chars_keeps_prefix) (simp_all add: not_space_49 assms(2))
  then obtain q' where
    content: "py_strip ([49] @ [10] @ l @ [10] @ t @ [10] @ x) = ?p @ q'"
    unfolding whole py_strip_def by blast
  obtain third more where third: "split_on 10 (hd t # q') = third # more"
    using split_on_nonempty [of 10 "hd t # q'"] by (cases "split_on 10 (hd t # q')") auto
  have "split_on 10 (?p @ q') = [49] # split_on 10 (l @ 10 # (hd t # q'))"
    using split_on_append [of 10 "[49]" "l @ 10 # (hd t # q')"] by simp
  also have "split_on 10 (l @ 10 # (hd t # q')) = l # split_on 10 (hd t # q')"
    using assms(3) by (rule split_on_append)
  finally have lines: "split_on 10 (?p @ q') = [49] # l # third # more"
    by (simp only: third)
  have digit: "isdigit ut [49]"
    by (simp add: isdigit_def is_digit_def)
  have ne: "?p @ q' \<noteq> []"
    by simp
  show ?thesis
    unfolding validate_srt_content_def content Let_def lines
    using digit assms(4) ne
    by (simp add: py_strip_one del: append.simps split_on.simps)
qed

text \<open>
  C6, as stated: the serialized text of every document that is not empty should pass the
  validation, and the first line should be a positive integer. A document whose only
  segment is \<open>Ok\<close> is not empty, but its text is shorter than three characters and the
  serializer drops it: the serialized text is empty and the validation fails. And a file
  whose first line is \<open>0\<close> passes: the line is only asked to consist of digits.
\<close>

theorem short_document_fails_validation:
  "validate_srt_content ascii_tables
     (convert_to_srt ascii_tables
        \<lparr>res_segments = Some [\<lparr>seg_text = Some (asc ''Ok''), seg_start = Some 0,
                                seg_end = Some 1, avg_logprob = Some (- (1 / 4))\<rparr>],
         res_language = Some (asc ''en''), res_text = Some (asc ''Ok'')\<rparr>)
     = (False, asc ''SRT file is empty'')
   \<and> validate_srt_content ascii_tables
       (asc ''0'' @ [10] @ asc ''00:00:00,000 --> 00:00:01,000'' @ [10] @ asc ''Hello'')
     = (True, asc ''SRT file is valid'')"
proof -
  have "convert_to_srt ascii_tables
      \<lparr>res_segments = Some [\<lparr>seg_text = Some (asc ''Ok''), seg_start = Some 0,
                              seg_end = Some 1, avg_logprob = Some (- (1 / 4))\<rparr>],
       res_language = Some (asc ''en''), res_text = Some (asc ''Ok'')\<rparr> = []"
    by (simp add: convert_to_srt_def clean_subtitle_text_def search_devanagari_def
        is_devanagari_def is_punct_def is_strip_char_def py_strip_def strip_chars_def
        is_space_def is_term_def asc_def)
  then have 1: "validate_srt_content ascii_tables
      (convert_to_srt ascii_tables
        \<lparr>res_segments = Some [\<lparr>seg_text = Some (asc ''Ok''), seg_start = Some 0,
                                seg_end = Some 1, avg_logprob = Some (- (1 / 4))\<rparr>],
         res_language = Some (asc ''en''), res_text = Some (asc ''Ok'')\<rparr>)
      = (False, asc ''SRT file is empty'')"
    by (simp add: validate_srt_content_def py_strip_def strip_chars_def)
  have 2: "validate_srt_content ascii_tables
      (asc ''0'' @ [10] @ asc ''00:00:00,000 --> 00:00:01,000'' @ [10] @ asc ''Hello'')
      = (True, asc ''SRT file is valid'')"
    by (simp add: validate_srt_content_def py_strip_def strip_chars_def is_space_def
        isdigit_def is_digit_def startswith_def asc_def)
  from 1 2 show ?thesis
    by simp
qed

text \<open>
  C6, as amended: whenever the serialized text of a document is not empty, that is, at
  least one segment is emitted, it passes the validation. A content that is empty once
  trimmed fails with \<open>SRT file is empty\<close>. The checks are made in this order: the trimmed
  content is not empty, it has at least three lines, its first line, trimmed, is made of
  digits, and one of the first ten lines holds \<open>-->\<close>; the first that fails gives the
  reason.
\<close>

theorem serialized_document_validates:
  "(convert_to_srt ut result \<noteq> []
      \<longrightarrow> validate_srt_content ut (convert_to_srt ut result) = (True, asc ''SRT file is valid''))
   \<and> (py_strip raw = [] \<longrightarrow> validate_srt_content ut raw = (False, asc ''SRT file is empty''))
   \<and> validate_srt_content ut raw
     = (if py_strip raw = [] then (False, asc ''SRT file is empty'')
        else if length (split_on 10 (py_strip raw)) < 3 then (False, asc ''SRT file too short'')
        else if \<not> isdigit ut (py_strip (hd (split_on 10 (py_strip raw))))
        then (False, asc ''SRT file doesn't start with sequence number'')
        else if \<not> list_ex (contains (asc ''-->'')) (take 10 (split_on 10 (py_strip raw)))
        then (False, asc ''No timestamp found in SRT file'')
        else (True, asc ''SRT file is valid''))
   \<and> (files srt_path = Some raw
      \<longrightarrow> validate_srt_file ut files srt_path = validate_srt_content ut raw)"
proof -
  have "validate_srt_content ut (convert_to_srt ut result) = (True, asc ''SRT file is valid'')"
    if "convert_to_srt ut result \<noteq> []"
  proof -
    from that obtain seg X where e: "emitted ut seg"
      and c: "convert_to_srt ut result
          = [49] @ [10] @ time_line seg @ [10] @ cleaned_text seg @ [10] @ X"
      using convert_to_srt_first by blast
    show ?thesis
      unfolding c
      using emitted_text [OF e] time_line_no_newline time_line_arrow
      by (rule validate_entry)
  qed
  then show ?thesis
    by (simp add: validate_srt_content_def validate_srt_file_def Let_def)
qed

definition hello_document :: whisper_result where
  "hello_document =
     \<lparr>res_segments = Some [\<lparr>seg_text = Some (asc ''hello''), seg_start = Some 0,
                             seg_end = Some (5 / 2), avg_logprob = Some (- (1 / 4))\<rparr>],
      res_language = Some (asc ''en''), res_text = Some (asc ''hello'')\<rparr>"

theorem serialized_document_validates_witness:
  "convert_to_srt ascii_tables hello_document
     = asc ''1'' @ [10] @ asc ''00:00:00,000 --> 00:00:02,500'' @ [10] @ asc ''hello'' @ [10]
   \<and> validate_srt_content ascii_tables (convert_to_srt ascii_tables hello_document)
     = (True, asc ''SRT file is valid'')
   \<and> validate_srt_content ascii_tables [] = (False, asc ''SRT file is empty'')
   \<and> validate_srt_file ascii_tables [asc ''out/captions.srt'' \<mapsto> []] (asc ''out/captions.srt'')
     = (False, asc ''SRT file is empty'')"
proof -
  have c: "convert_to_srt ascii_tables hello_document
      = asc ''1'' @ [10] @ asc ''00:00:00,000 --> 00:00:02,500'' @ [10] @ asc ''hello'' @ [10]"
    by (simp add: hello_document_def convert_to_srt_def clean_subtitle_text_def
        search_devanagari_def match_no_words_def search_devanagari_or_word_def
        is_devanagari_def is_word_def is_decimal_def is_ascii_alnum_def is_punct_def
        is_strip_char_def py_strip_def strip_chars_def is_space_def is_term_def
        is_ascii_lower_def ascii_tables_def
        format_timestamp_def float_floordiv_eval fmod_def zero_pad_def str_nat_digit
        str_nat_more replicate_small float_eval asc_def)
  then have ne: "convert_to_srt ascii_tables hello_document \<noteq> []"
    by (simp add: asc_def)
  have e: "py_strip [] = []"
    by (simp add: py_strip_def strip_chars_def)
  from serialized_document_validates [of ascii_tables hello_document "[]"
      "[asc ''out/captions.srt'' \<mapsto> []]" "asc ''out/captions.srt''"] ne e c
  show ?thesis
    by simp
qed

section \<open>The results of the transcription\<close>

lemma py_strip_Nil: "py_strip [] = []"
  by (simp add: py_strip_def strip_chars_def)

text \<open>A serialized text is blank only when it is empty: otherwise it begins with \<open>1\<close>.\<close>

lemma convert_to_srt_hd:
  assumes "convert_to_srt ut result \<noteq> []"
  shows "hd (convert_to_srt ut result) = 49"
proof -
  from convert_to_srt_first [OF assms] obtain seg X where
    "convert_to_srt ut result
       = [49] @ [10] @ time_line seg @ [10] @ cleaned_text seg @ [10] @ X"
    by blast
  then show ?thesis by simp
qed

lemma py_strip_convert_to_srt:
  "py_strip (convert_to_srt ut result) = [] \<longleftrightarrow> convert_to_srt ut result = []"
proof
  assume blank: "py_strip (convert_to_srt ut result) = []"
  show "convert_to_srt ut result = []"
  proof (rule ccontr)
    assume ne: "convert_to_srt ut result \<noteq> []"
    then have "\<not> is_space (hd (convert_to_srt ut result))"
      by (simp add: convert_to_srt_hd not_space_49)
    with ne have "strip_chars is_space (convert_to_srt ut result) \<noteq> []"
      using strip_chars_nonempty by blast
    with blank show False
      by (simp add: py_strip_def)
  qed
next
  assume "convert_to_srt ut result = []"
  then show "py_strip (convert_to_srt ut result) = []"
    by (simp add: py_strip_Nil)
qed

lemma result_to_srt_cases:
  "result_to_srt ut result language
     = (if res_segments result = None
        then Inl (ValueError (asc ''Invalid transcription result - no segments found''))
        else if convert_to_srt ut (post_process_hindi_hinglish ut result language) = []
        then Inl (ValueError (asc ''Generated SRT content is empty''))
        else Inr (convert_to_srt ut (post_process_hindi_hinglish ut result language)))"
  by (auto simp: result_to_srt_def lacks_segments_def Let_def py_strip_convert_to_srt)

lemma transcribe_body_result:
  assumes "path_exists files audio_path"
    and "resolve_language ut eng audio_path language0 auto_detect = (calls0, Inr language)"
    and "transcribe_passes eng audio_path language task = (calls1, Inr result)"
  shows "transcribe_body ut files eng audio_path language0 task auto_detect
           = (calls0 @ calls1, result_to_srt ut result language)"
  using assms by (simp add: transcribe_body_def)

text \<open>
  C8. The audio file exists, the language is resolved and the passes return a result of
  the engine. When the result has no \<open>segments\<close>, \<open>transcribe_audio_local\<close> returns the
  message of the no-segments error. When the serialized text of the post-processed result
  is empty, that is, no segment is left after the post-processing and the filters of the
  serializer, it returns the message of the empty-output error. In every other case it
  returns the serialized text.
\<close>

theorem transcription_output_contract:
  assumes "path_exists files audio_path"
    and "resolve_language ut eng audio_path language0 auto_detect = (calls0, Inr language)"
    and "transcribe_passes eng audio_path language task = (calls1, Inr result)"
  shows "snd (transcribe_audio_local ut files eng audio_path language0 task auto_detect)
           = (if res_segments result = None
              then asc ''Error transcribing audio: Invalid transcription result - no segments found''
              else if convert_to_srt ut (post_process_hindi_hinglish ut result language) = []
              then asc ''Error transcribing audio: Generated SRT content is empty''
              else convert_to_srt ut (post_process_hindi_hinglish ut result language))"
  using transcribe_body_result [OF assms]
  by (simp add: transcribe_audio_local_def result_to_srt_cases asc_def)

text \<open>
  Three engines: \<open>sample_engine\<close> hears a sentence, \<open>silent_engine\<close> returns a result
  without segments, and \<open>noise_engine\<close> returns one segment that holds a full stop only.
\<close>

definition silent_engine :: engine where
  "silent_engine audio_path options =
     Inr \<lparr>res_segments = None, res_language = Some (asc ''en''), res_text = Some []\<rparr>"

definition noise_engine :: engine where
  "noise_engine audio_path options =
     Inr \<lparr>res_segments = Some [\<lparr>seg_text = Some (asc '' . ''), seg_start = Some 0,
                                seg_end = Some 1, avg_logprob = Some (- (1 / 4))\<rparr>],
          res_language = Some (asc ''en''), res_text = Some (asc ''.'')\<rparr>"

theorem transcription_output_contract_witness:
  "snd (transcribe_audio_local ascii_tables [asc ''a.wav'' \<mapsto> asc ''RIFF''] sample_engine
          (asc ''a.wav'') (Some (asc ''english'')) (asc ''transcribe'') False)
     = asc ''1'' @ [10] @ asc ''00:00:00,000 --> 00:00:02,500'' @ [10]
         @ asc ''Hello world. How are you'' @ [10]
   \<and> snd (transcribe_audio_local ascii_tables [asc ''a.wav'' \<mapsto> asc ''RIFF''] silent_engine
          (asc ''a.wav'') (Some (asc ''english'')) (asc ''transcribe'') False)
     = asc ''Error transcribing audio: Invalid transcription result - no segments found''
   \<and> snd (transcribe_audio_local ascii_tables [asc ''a.wav'' \<mapsto> asc ''RIFF''] noise_engine
          (asc ''a.wav'') (Some (asc ''english'')) (asc ''transcribe'') False)
     = asc ''Error transcribing audio: Generated SRT content is empty''"
proof -
  let ?files = "[asc ''a.wav'' \<mapsto> asc ''RIFF'']"
  let ?en = "Some (asc ''en'')"
  let ?options = "primary_options ?en (asc ''transcribe'')"
  have audio: "path_exists ?files (asc ''a.wav'')"
    by (simp add: path_exists_def)
  have language: "resolve_language ascii_tables eng (asc ''a.wav'') (Some (asc ''english''))
      False = ([], Inr ?en)" for eng
    by (simp add: resolve_language_def truthy_def language_mapping_def ascii_tables_def asc_def)
  have differ: "?en \<noteq> Some (asc ''hi'')"
    by (simp add: asc_def)
  let ?heard = "\<lparr>res_segments = Some [\<lparr>seg_text = Some (asc '' hello world.  how are you''),
                                seg_start = Some 0, seg_end = Some (5 / 2),
                                avg_logprob = Some (- (1 / 4))\<rparr>],
          res_language = Some (asc ''en''), res_text = Some (asc ''hello world'')\<rparr>"
  let ?silent = "\<lparr>res_segments = None, res_language = Some (asc ''en''),
          res_text = Some []\<rparr>"
  let ?noise = "\<lparr>res_segments = Some [\<lparr>seg_text = Some (asc '' . ''), seg_start = Some 0,
                                seg_end = Some 1, avg_logprob = Some (- (1 / 4))\<rparr>],
          res_language = Some (asc ''en''), res_text = Some (asc ''.'')\<rparr>"
  have p1: "transcribe_passes sample_engine (asc ''a.wav'') ?en (asc ''transcribe'')
      = ([?options], Inr ?heard)"
    and p2: "transcribe_passes silent_engine (asc ''a.wav'') ?en (asc ''transcribe'')
      = ([?options], Inr ?silent)"
    and p3: "transcribe_passes noise_engine (asc ''a.wav'') ?en (asc ''transcribe'')
      = ([?options], Inr ?noise)"
    using differ
    by (simp_all add: transcribe_passes_def Let_def sample_engine_def silent_engine_def
        noise_engine_def)
  note eval = post_process_hindi_hinglish_def convert_to_srt_def clean_subtitle_text_def
    search_devanagari_def match_no_words_def search_devanagari_or_word_def is_devanagari_def
    is_word_def is_decimal_def is_ascii_alnum_def is_punct_def is_strip_char_def
    fix_hindi_hinglish_errors_def corrections_def py_replace_Nil py_replace_Cons startswith_def
    capitalize_sentence_def match_term_def py_strip_def strip_chars_def is_space_def is_term_def
    upper_char_def is_ascii_lower_def ascii_tables_def
    format_timestamp_def float_floordiv_eval fmod_def zero_pad_def str_nat_digit str_nat_more
    replicate_small float_eval asc_def
  have 1: "snd (transcribe_audio_local ascii_tables ?files sample_engine (asc ''a.wav'')
        (Some (asc ''english'')) (asc ''transcribe'') False)
      = asc ''1'' @ [10] @ asc ''00:00:00,000 --> 00:00:02,500'' @ [10]
          @ asc ''Hello world. How are you'' @ [10]"
    unfolding transcription_output_contract [OF audio language p1]
    by (simp add: eval)
  have 2: "snd (transcribe_audio_local ascii_tables ?files silent_engine (asc ''a.wav'')
        (Some (asc ''english'')) (asc ''transcribe'') False)
      = asc ''Error transcribing audio: Invalid transcription result - no segments found''"
    unfolding transcription_output_contract [OF audio language p2]
    by simp
  have 3: "snd (transcribe_audio_local ascii_tables ?files noise_engine (asc ''a.wav'')
        (Some (asc ''english'')) (asc ''transcribe'') False)
      = asc ''Error transcribing audio: Generated SRT content is empty''"
    unfolding transcription_output_contract [OF audio language p3]
    by (simp add: eval)
  from 1 2 3 show ?thesis
    by simp
qed

section \<open>Failures of the transcription are messages\<close>

lemma startswith_append: "startswith (p @ s) p"
  by (simp add: startswith_def)

lemma error_message_starts:
  "startswith (asc ''Error transcribing audio: '' @ m) (asc ''Error'')"
  by (simp add: startswith_def asc_def)

lemma result_to_srt_not_error:
  assumes "result_to_srt ut result language = Inr srt"
  shows "\<not> startswith srt (asc ''Error'')"
proof -
  from assms have srt: "srt = convert_to_srt ut (post_process_hindi_hinglish ut result language)"
    and ne: "convert_to_srt ut (post_process_hindi_hinglish ut result language) \<noteq> []"
    by (auto simp: result_to_srt_cases split: if_splits)
  from ne have "hd srt = 49"
    unfolding srt by (rule convert_to_srt_hd)
  moreover from ne srt have "srt \<noteq> []"
    by simp
  ultimately show ?thesis
    by (cases srt) (auto simp: startswith_def asc_def)
qed

lemma transcribe_body_not_error:
  assumes "transcribe_body ut files eng audio_path language0 task auto_detect = (calls, Inr srt)"
  shows "\<not> startswith srt (asc ''Error'')"
proof -
  from assms obtain result language where "result_to_srt ut result language = Inr srt"
    by (auto simp: transcribe_body_def split: if_splits prod.splits sum.splits)
  then show ?thesis
    by (rule result_to_srt_not_error)
qed

text \<open>
  C10. \<open>transcribe_audio_local\<close> returns a string on every input; an exception of its body
  never leaves it. It returns \<open>Error transcribing audio: \<close> followed by the text of the
  exception when the body raises, which is so when the audio file is missing, when a call
  of the engine raises, when the result has no segments and when the serialized text is
  empty; and it returns a text that does not begin with \<open>Error\<close> when the body returns.
  So the string begins with \<open>Error\<close> exactly when the transcription failed, and this is
  the test of \<open>process_video_with_captions\<close>: after a successful extraction it returns
  the string as the message of a failure exactly when the string begins with \<open>Error\<close>.
\<close>

theorem transcription_failure_is_error_message:
  fixes w :: world and files files1 :: fs and video_path output_dir :: ustr
    and eng1 :: engine and language1 :: "ustr option" and auto_detect1 :: bool
  defines "extracted \<equiv> pathlib_join output_dir (asc ''extracted_audio.wav'')"
  defines "heard \<equiv> snd (transcribe_audio_local (tables w) files1 eng1 extracted language1
                           (asc ''transcribe'') auto_detect1)"
  shows
    "(\<forall>calls e. transcribe_body ut files eng audio_path language0 task auto_detect = (calls, Inl e)
        \<longrightarrow> transcribe_audio_local ut files eng audio_path language0 task auto_detect
              = (calls, asc ''Error transcribing audio: '' @ str_exn e))
     \<and> (\<forall>calls srt. transcribe_body ut files eng audio_path language0 task auto_detect
                       = (calls, Inr srt)
        \<longrightarrow> transcribe_audio_local ut files eng audio_path language0 task auto_detect
              = (calls, srt))
     \<and> (startswith (snd (transcribe_audio_local ut files eng audio_path language0 task
                            auto_detect)) (asc ''Error'')
        \<longleftrightarrow> (\<exists>e. snd (transcribe_body ut files eng audio_path language0 task auto_detect)
                    = Inl e))
     \<and> (\<not> path_exists files audio_path
        \<longrightarrow> snd (transcribe_audio_local ut files eng audio_path language0 task auto_detect)
              = asc ''Error transcribing audio: Audio file not found: '' @ audio_path)
     \<and> (path_exists files audio_path
          \<and> resolve_language ut eng audio_path language0 auto_detect = (calls0, Inr language)
          \<and> transcribe_passes eng audio_path language task = (calls1, Inl e1)
        \<longrightarrow> snd (transcribe_audio_local ut files eng audio_path language0 task auto_detect)
              = asc ''Error transcribing audio: '' @ str_exn e1)
     \<and> (path_exists files audio_path
          \<and> resolve_language ut eng audio_path language0 auto_detect = (calls0, Inr language)
          \<and> transcribe_passes eng audio_path language task = (calls1, Inr result)
          \<and> res_segments result = None
        \<longrightarrow> snd (transcribe_audio_local ut files eng audio_path language0 task auto_detect)
              = asc ''Error transcribing audio: Invalid transcription result - no segments found'')
     \<and> (path_exists files audio_path
          \<and> resolve_language ut eng audio_path language0 auto_detect = (calls0, Inr language)
          \<and> transcribe_passes eng audio_path language task = (calls1, Inr result)
          \<and> res_segments result \<noteq> None
          \<and> convert_to_srt ut (post_process_hindi_hinglish ut result language) = []
        \<longrightarrow> snd (transcribe_audio_local ut files eng audio_path language0 task auto_detect)
              = asc ''Error transcribing audio: Generated SRT content is empty'')
     \<and> (mkdir w output_dir files = None \<and> path_exists files video_path
          \<and> load_model w model_name = Inr eng1
          \<and> extract_audio w files video_path extracted = (True, files1)
        \<longrightarrow> (fst (process_video_with_captions w files video_path output_dir model_name fnt
                    create_video language1 auto_detect1) = Inr (None, None, heard)
              \<longleftrightarrow> startswith heard (asc ''Error'')))"
proof -
  let ?body = "transcribe_body ut files eng audio_path language0 task auto_detect"
  let ?out = "transcribe_audio_local ut files eng audio_path language0 task auto_detect"
  have raised: "?out = (calls, asc ''Error transcribing audio: '' @ str_exn e)"
    if "?body = (calls, Inl e)" for calls e
    using that by (simp add: transcribe_audio_local_def)
  have returned: "?out = (calls, srt)" if "?body = (calls, Inr srt)" for calls srt
    using that by (simp add: transcribe_audio_local_def)
  have exact: "startswith (snd ?out) (asc ''Error'') \<longleftrightarrow> (\<exists>e. snd ?body = Inl e)"
  proof (cases ?body)
    case (Pair calls r)
    show ?thesis
    proof (cases r)
      case (Inl e)
      with Pair raised [of calls e] show ?thesis
        by (simp add: error_message_starts)
    next
      case (Inr srt)
      with Pair returned [of calls srt] transcribe_body_not_error [of ut files eng audio_path
          language0 task auto_detect calls srt]
      show ?thesis
        by simp
    qed
  qed
  have missing: "snd ?out = asc ''Error transcribing audio: Audio file not found: '' @ audio_path"
    if "\<not> path_exists files audio_path"
    using that by (simp add: transcribe_audio_local_def transcribe_body_def asc_def)
  have engine: "snd ?out = asc ''Error transcribing audio: '' @ str_exn e1"
    if "path_exists files audio_path"
      and "resolve_language ut eng audio_path language0 auto_detect = (calls0, Inr language)"
      and "transcribe_passes eng audio_path language task = (calls1, Inl e1)"
    using that by (simp add: transcribe_audio_local_def transcribe_body_def)
  have body: "?body = (calls0 @ calls1, result_to_srt ut result language)"
    if "path_exists files audio_path"
      and "resolve_language ut eng audio_path language0 auto_detect = (calls0, Inr language)"
      and "transcribe_passes eng audio_path language task = (calls1, Inr result)"
    using that by (rule transcribe_body_result)
  have segments: "snd ?out
      = asc ''Error transcribing audio: Invalid transcription result - no segments found''"
    if "path_exists files audio_path"
      and "resolve_language ut eng audio_path language0 auto_detect = (calls0, Inr language)"
      and "transcribe_passes eng audio_path language task = (calls1, Inr result)"
      and "res_segments result = None"
    using body [OF that(1,2,3)] that(4)
    by (simp add: transcribe_audio_local_def result_to_srt_cases asc_def)
  have empty: "snd ?out = asc ''Error transcribing audio: Generated SRT content is empty''"
    if "path_exists files audio_path"
      and "resolve_language ut eng audio_path language0 auto_detect = (calls0, Inr language)"
      and "transcribe_passes eng audio_path language task = (calls1, Inr result)"
      and "res_segments result \<noteq> None"
      and "convert_to_srt ut (post_process_hindi_hinglish ut result language) = []"
    using body [OF that(1,2,3)] that(4,5)
    by (simp add: transcribe_audio_local_def result_to_srt_cases asc_def)
  have pipeline: "fst (process_video_with_captions w files video_path output_dir model_name fnt
        create_video language1 auto_detect1) = Inr (None, None, heard)
      \<longleftrightarrow> startswith heard (asc ''Error'')"
    if "mkdir w output_dir files = None" and "path_exists files video_path"
      and "load_model w model_name = Inr eng1"
      and "extract_audio w files video_path extracted = (True, files1)"
  proof (cases "startswith heard (asc ''Error'')")
    case True
    with that show ?thesis
      by (simp add: process_video_with_captions_def Let_def extracted_def [symmetric]
          heard_def [symmetric])
  next
    case False
    have other: "asc ''Error during processing: '' @ m \<noteq> heard" for m
    proof
      assume "asc ''Error during processing: '' @ m = heard"
      then have "startswith heard (asc ''Error'')"
        by (auto simp: startswith_def asc_def)
      with False show False ..
    qed
    from False that other show ?thesis
      by (simp add: process_video_with_captions_def Let_def extracted_def [symmetric]
          heard_def [symmetric] split: option.splits prod.splits)
  qed
  from raised returned exact missing engine segments empty pipeline show ?thesis
    by blast
qed

text \<open>
  Two failures: the audio file \<open>a.wav\<close> does not exist; and in a world whose engine
  returns no segments the pipeline hands the message back as the failure of the job.
\<close>

definition silent_world :: world where
  "silent_world = sample_world\<lparr>load_model := (\<lambda>name. Inr silent_engine)\<rparr>"

theorem transcription_failure_is_error_message_witness:
  "snd (transcribe_audio_local ascii_tables [asc ''up/v.mp4'' \<mapsto> asc ''video''] sample_engine
          (asc ''a.wav'') None (asc ''transcribe'') True)
     = asc ''Error transcribing audio: Audio file not found: a.wav''
   \<and> fst (process_video_with_captions silent_world [asc ''up/v.mp4'' \<mapsto> asc ''video'']
            (asc ''up/v.mp4'') (asc ''out'') (asc ''base'') None True (Some (asc ''english''))
            False)
     = Inr (None, None,
            asc ''Error transcribing audio: Invalid transcription result - no segments found'')"
proof -
  let ?files = "[asc ''up/v.mp4'' \<mapsto> asc ''video'']"
  let ?files1 = "?files(asc ''out/extracted_audio.wav'' \<mapsto> asc ''RIFF'')"
  let ?message = "asc ''Error transcribing audio: Invalid transcription result - no segments found''"
  have p1: "pathlib_join (asc ''out'') (asc ''extracted_audio.wav'')
      = asc ''out/extracted_audio.wav''"
    by (simp add: pathlib_join_def path_root_def path_parts_def path_format_def asc_def)
  have missing: "\<not> path_exists ?files (asc ''a.wav'')"
    by (simp add: path_exists_def asc_def)
  have dir: "mkdir silent_world (asc ''out'') ?files = None"
    and model: "load_model silent_world (asc ''base'') = Inr silent_engine"
    and tables: "tables silent_world = ascii_tables"
    by (simp_all add: silent_world_def sample_world_def)
  have video: "path_exists ?files (asc ''up/v.mp4'')"
    by (simp add: path_exists_def)
  have audio: "extract_audio silent_world ?files (asc ''up/v.mp4'')
      (asc ''out/extracted_audio.wav'') = (True, ?files1)"
    by (simp add: extract_audio_def silent_world_def sample_world_def apply_writes_def asc_def)
  have heard: "snd (transcribe_audio_local ascii_tables ?files1 silent_engine
      (asc ''out/extracted_audio.wav'') (Some (asc ''english'')) (asc ''transcribe'') False)
      = ?message"
    by (simp add: transcribe_audio_local_def transcribe_body_def path_exists_def
        resolve_language_def truthy_def language_mapping_def ascii_tables_def
        transcribe_passes_def mean_logprob_def silent_engine_def result_to_srt_def
        lacks_segments_def float_eval Let_def asc_def)
  have starts: "startswith ?message (asc ''Error'')"
    by (simp add: startswith_def asc_def)
  note inst = transcription_failure_is_error_message [where ut = ascii_tables
      and files = "?files" and eng = sample_engine and audio_path = "asc ''a.wav''"
      and ?language0.0 = None and task = "asc ''transcribe''" and auto_detect = True
      and w = silent_world and video_path = "asc ''up/v.mp4''" and output_dir = "asc ''out''"
      and model_name = "asc ''base''" and ?eng1.0 = silent_engine and ?files1.0 = "?files1"
      and fnt = None and create_video = True and ?language1.0 = "Some (asc ''english'')"
      and ?auto_detect1.0 = False]
  have 1: "snd (transcribe_audio_local ascii_tables ?files sample_engine (asc ''a.wav'') None
        (asc ''transcribe'') True)
      = asc ''Error transcribing audio: Audio file not found: a.wav''"
    using inst [THEN conjunct2, THEN conjunct2, THEN conjunct2, THEN conjunct1] missing
    by (simp add: asc_def)
  have 2: "fst (process_video_with_captions silent_world ?files (asc ''up/v.mp4'') (asc ''out'')
        (asc ''base'') None True (Some (asc ''english'')) False) = Inr (None, None, ?message)"
    using inst [THEN conjunct2, THEN conjunct2, THEN conjunct2, THEN conjunct2, THEN conjunct2,
        THEN conjunct2, THEN conjunct2] dir video model audio starts
    unfolding p1 tables heard
    by simp
  from 1 2 show ?thesis
    by simp
qed

section \<open>Segments of digits\<close>

text \<open>
  C5. A segment whose cleaned text is made of whitespace, digits and punctuation only
  should give no entry; line 439 of the source says so: \<open>Skip segments that are just
  punctuation or numbers\<close>. The test that follows asks that \<open>^[\s\d\W]+$\<close> matches the
  text and that the text has no character of \<open>[\u0900-\u097F\w]\<close>. A digit is a
  character of \<open>\w\<close>, so the second half fails on every text that holds a digit, and
  the segment is kept. Here the only segment is \<open>123\<close>, from \<open>0.0\<close> to \<open>1.0\<close>: the first
  pattern matches it, the second finds a character in it, and it is serialized as entry 1,
  whatever the Unicode tables are.
\<close>

theorem digits_only_segment_emitted:
  "match_no_words ut (asc ''123'')
   \<and> search_devanagari_or_word ut (asc ''123'')
   \<and> convert_to_srt ut
       \<lparr>res_segments = Some [\<lparr>seg_text = Some (asc ''123''), seg_start = Some 0,
                               seg_end = Some 1, avg_logprob = Some (- (1 / 4))\<rparr>],
        res_language = Some (asc ''en''), res_text = Some (asc ''123'')\<rparr>
     = asc ''1'' @ [10] @ asc ''00:00:00,000 --> 00:00:01,000'' @ [10] @ asc ''123'' @ [10]"
  by (simp add: convert_to_srt_def clean_subtitle_text_def search_devanagari_def
      match_no_words_def search_devanagari_or_word_def is_devanagari_def is_word_def
      is_decimal_def is_ascii_alnum_def is_punct_def is_strip_char_def py_strip_def
      strip_chars_def is_space_def is_term_def is_ascii_lower_def
      format_timestamp_def float_floordiv_eval fmod_def zero_pad_def str_nat_digit str_nat_more
      replicate_small float_eval asc_def)

section \<open>The failed job\<close>

text \<open>
  C4. A job whose background run fails should end with \<open>completed\<close> true and a message in
  \<open>error\<close>. The \<open>except\<close> branch of \<open>process_video_background\<close> writes
  \<open>completed = True\<close> into the entry and then calls \<open>tracker.update\<close>, which writes the
  tracker's own \<open>completed\<close> over it, and that is still \<open>False\<close>. Here the uploaded video
  exists and no extraction method is installed: the run fails with
  \<open>Failed to extract audio from video\<close>, and the poll that follows returns an entry with the
  error message and \<open>completed = False\<close>.
\<close>

theorem failed_job_polled_not_completed:
  "map_sum id (\<lambda>js. get_job_status js (asc ''j1''))
     (process_video_background no_tools_world [asc ''up/v.mp4'' \<mapsto> asc ''video''] []
        Map.empty (asc ''j1'') (asc ''up/v.mp4'') (asc ''out'') (asc ''base'') (asc ''auto'')
        True None)
   = Inr (Progress (asc ''error'') 0 (asc ''Error'')
            (asc ''Processing failed: Failed to extract audio from video'') False
            (Some (asc ''Failed to extract audio from video'')))"
  by (simp add: process_video_background_def process_video_with_captions_def
      no_tools_world_def sample_world_def extract_audio_def path_exists_def
      background_failed_def update_def ProgressTracker_def get_job_status_def truthy_def asc_def)

end
